(* ===== verification/Prelude.thy ===== *)
theory Prelude
  imports Main "HOL-Library.Word"
begin

text \<open>
  The vocabulary every theory of the development shares: the names of the C types, the ways
  a C function can go wrong, sequencing of computations that can go wrong, and the facts on
  lists, options and words that the component theories rely on.

  \<^item> A \<^verbatim>\<open>char\<close> or \<^verbatim>\<open>uint8_t\<close> is an \<open>8 word\<close>, a \<^verbatim>\<open>uint32_t\<close> and an \<^verbatim>\<open>int32_t\<close> a
    \<open>32 word\<close> (read by \<open>unat\<close> or \<open>sint\<close>), a \<^verbatim>\<open>time_t\<close> a \<open>64 word\<close>.
  \<^item> A C array of characters is a list of bytes; its length is the size of the array.
  \<^item> Undefined behaviour that the code can run into is a value of \<open>fault\<close>: reading or
    writing outside an array, following a null pointer, reading a variable that was never set,
    locking a mutex that nobody will unlock, dividing by zero, a signed result that does not fit.
\<close>

type_synonym byte = "8 word"
type_synonym bytes = "byte list"
type_synonym u32 = "32 word"
type_synonym i32 = "32 word"
type_synonym time_t = "64 word"

datatype fault = Null_Deref | Out_Of_Bounds | Deadlock | Uninitialised | Div_By_Zero | Int_Overflow

type_synonym 'a res = "fault + 'a"

definition bindE :: "'a res \<Rightarrow> ('a \<Rightarrow> 'b res) \<Rightarrow> 'b res" where
  "bindE m k = (case m of Inl f \<Rightarrow> Inl f | Inr x \<Rightarrow> k x)"

named_theorems mem_simps \<open>evaluation of reads and writes in byte arrays\<close>
named_theorems wire_simps \<open>layout of the messages on the wire\<close>
named_theorems sql_simps \<open>results of the statements and of the functions over them\<close>

subsection \<open>Computations that may fault\<close>

lemma bindE_Inr [simp]: "bindE (Inr x) k = k x"
  by (simp add: bindE_def)

lemma bindE_Inl [simp]: "bindE (Inl f) k = Inl f"
  by (simp add: bindE_def)

lemma bindE_eq_Inr_iff: "bindE m k = Inr y \<longleftrightarrow> (\<exists>x. m = Inr x \<and> k x = Inr y)"
  by (cases m) auto

lemma bindE_assoc: "bindE (bindE m f) g = bindE m (\<lambda>x. bindE (f x) g)"
  by (cases m) auto

lemma bindE_cong [fundef_cong]:
  "m = m' \<Longrightarrow> (\<And>x. m' = Inr x \<Longrightarrow> k x = k' x) \<Longrightarrow> bindE m k = bindE m' k'"
  by (cases m') auto

subsection \<open>Lists\<close>

lemma takeWhile_append_stop:
  "\<forall>x\<in>set xs. P x \<Longrightarrow> \<not> P y \<Longrightarrow> takeWhile P (xs @ y # ys) = xs"
  by (induction xs) auto

lemma takeWhile_all_append:
  "\<forall>x\<in>set xs. P x \<Longrightarrow> takeWhile P (xs @ ys) = xs @ takeWhile P ys"
  by (induction xs) auto

lemma takeWhile_replicate_stop: "\<not> P y \<Longrightarrow> takeWhile P (replicate n y) = []"
  by (cases n) auto

lemma take_append_len: "length xs = n \<Longrightarrow> take n (xs @ ys) = xs"
  by simp

lemma drop_append_len: "length xs = n \<Longrightarrow> drop n (xs @ ys) = ys"
  by simp

lemma takeWhile_nonzero_id: "0 \<notin> set xs \<Longrightarrow> takeWhile (\<lambda>b. b \<noteq> 0) xs = xs"
  by (induction xs) auto

lemma takeWhile_nonzero_append:
  "0 \<notin> set xs \<Longrightarrow> takeWhile (\<lambda>b. b \<noteq> 0) (xs @ ys) = xs @ takeWhile (\<lambda>b. b \<noteq> 0) ys"
  by (induction xs) auto

lemma length_takeWhile_take: "length (takeWhile P (take n xs)) \<le> n"
  using length_takeWhile_le [of P "take n xs"] by simp

lemma filter_id_set: "(\<And>x. x \<in> set xs \<Longrightarrow> P x) \<Longrightarrow> filter P xs = xs"
  by (induction xs) auto

lemma distinct_map_filter: "distinct (map f xs) \<Longrightarrow> distinct (map f (filter P xs))"
  by (induction xs) auto

subsection \<open>Words\<close>

lemma bit_byte_high [simp]: "8 \<le> n \<Longrightarrow> \<not> bit (b :: byte) n"
  using bit_imp_le_length [of b n] by auto

lemma unat_of_nat_less:
  "n < 2 ^ LENGTH('a::len) \<Longrightarrow> unat (of_nat n :: 'a word) = n"
  by (simp add: unat_of_nat take_bit_nat_eq_self)

lemma unat_of_nat_u32 [simp]: "n < 4294967296 \<Longrightarrow> unat (of_nat n :: u32) = n"
  by (rule unat_of_nat_less) simp

lemma of_nat_u32_inj:
  "of_nat m = (of_nat n :: u32) \<Longrightarrow> m < 4294967296 \<Longrightarrow> n < 4294967296 \<Longrightarrow> m = n"
  by (metis unat_of_nat_u32)

lemma unat_u32_bound: "unat (w :: u32) < 4294967296"
  using unsigned_less [of w] by simp

end
