(* ===== verification/Bytes.thy ===== *)
theory Bytes
  imports Prelude
begin

unbundle bit_operations_syntax

text \<open>
  The part of the C library that the wire format rests on: \<^verbatim>\<open>memcpy\<close>, \<^verbatim>\<open>memset\<close> and
  assignment to an array element as bounds-checked writes, C strings, and the
  network-order integers of \<^verbatim>\<open>parse_uint32_from_buf\<close> and \<^verbatim>\<open>write_uint32_to_buf\<close>
  (both \<^verbatim>\<open>server/src/request.c\<close> and \<^verbatim>\<open>server/src/response.c\<close> have a copy). The host is
  little-endian, as every platform the build files name; the main fact is that what goes on the wire
  is big-endian and that reading undoes writing.
\<close>

section \<open>Sizes\<close>

definition BUFSIZ :: nat where
  "BUFSIZ = 8192"

definition TOKEN_LEN :: nat where
  "TOKEN_LEN = 16"

definition BODY_DELIMITER :: byte where
  "BODY_DELIMITER = 0x1D"

section \<open>Reading and writing arrays\<close>

definition mem_read :: "bytes \<Rightarrow> nat \<Rightarrow> nat \<Rightarrow> bytes res" where
  "mem_read a off n =
     (if off + n \<le> length a then Inr (take n (drop off a)) else Inl Out_Of_Bounds)"

definition mem_write :: "bytes \<Rightarrow> nat \<Rightarrow> bytes \<Rightarrow> bytes res" where
  "mem_write a off xs =
     (if off + length xs \<le> length a
      then Inr (take off a @ xs @ drop (off + length xs) a)
      else Inl Out_Of_Bounds)"

text \<open>A run of writes, in the order of the statements.\<close>

fun writes :: "(nat \<times> bytes) list \<Rightarrow> bytes \<Rightarrow> bytes res" where
  "writes [] a = Inr a"
| "writes ((off, xs) # ws) a = bindE (mem_write a off xs) (writes ws)"

text \<open>\<^verbatim>\<open>memset(a + off, 0, n)\<close> as the data of one write.\<close>

abbreviation zeros :: "nat \<Rightarrow> bytes" where
  "zeros n \<equiv> replicate n 0"

lemma mem_read_ok [mem_simps]:
  "off + n \<le> length a \<Longrightarrow> mem_read a off n = Inr (take n (drop off a))"
  by (simp add: mem_read_def)

lemma mem_write_ok [mem_simps]:
  "off + length xs \<le> length a \<Longrightarrow>
   mem_write a off xs = Inr (take off a @ xs @ drop (off + length xs) a)"
  by (simp add: mem_write_def)

lemma mem_write_length: "mem_write a off xs = Inr b \<Longrightarrow> length b = length a"
  by (auto simp: mem_write_def split: if_splits)

lemma writes_length: "writes ws a = Inr b \<Longrightarrow> length b = length a"
  by (induction ws a rule: writes.induct)
    (auto simp: bindE_eq_Inr_iff dest: mem_write_length)

lemma writes_append: "writes (ws @ vs) a = bindE (writes ws a) (writes vs)"
  by (induction ws a rule: writes.induct) (auto simp: bindE_assoc cong: bindE_cong)

text \<open>A run of writes goes through exactly when each of them stays inside the array.\<close>

lemma writes_ok_iff:
  "(\<exists>b. writes ws a = Inr b) \<longleftrightarrow> (\<forall>(off, xs)\<in>set ws. off + length xs \<le> length a)"
proof (induction ws a rule: writes.induct)
  case (1 a)
  then show ?case by simp
next
  case (2 off xs ws a)
  show ?case
  proof (cases "off + length xs \<le> length a")
    case True
    then obtain b where b: "mem_write a off xs = Inr b" and "length b = length a"
      by (auto simp: mem_write_def)
    with 2 [OF b] True show ?thesis by simp
  next
    case False
    then show ?thesis by (auto simp: mem_write_def)
  qed
qed

text \<open>Writes behind a prefix leave it alone.\<close>

lemma mem_write_append:
  "mem_write (p @ a) (length p + off) xs = bindE (mem_write a off xs) (\<lambda>b. Inr (p @ b))"
  by (simp add: mem_write_def)

section \<open>C strings\<close>

text \<open>
  \<open>cstr a off\<close> is the string at \<open>a + off\<close>: the characters up to the first zero.
  Without a zero in the rest of the array, \<^verbatim>\<open>strlen\<close> runs out of it.
  \<open>cstrn a off n\<close> is what \<^verbatim>\<open>strncpy\<close> copies from \<open>a + off\<close> with bound \<open>n\<close>: it reads no
  further than the first zero.
\<close>

definition cstr :: "bytes \<Rightarrow> nat \<Rightarrow> bytes res" where
  "cstr a off =
     (if 0 \<in> set (drop off a) then Inr (takeWhile (\<lambda>b. b \<noteq> 0) (drop off a))
      else Inl Out_Of_Bounds)"

definition cstrn :: "bytes \<Rightarrow> nat \<Rightarrow> nat \<Rightarrow> bytes res" where
  "cstrn a off n =
     (if 0 \<in> set (take n (drop off a)) \<or> off + n \<le> length a
      then Inr (takeWhile (\<lambda>b. b \<noteq> 0) (take n (drop off a)))
      else Inl Out_Of_Bounds)"

definition is_cstr :: "bytes \<Rightarrow> bool" where
  "is_cstr s \<longleftrightarrow> 0 \<notin> set s"

lemma is_cstr_takeWhile [simp]: "is_cstr (takeWhile (\<lambda>b. b \<noteq> 0) xs)"
  by (auto simp: is_cstr_def dest: set_takeWhileD)

lemma cstr_result: "cstr a off = Inr s \<Longrightarrow> is_cstr s"
  by (auto simp: cstr_def split: if_splits)

lemma cstrn_result: "cstrn a off n = Inr s \<Longrightarrow> is_cstr s \<and> length s \<le> n"
  by (auto simp: cstrn_def length_takeWhile_take split: if_splits)

lemma cstr_terminated:
  assumes "is_cstr s"
  shows "cstr (p @ s @ 0 # q) (length p) = Inr s"
  using assms by (simp add: cstr_def is_cstr_def takeWhile_nonzero_append)

lemma cstrn_exact:
  assumes "is_cstr s"
  shows "cstrn (p @ s @ q) (length p) (length s) = Inr s"
  using assms by (simp add: cstrn_def is_cstr_def takeWhile_nonzero_id)

section \<open>Integers in memory and on the wire\<close>

definition load32 :: "bytes \<Rightarrow> u32" where
  "load32 bs = ucast (bs ! 0) OR push_bit 8 (ucast (bs ! 1)) OR
     push_bit 16 (ucast (bs ! 2)) OR push_bit 24 (ucast (bs ! 3))"

definition store32 :: "u32 \<Rightarrow> bytes" where
  "store32 w = [ucast w, ucast (drop_bit 8 w), ucast (drop_bit 16 w), ucast (drop_bit 24 w)]"

text \<open>\<^verbatim>\<open>htonl\<close> and \<^verbatim>\<open>ntohl\<close> reverse the bytes of the integer on a little-endian host.\<close>

definition htonl :: "u32 \<Rightarrow> u32" where
  "htonl w = load32 (rev (store32 w))"

definition ntohl :: "u32 \<Rightarrow> u32" where
  "ntohl w = load32 (rev (store32 w))"

definition parse_uint32_from_buf :: "bytes \<Rightarrow> nat \<Rightarrow> u32 res" where
  "parse_uint32_from_buf buf off = bindE (mem_read buf off 4) (\<lambda>bs. Inr (ntohl (load32 bs)))"

definition uint32_wire :: "u32 \<Rightarrow> bytes" where
  "uint32_wire num = store32 (htonl num)"

definition write_uint32_to_buf :: "bytes \<Rightarrow> nat \<Rightarrow> u32 \<Rightarrow> bytes res" where
  "write_uint32_to_buf buf off num = mem_write buf off (uint32_wire num)"

lemma length_store32 [simp]: "length (store32 w) = 4"
  by (simp add: store32_def)

lemma load32_store32 [simp]: "load32 (store32 w) = w"
proof (rule bit_word_eqI)
  fix n assume n: "n < LENGTH(32)"
  consider "n < 8" | "8 \<le> n" "n < 16" | "16 \<le> n" "n < 24" | "24 \<le> n" by linarith
  then show "bit (load32 (store32 w)) n = bit w n"
    using n by cases (auto simp: load32_def store32_def bit_simps)
qed

lemma store32_load32: "length bs = 4 \<Longrightarrow> store32 (load32 bs) = bs"
  by (auto simp: numeral_eq_Suc length_Suc_conv)
    (auto simp: store32_def load32_def bit_simps intro!: bit_word_eqI)

lemma ntohl_htonl [simp]: "ntohl (htonl w) = w"
  by (simp add: ntohl_def htonl_def store32_load32)

lemma length_uint32_wire [simp]: "length (uint32_wire w) = 4"
  by (simp add: uint32_wire_def)

lemma uint32_wire_big_endian:
  "uint32_wire w = [ucast (drop_bit 24 w), ucast (drop_bit 16 w), ucast (drop_bit 8 w), ucast w]"
proof -
  have "uint32_wire w = rev (store32 w)"
    by (simp add: uint32_wire_def htonl_def store32_load32)
  then show ?thesis by (simp add: store32_def)
qed

lemma ntohl_load32_wire [simp]: "ntohl (load32 (uint32_wire w)) = w"
  by (simp add: uint32_wire_def)

lemma parse_uint32_at [mem_simps]:
  "off + 4 \<le> length buf \<Longrightarrow> take 4 (drop off buf) = uint32_wire w \<Longrightarrow>
   parse_uint32_from_buf buf off = Inr w"
  by (simp add: parse_uint32_from_buf_def mem_simps)

lemma parse_uint32_ok [mem_simps]:
  "off + 4 \<le> length buf \<Longrightarrow>
   parse_uint32_from_buf buf off = Inr (ntohl (load32 (take 4 (drop off buf))))"
  by (simp add: parse_uint32_from_buf_def mem_simps)

lemma uint32_wire_zero [simp]: "uint32_wire 0 = [0, 0, 0, 0]"
  by (simp add: uint32_wire_big_endian)

lemma ntohl_load32_zeros: "ntohl (load32 [0, 0, 0, 0]) = 0"
  using ntohl_load32_wire [of 0] by simp

lemma uint32_wire_inject [simp]: "uint32_wire v = uint32_wire w \<longleftrightarrow> v = w"
  by (metis ntohl_load32_wire)

section \<open>Reads behind a prefix\<close>

lemma mem_read_shift:
  "mem_read (p @ a) (length p + off) n = mem_read a off n"
  by (simp add: mem_read_def)

lemma parse_uint32_shift:
  "parse_uint32_from_buf (p @ a) (length p + off) = parse_uint32_from_buf a off"
  by (simp add: parse_uint32_from_buf_def mem_read_shift)

lemma cstrn_shift: "cstrn (p @ a) (length p + off) n = cstrn a off n"
  by (simp add: cstrn_def)

lemmas read_shifts = mem_read_shift parse_uint32_shift cstrn_shift

lemmas read_shifts_0 = read_shifts [where off = 0, simplified]

lemma mem_write_at: "n = length x \<Longrightarrow> mem_write (x @ y # z) n [w] = Inr (x @ w # z)"
  by (simp add: mem_write_def)

lemma mem_read_front: "n = length x \<Longrightarrow> mem_read (x @ rest) 0 n = Inr x"
  by (simp add: mem_read_def)

lemma cstrn_front: "is_cstr s \<Longrightarrow> n = length s \<Longrightarrow> cstrn (s @ rest) 0 n = Inr s"
  using cstrn_exact [of s "[]" rest] by simp

lemma parse_uint32_second [mem_simps]:
  "parse_uint32_from_buf (uint32_wire v @ uint32_wire w @ a) 4 = Inr w"
  by (simp add: parse_uint32_from_buf_def mem_read_def)

lemma parse_uint32_third [mem_simps]:
  "parse_uint32_from_buf (uint32_wire u @ uint32_wire v @ uint32_wire w @ a) 8 = Inr w"
  by (simp add: parse_uint32_from_buf_def mem_read_def)

lemma parse_uint32_front [mem_simps]: "parse_uint32_from_buf (uint32_wire w @ a) 0 = Inr w"
  by (simp add: parse_uint32_from_buf_def mem_read_def)

section \<open>Writes relative to a pointer into the array\<close>

definition writes_at :: "nat \<Rightarrow> (nat \<times> bytes) list \<Rightarrow> bytes \<Rightarrow> bytes res" where
  "writes_at base ws a = writes (map (\<lambda>(off, xs). (base + off, xs)) ws) a"

lemma writes_at_append:
  assumes "length p = base"
  shows "writes_at base ws (p @ a) = bindE (writes ws a) (\<lambda>b. Inr (p @ b))"
proof (induction ws a rule: writes.induct)
  case (1 a)
  then show ?case by (simp add: writes_at_def)
next
  case (2 off xs ws a)
  then show ?case
    by (simp add: writes_at_def mem_write_append [of p, unfolded assms] bindE_assoc
        cong: bindE_cong)
qed

lemma writes_at_length: "writes_at base ws a = Inr b \<Longrightarrow> length b = length a"
  by (simp add: writes_at_def writes_length)

text \<open>Clearing an array and then filling it from the front.\<close>

lemma writes_clear [mem_simps]:
  "length a = n \<Longrightarrow> writes ((0, zeros n) # ws) a = writes ws (zeros n)"
  by (simp add: mem_write_def)

fun layout :: "nat \<Rightarrow> bytes list \<Rightarrow> (nat \<times> bytes) list" where
  "layout off [] = []"
| "layout off (xs # xss) = (off, xs) # layout (off + length xs) xss"

lemma writes_layout:
  "length (concat xss) \<le> m \<Longrightarrow> writes (layout (length p) xss) (p @ zeros m) =
     Inr (p @ concat xss @ zeros (m - length (concat xss)))"
proof (induction xss arbitrary: p m)
  case Nil
  then show ?case by simp
next
  case (Cons xs xss)
  have "mem_write (p @ zeros m) (length p) xs = Inr ((p @ xs) @ zeros (m - length xs))"
    using Cons.prems by (simp add: mem_write_def)
  with Cons.IH [of "m - length xs" "p @ xs"] Cons.prems show ?case
    by (simp add: add.commute)
qed

lemma writes_layout_0:
  "length (concat xss) \<le> m \<Longrightarrow>
   writes (layout 0 xss) (zeros m) = Inr (concat xss @ zeros (m - length (concat xss)))"
  using writes_layout [of xss m "[]"] by simp

section \<open>Splitting a string at the delimiter\<close>

text \<open>
  The loop of \<^verbatim>\<open>field_tokenizer\<close>, on the array \<open>a\<close> with the field starting at \<open>old\<close>. The
  copy in \<^verbatim>\<open>request.c\<close> gives up after \<open>lim\<close> characters, the one in \<^verbatim>\<open>response.c\<close> does
  not. The result is the array, in which a delimiter that was found has become a zero, and
  the place behind the delimiter; without a delimiter the caller's \<^verbatim>\<open>rest\<close> pointer stays as it
  was.
\<close>

function scan_field :: "nat option \<Rightarrow> bytes \<Rightarrow> nat \<Rightarrow> nat \<Rightarrow> (bytes \<times> nat option) res" where
  "scan_field lim a old i =
     (if length a \<le> i then Inl Out_Of_Bounds
      else if a ! i = 0 \<or> (case lim of None \<Rightarrow> False | Some n \<Rightarrow> n < i - old) then Inr (a, None)
      else if a ! i = BODY_DELIMITER then Inr (a[i := 0], Some (i + 1))
      else scan_field lim a old (i + 1))"
  by pat_completeness auto
termination
  by (relation "measure (\<lambda>(lim, a, old, i). length a - i)") auto

declare scan_field.simps [simp del]

text \<open>A field that does not contain the delimiter, a zero or more characters than the limit.\<close>

definition is_field :: "nat option \<Rightarrow> bytes \<Rightarrow> bool" where
  "is_field lim f \<longleftrightarrow> is_cstr f \<and> BODY_DELIMITER \<notin> set f \<and>
     (case lim of None \<Rightarrow> True | Some n \<Rightarrow> length f \<le> n)"

lemma BODY_DELIMITER_nonzero [simp]: "BODY_DELIMITER \<noteq> 0" "0 \<noteq> BODY_DELIMITER"
  by (simp_all add: BODY_DELIMITER_def)

lemma scan_field_skip:
  assumes "is_cstr f" "BODY_DELIMITER \<notin> set f" "q \<noteq> []"
    and "\<And>n. lim = Some n \<Longrightarrow> length p + length f \<le> old + n + 1"
  shows "scan_field lim (p @ f @ q) old (length p) =
    scan_field lim (p @ f @ q) old (length p + length f)"
  using assms
proof (induction f arbitrary: p)
  case Nil
  then show ?case by simp
next
  case (Cons x f)
  have ne: "x \<noteq> 0" "x \<noteq> BODY_DELIMITER" and nth: "(p @ (x # f) @ q) ! length p = x"
    using Cons.prems by (auto simp: is_cstr_def)
  have lim: "\<not> n < length p - old" if "lim = Some n" for n
    using Cons.prems(4) [OF that] by simp
  have "scan_field lim (p @ (x # f) @ q) old (length p) =
      scan_field lim ((p @ [x]) @ f @ q) old (length (p @ [x]))"
    using ne nth lim by (subst scan_field.simps) (auto split: option.splits)
  also have "\<dots> = scan_field lim ((p @ [x]) @ f @ q) old (length (p @ [x]) + length f)"
    using Cons.prems by (intro Cons.IH) (auto simp: is_cstr_def)
  finally show ?case by simp
qed

lemma scan_field_found:
  assumes "is_field lim f"
  shows "scan_field lim (p @ f @ BODY_DELIMITER # q) (length p) (length p) =
    Inr (p @ f @ 0 # q, Some (length p + length f + 1))"
proof -
  have f: "is_cstr f" "BODY_DELIMITER \<notin> set f" "\<And>n. lim = Some n \<Longrightarrow> length f \<le> n"
    using assms by (auto simp: is_field_def split: option.splits)
  have "scan_field lim (p @ f @ BODY_DELIMITER # q) (length p) (length p) =
      scan_field lim (p @ f @ BODY_DELIMITER # q) (length p) (length p + length f)"
    using f by (intro scan_field_skip) fastforce+
  also have "\<dots> = Inr ((p @ f @ BODY_DELIMITER # q)[length p + length f := 0],
      Some (length p + length f + 1))"
    using f(3) by (subst scan_field.simps) (auto simp: nth_append split: option.splits)
  also have "(p @ f @ BODY_DELIMITER # q)[length p + length f := 0] = p @ f @ 0 # q"
    by (simp add: list_update_append)
  finally show ?thesis .
qed

lemma scan_field_last:
  assumes "is_field lim f"
  shows "scan_field lim (p @ f @ 0 # q) (length p) (length p) = Inr (p @ f @ 0 # q, None)"
proof -
  have f: "is_cstr f" "BODY_DELIMITER \<notin> set f" "\<And>n. lim = Some n \<Longrightarrow> length f \<le> n"
    using assms by (auto simp: is_field_def split: option.splits)
  have "scan_field lim (p @ f @ 0 # q) (length p) (length p) =
      scan_field lim (p @ f @ 0 # q) (length p) (length p + length f)"
    using f by (intro scan_field_skip) fastforce+
  also have "\<dots> = Inr (p @ f @ 0 # q, None)"
    by (subst scan_field.simps) (simp add: nth_append)
  finally show ?thesis .
qed

text \<open>
  On any array that ends in a zero the loop stays inside the array: it returns, the array
  keeps its length and its last zero, and the place it returns is inside the array.
\<close>

lemma scan_field_safe:
  assumes "a \<noteq> []" "last a = 0" "i < length a"
  shows "\<exists>a' r. scan_field lim a old i = Inr (a', r) \<and> length a' = length a \<and> last a' = 0 \<and>
    (\<forall>j. r = Some j \<longrightarrow> i < j \<and> j < length a)"
  using assms
proof (induction lim a old i rule: scan_field.induct)
  case (1 lim a old i)
  have ends: "a ! i \<noteq> 0 \<Longrightarrow> i + 1 < length a"
  proof (rule ccontr)
    assume "a ! i \<noteq> 0" and "\<not> i + 1 < length a"
    with "1.prems" have "i = length a - 1" by linarith
    with "1.prems" \<open>a ! i \<noteq> 0\<close> show False by (simp add: last_conv_nth)
  qed
  show ?case
  proof (cases "a ! i = 0 \<or> (case lim of None \<Rightarrow> False | Some n \<Rightarrow> n < i - old)")
    case True
    with "1.prems" show ?thesis by (simp add: scan_field.simps [of lim a old i])
  next
    case no: False
    show ?thesis
    proof (cases "a ! i = BODY_DELIMITER")
      case True
      with ends have "i + 1 < length a" by simp
      then have "last (a[i := 0]) = 0"
        using "1.prems" by (simp add: last_list_update)
      with True no "1.prems" \<open>i + 1 < length a\<close> show ?thesis
        by (simp add: scan_field.simps [of lim a old i])
    next
      case False
      have step: "scan_field lim a old i = scan_field lim a old (i + 1)"
        using no False "1.prems" by (simp add: scan_field.simps [of lim a old i])
      have "i + 1 < length a" using ends no by simp
      with 1 no False have "\<exists>a' r. scan_field lim a old (i + 1) = Inr (a', r) \<and>
          length a' = length a \<and> last a' = 0 \<and> (\<forall>j. r = Some j \<longrightarrow> i + 1 < j \<and> j < length a)"
        by simp
      then show ?thesis unfolding step by fastforce
    qed
  qed
qed

section \<open>Properties\<close>

text \<open>
  A 32-bit integer written with \<^verbatim>\<open>write_uint32_to_buf\<close> stands in the buffer as four bytes,
  most significant first, \<^verbatim>\<open>parse_uint32_from_buf\<close> at the same place gives it back, and every
  other byte of the buffer is as before.
\<close>

theorem uint32_roundtrip:
  assumes "off + 4 \<le> length buf"
  shows "\<exists>b. write_uint32_to_buf buf off num = Inr b \<and> parse_uint32_from_buf b off = Inr num \<and>
    take 4 (drop off b) =
      [ucast (drop_bit 24 num), ucast (drop_bit 16 num), ucast (drop_bit 8 num), ucast num] \<and>
    take off b = take off buf \<and> drop (off + 4) b = drop (off + 4) buf"
  using assms
  by (simp add: write_uint32_to_buf_def mem_write_def parse_uint32_from_buf_def mem_read_def
      flip: uint32_wire_big_endian)

theorem uint32_roundtrip_witness:
  "\<exists>b. write_uint32_to_buf [9, 9, 9, 9, 9, 9] 1 0x01020304 = Inr b \<and>
    parse_uint32_from_buf b 1 = Inr 0x01020304 \<and> take 4 (drop 1 b) = [1, 2, 3, 4] \<and>
    take 1 b = [9] \<and> drop 5 b = [9]"
proof -
  have wire: "[1, 258, 66051, 16909060] = ([1, 2, 3, 4] :: bytes)" by simp
  show ?thesis
    using uint32_roundtrip [of 1 "[9, 9, 9, 9, 9, 9]" "0x01020304"] by (simp add: wire)
qed

end
