(* ===== verification/Codec.thy ===== *)
theory Codec
  imports Bytes
begin

text \<open>
  What the two ends of a connection rely on: a message can be written into a buffer of the
  size of the wire format, and reading the buffer gives the message back, whatever the
  buffer held before and whatever lies behind it in memory. The requests and the responses
  each give one such format (theories \<open>Request\<close> and \<open>Response\<close>), and so does the record of \<open>Type_Mapping\<close>.
\<close>

locale codec =
  fixes enc :: "'m \<Rightarrow> bytes \<Rightarrow> bytes res"
    and dec :: "bytes \<Rightarrow> 'p res"
    and wf :: "'m \<Rightarrow> bool"
    and view :: "'m \<Rightarrow> 'p"
    and sz :: nat
  assumes enc_total: "wf m \<Longrightarrow> length buf = sz \<Longrightarrow> \<exists>b. enc m buf = Inr b \<and> length b = sz"
    and dec_enc: "wf m \<Longrightarrow> length buf = sz \<Longrightarrow> enc m buf = Inr b \<Longrightarrow> dec (b @ tail) = Inr (view m)"
begin

text \<open>A message that was written can be read, and never as another message.\<close>

lemma roundtrip:
  assumes "wf m" and "length buf = sz"
  shows "\<exists>b. enc m buf = Inr b \<and> length b = sz \<and> dec (b @ tail) = Inr (view m)"
  using enc_total [OF assms] dec_enc [OF assms] by blast

lemma unambiguous:
  assumes "wf m" "wf m'" "length buf = sz" "length buf' = sz"
    and "enc m buf = Inr b" "enc m' buf' = Inr b'" "b @ tail = b' @ tail'"
  shows "view m = view m'"
  using dec_enc [OF assms(1,3,5), of tail] dec_enc [OF assms(2,4,6), of tail'] assms(7)
  by simp

text \<open>What the buffer held before the message was written does not matter.\<close>

lemma stale_irrelevant:
  assumes "wf m" "length buf = sz" "length buf' = sz"
  shows "bindE (enc m buf) (\<lambda>b. dec (b @ tail)) = bindE (enc m buf') (\<lambda>b. dec (b @ tail'))"
  using roundtrip [OF assms(1,2), of tail] roundtrip [OF assms(1,3), of tail'] by auto

end

end
