(* ===== verification/Request.thy ===== *)
theory Request
  imports Codec
begin

text \<open>
  \<^verbatim>\<open>server/inc/request.h\<close> and \<^verbatim>\<open>server/src/request.c\<close>: the request messages, how the client
  library writes them into a buffer and how the server parses them. A pointer to a string
  is the string it points to, or \<open>None\<close> for \<^verbatim>\<open>NULL\<close>; a request that is not understood
  (\<^verbatim>\<open>NULL\<close> from \<^verbatim>\<open>request_parse\<close>) is \<open>Inr None\<close>. Offsets and lengths are read from the
  message without checks, as in the code, and leaving the buffer is the fault
  \<open>Out_Of_Bounds\<close>.
\<close>

section \<open>Data\<close>

definition REQUEST_LEN :: nat where
  "REQUEST_LEN = BUFSIZ"

definition REQUEST_HEADER_LEN :: nat where
  "REQUEST_HEADER_LEN = 64"

definition REQUEST_BODY_LEN :: nat where
  "REQUEST_BODY_LEN = REQUEST_LEN - REQUEST_HEADER_LEN"

definition EMPTY_TOKEN :: bytes where
  "EMPTY_TOKEN = replicate 16 6"

record request_header =
  rq_group :: byte
  rq_action :: byte
  rq_content_type :: byte
  rq_content_len :: u32
  rq_body_len :: u32
  rq_token :: bytes
  rq_user_id :: u32
  rq_limit :: i32
  rq_offset :: i32

record request_auth =
  ra_uname :: "bytes option"
  ra_password :: "bytes option"
  ra_phone :: "bytes option"
  ra_email :: "bytes option"

record request_user =
  ru_user_id :: u32
  ru_uname :: "bytes option"

record request_conv =
  rc_conv_id :: u32
  rc_user_id :: u32
  rc_gname :: "bytes option"

record request_chat =
  rh_chat_id :: u32
  rh_user_id2 :: u32

record request_msg =
  rm_conv_id :: u32
  rm_chat_id :: u32
  rm_msg_id :: u32
  rm_reply_id :: u32
  rm_msg_content :: "bytes option"

text \<open>The union \<^verbatim>\<open>request_body\<close>, with the member that the group selects.\<close>

datatype request_body =
    R_auth request_auth
  | R_user request_user
  | R_conv request_conv
  | R_chat request_chat
  | R_msg request_msg

record request =
  rq_header :: request_header
  rq_body :: request_body

section \<open>Parsing\<close>

definition field_tokenizer :: "bytes \<Rightarrow> nat \<Rightarrow> (bytes \<times> nat) res" where
  "field_tokenizer a rest =
     bindE (scan_field (Some REQUEST_BODY_LEN) a rest rest)
       (\<lambda>(a', r). Inr (a', case r of None \<Rightarrow> rest | Some rest' \<Rightarrow> rest'))"

text \<open>
  The parsers of the body get the header, the whole buffer and the place of the body in it.
\<close>

definition request_parse_auth :: "request_header \<Rightarrow> bytes \<Rightarrow> nat \<Rightarrow> request_body option res" where
  "request_parse_auth header buf off =
     bindE (mem_read buf off (unat (rq_body_len header))) (\<lambda>copy.
     bindE (Inr (copy @ [0])) (\<lambda>body0.
     bindE (field_tokenizer body0 0) (\<lambda>(body1, rest1).
     bindE (field_tokenizer body1 rest1) (\<lambda>(body2, rest2).
     bindE (cstr body2 0) (\<lambda>uname.
     bindE (cstr body2 rest1) (\<lambda>password.
       if rq_action header = 0 then
         bindE (field_tokenizer body2 rest2) (\<lambda>(body3, rest3).
         bindE (field_tokenizer body3 rest3) (\<lambda>(body4, rest4).
         bindE (cstr body4 0) (\<lambda>u.
         bindE (cstr body4 rest1) (\<lambda>p.
         bindE (cstr body4 rest2) (\<lambda>phone.
         let email_len = of_nat (unat (rq_body_len header)) - of_nat (length u)
               - of_nat (length p) - of_nat (length phone) - (3 :: i32)
         in if sint email_len < 0 then Inr None
            else
              bindE (mem_write body4 (rest3 + unat email_len) [0]) (\<lambda>body5.
              bindE (cstr body5 rest2) (\<lambda>phone'.
              bindE (cstr body5 rest3) (\<lambda>email.
                Inr (Some (R_auth \<lparr>ra_uname = Some uname, ra_password = Some password,
                  ra_phone = Some phone', ra_email = Some email\<rparr>)))))))))) 
       else if rq_action header \<noteq> 1 then Inr None
       else Inr (Some (R_auth \<lparr>ra_uname = Some uname, ra_password = Some password,
              ra_phone = None, ra_email = None\<rparr>))))))))"

definition request_parse_user :: "request_header \<Rightarrow> bytes \<Rightarrow> nat \<Rightarrow> request_body option res" where
  "request_parse_user header buf off =
     (let rb = \<lparr>ru_user_id = 0, ru_uname = None\<rparr>
      in if rq_action header = 0 then Inr (Some (R_user rb))
         else if rq_action header = 1 then
           bindE (parse_uint32_from_buf buf off) (\<lambda>i. Inr (Some (R_user (rb\<lparr>ru_user_id := i\<rparr>))))
         else if rq_action header = 2 then
           bindE (cstrn buf off (unat (rq_body_len header))) (\<lambda>s.
             Inr (Some (R_user (rb\<lparr>ru_uname := Some s\<rparr>))))
         else Inr None)"

definition request_parse_conv :: "request_header \<Rightarrow> bytes \<Rightarrow> nat \<Rightarrow> request_body option res" where
  "request_parse_conv header buf off =
     (let rb = \<lparr>rc_conv_id = 0, rc_user_id = 0, rc_gname = None\<rparr>
      in if rq_action header = 0 then
           bindE (cstrn buf off (unat (rq_body_len header))) (\<lambda>s.
             Inr (Some (R_conv (rb\<lparr>rc_gname := Some s\<rparr>))))
         else if rq_action header \<in> {1, 4, 5} then
           bindE (parse_uint32_from_buf buf off) (\<lambda>c. Inr (Some (R_conv (rb\<lparr>rc_conv_id := c\<rparr>))))
         else if rq_action header \<in> {2, 3} then
           bindE (parse_uint32_from_buf buf off) (\<lambda>c.
           bindE (parse_uint32_from_buf buf (off + 4)) (\<lambda>u.
             Inr (Some (R_conv (rb\<lparr>rc_conv_id := c, rc_user_id := u\<rparr>)))))
         else if rq_action header = 6 then Inr (Some (R_conv rb))
         else Inr None)"

definition request_parse_chat :: "request_header \<Rightarrow> bytes \<Rightarrow> nat \<Rightarrow> request_body option res" where
  "request_parse_chat header buf off =
     (let rb = \<lparr>rh_chat_id = 0, rh_user_id2 = 0\<rparr>
      in if rq_action header = 0 then
           bindE (parse_uint32_from_buf buf off) (\<lambda>u. Inr (Some (R_chat (rb\<lparr>rh_user_id2 := u\<rparr>))))
         else if rq_action header \<in> {1, 3} then
           bindE (parse_uint32_from_buf buf off) (\<lambda>c. Inr (Some (R_chat (rb\<lparr>rh_chat_id := c\<rparr>))))
         else if rq_action header = 2 then Inr (Some (R_chat rb))
         else Inr None)"

definition request_parse_msg :: "request_header \<Rightarrow> bytes \<Rightarrow> nat \<Rightarrow> request_body option res" where
  "request_parse_msg header buf off =
     (let rb = \<lparr>rm_conv_id = 0, rm_chat_id = 0, rm_msg_id = 0, rm_reply_id = 0,
                rm_msg_content = None\<rparr>
      in if rq_action header \<in> {0, 5} then
           bindE (parse_uint32_from_buf buf off) (\<lambda>c.
           bindE (parse_uint32_from_buf buf (off + 4)) (\<lambda>h.
             Inr (Some (R_msg (rb\<lparr>rm_conv_id := c, rm_chat_id := h\<rparr>)))))
         else if rq_action header \<in> {1, 3} then
           bindE (parse_uint32_from_buf buf off) (\<lambda>m. Inr (Some (R_msg (rb\<lparr>rm_msg_id := m\<rparr>))))
         else if rq_action header = 2 then
           bindE (parse_uint32_from_buf buf off) (\<lambda>c.
           bindE (parse_uint32_from_buf buf (off + 4)) (\<lambda>h.
           bindE (parse_uint32_from_buf buf (off + 8)) (\<lambda>r.
           bindE (cstrn buf (off + 12) (unat (rq_body_len header - 12))) (\<lambda>s.
             Inr (Some (R_msg (rb\<lparr>rm_conv_id := c, rm_chat_id := h, rm_reply_id := r,
               rm_msg_content := Some s\<rparr>)))))))
         else if rq_action header = 4 then Inr (Some (R_msg rb))
         else if rq_action header = 6 then
           bindE (parse_uint32_from_buf buf off) (\<lambda>m. Inr (Some (R_msg (rb\<lparr>rm_msg_id := m\<rparr>))))
         else Inr None)"

definition request_parse_header :: "bytes \<Rightarrow> request_header res" where
  "request_parse_header buf =
     bindE (mem_read buf 0 3) (\<lambda>b.
     bindE (parse_uint32_from_buf buf 4) (\<lambda>content_len.
     bindE (parse_uint32_from_buf buf 8) (\<lambda>body_len.
     bindE (mem_read buf 16 TOKEN_LEN) (\<lambda>token.
     bindE (parse_uint32_from_buf buf 32) (\<lambda>user_id.
     bindE (parse_uint32_from_buf buf 36) (\<lambda>limit.
     bindE (parse_uint32_from_buf buf 40) (\<lambda>offset.
       Inr \<lparr>rq_group = b ! 0, rq_action = b ! 1, rq_content_type = b ! 2,
            rq_content_len = content_len, rq_body_len = body_len, rq_token = token,
            rq_user_id = user_id, rq_limit = limit, rq_offset = offset\<rparr>)))))))"

definition request_parse_body :: "request_header \<Rightarrow> bytes \<Rightarrow> request_body option res" where
  "request_parse_body header buf =
     (if rq_group header = 0 then request_parse_auth header buf REQUEST_HEADER_LEN
      else if rq_group header = 1 then request_parse_user header buf REQUEST_HEADER_LEN
      else if rq_group header = 2 then request_parse_conv header buf REQUEST_HEADER_LEN
      else if rq_group header = 3 then request_parse_chat header buf REQUEST_HEADER_LEN
      else if rq_group header = 4 then request_parse_msg header buf REQUEST_HEADER_LEN
      else Inr None)"

definition request_parse :: "bytes \<Rightarrow> request option res" where
  "request_parse buf =
     bindE (request_parse_header buf) (\<lambda>header.
     bindE (request_parse_body header buf) (\<lambda>rb.
       Inr (map_option (\<lambda>b. \<lparr>rq_header = header, rq_body = b\<rparr>) rb)))"

section \<open>Building\<close>

definition make_request_header :: "request_header \<Rightarrow> bytes \<Rightarrow> bytes res" where
  "make_request_header header res =
     bindE (mem_read (rq_token header) 0 TOKEN_LEN) (\<lambda>token.
       writes [(0, zeros REQUEST_HEADER_LEN),
         (0, [rq_group header]), (1, [rq_action header]), (2, [rq_content_type header]),
         (4, uint32_wire (rq_content_len header)), (8, uint32_wire (rq_body_len header)),
         (16, token),
         (32, uint32_wire (rq_user_id header)), (36, uint32_wire (rq_limit header)),
         (40, uint32_wire (rq_offset header))] res)"

text \<open>
  The initialiser of a header, in the order of the fields of the struct. \<open>-1\<close> is the limit
  and the offset of a request that is not a page of a list.
\<close>

definition mk_header :: "byte \<Rightarrow> byte \<Rightarrow> byte \<Rightarrow> u32 \<Rightarrow> u32 \<Rightarrow> bytes \<Rightarrow> u32 \<Rightarrow> i32 \<Rightarrow> i32
    \<Rightarrow> request_header" where
  "mk_header grp action content_type content_len body_len token user_id limit offset =
     \<lparr>rq_group = grp, rq_action = action, rq_content_type = content_type,
      rq_content_len = content_len, rq_body_len = body_len, rq_token = token,
      rq_user_id = user_id, rq_limit = limit, rq_offset = offset\<rparr>"

definition make_request_string :: "bytes \<Rightarrow> byte \<Rightarrow> byte \<Rightarrow> u32 \<Rightarrow> bytes \<Rightarrow> bytes \<Rightarrow> bytes res" where
  "make_request_string token grp action user_id str res =
     (let len = of_nat (length str)
      in bindE (make_request_header (mk_header grp action 0 len len token user_id (-1) (-1)) res)
           (writes_at REQUEST_HEADER_LEN [(0, zeros REQUEST_BODY_LEN), (0, str)]))"

definition make_request_uint32 :: "bytes \<Rightarrow> byte \<Rightarrow> byte \<Rightarrow> u32 \<Rightarrow> u32 \<Rightarrow> bytes \<Rightarrow> bytes res" where
  "make_request_uint32 token grp action user_id num res =
     bindE (make_request_header (mk_header grp action 0 4 4 token user_id (-1) (-1)) res)
       (writes_at REQUEST_HEADER_LEN [(0, zeros REQUEST_BODY_LEN), (0, uint32_wire num)])"

definition make_request_page ::
    "bytes \<Rightarrow> byte \<Rightarrow> byte \<Rightarrow> u32 \<Rightarrow> i32 \<Rightarrow> i32 \<Rightarrow> bytes \<Rightarrow> bytes res" where
  "make_request_page token grp action user_id limit offset res =
     make_request_header (mk_header grp action 0 0 0 token user_id limit offset) res"

definition make_request_auth_register ::
    "bytes \<Rightarrow> bytes \<Rightarrow> bytes \<Rightarrow> bytes \<Rightarrow> bytes \<Rightarrow> bytes res" where
  "make_request_auth_register uname password phone email res =
     (let sum_len = length uname + length password + length phone + length email;
          b1 = length uname + 1; b2 = b1 + (length password + 1); b3 = b2 + (length phone + 1)
      in bindE (make_request_header (mk_header 0 0 0 (of_nat (sum_len + 3)) (of_nat (sum_len + 3))
             EMPTY_TOKEN 0 (-1) (-1)) res)
           (writes_at REQUEST_HEADER_LEN
              [(0, zeros REQUEST_BODY_LEN),
               (0, uname), (length uname, [BODY_DELIMITER]),
               (b1, password), (b1 + length password, [BODY_DELIMITER]),
               (b2, phone), (b2 + length phone, [BODY_DELIMITER]),
               (b3, email)]))"

definition make_request_auth_login :: "bytes \<Rightarrow> bytes \<Rightarrow> bytes \<Rightarrow> bytes res" where
  "make_request_auth_login uname password res =
     (let sum_len = length uname + length password; b1 = length uname + 1
      in bindE (make_request_header (mk_header 0 1 0 (of_nat (sum_len + 1)) (of_nat (sum_len + 1))
             EMPTY_TOKEN 0 (-1) (-1)) res)
           (writes_at REQUEST_HEADER_LEN
              [(0, zeros REQUEST_BODY_LEN),
               (0, uname), (length uname, [BODY_DELIMITER]),
               (b1, password), (b1 + length password, [BODY_DELIMITER])]))"

definition make_request_user_logout :: "bytes \<Rightarrow> u32 \<Rightarrow> bytes \<Rightarrow> bytes res" where
  "make_request_user_logout token user_id res =
     make_request_header (mk_header 1 0 0 0 0 token user_id (-1) (-1)) res"

definition make_request_user_get_info :: "bytes \<Rightarrow> u32 \<Rightarrow> u32 \<Rightarrow> bytes \<Rightarrow> bytes res" where
  "make_request_user_get_info token user_id user_id2 res =
     make_request_uint32 token 1 1 user_id user_id2 res"

definition make_request_user_search ::
    "bytes \<Rightarrow> u32 \<Rightarrow> bytes \<Rightarrow> i32 \<Rightarrow> i32 \<Rightarrow> bytes \<Rightarrow> bytes res" where
  "make_request_user_search token user_id uname limit offset res =
     (let len = of_nat (length uname)
      in bindE (make_request_header (mk_header 1 2 0 len len token user_id limit offset) res)
           (writes_at REQUEST_HEADER_LEN [(0, zeros REQUEST_BODY_LEN), (0, uname)]))"

definition make_request_conv_create :: "bytes \<Rightarrow> u32 \<Rightarrow> bytes \<Rightarrow> bytes \<Rightarrow> bytes res" where
  "make_request_conv_create token user_id gname res =
     make_request_string token 2 0 user_id gname res"

definition make_request_conv_drop :: "bytes \<Rightarrow> u32 \<Rightarrow> u32 \<Rightarrow> bytes \<Rightarrow> bytes res" where
  "make_request_conv_drop token user_id conv_id res =
     make_request_uint32 token 2 1 user_id conv_id res"

definition make_request_conv_join :: "bytes \<Rightarrow> u32 \<Rightarrow> u32 \<Rightarrow> u32 \<Rightarrow> bytes \<Rightarrow> bytes res" where
  "make_request_conv_join token user_id conv_id user_id2 res =
     bindE (make_request_uint32 token 2 2 user_id conv_id res)
       (\<lambda>b. write_uint32_to_buf b (REQUEST_HEADER_LEN + 4) user_id2)"

definition make_request_conv_quit :: "bytes \<Rightarrow> u32 \<Rightarrow> u32 \<Rightarrow> u32 \<Rightarrow> bytes \<Rightarrow> bytes res" where
  "make_request_conv_quit token user_id conv_id user_id2 res =
     bindE (make_request_uint32 token 2 3 user_id conv_id res)
       (\<lambda>b. write_uint32_to_buf b (REQUEST_HEADER_LEN + 4) user_id2)"

definition make_request_conv_get_info :: "bytes \<Rightarrow> u32 \<Rightarrow> u32 \<Rightarrow> bytes \<Rightarrow> bytes res" where
  "make_request_conv_get_info token user_id conv_id res =
     make_request_uint32 token 2 4 user_id conv_id res"

definition make_request_conv_get_members :: "bytes \<Rightarrow> u32 \<Rightarrow> u32 \<Rightarrow> bytes \<Rightarrow> bytes res" where
  "make_request_conv_get_members token user_id conv_id res =
     make_request_uint32 token 2 5 user_id conv_id res"

definition make_request_conv_get_list :: "bytes \<Rightarrow> u32 \<Rightarrow> i32 \<Rightarrow> i32 \<Rightarrow> bytes \<Rightarrow> bytes res" where
  "make_request_conv_get_list token user_id limit offset res =
     make_request_page token 2 6 user_id limit offset res"

definition make_request_chat_create :: "bytes \<Rightarrow> u32 \<Rightarrow> u32 \<Rightarrow> bytes \<Rightarrow> bytes res" where
  "make_request_chat_create token user_id user_id2 res =
     make_request_uint32 token 3 0 user_id user_id2 res"

definition make_request_chat_delete :: "bytes \<Rightarrow> u32 \<Rightarrow> u32 \<Rightarrow> bytes \<Rightarrow> bytes res" where
  "make_request_chat_delete token user_id chat_id res =
     make_request_uint32 token 3 1 user_id chat_id res"

definition make_request_chat_get_list :: "bytes \<Rightarrow> u32 \<Rightarrow> i32 \<Rightarrow> i32 \<Rightarrow> bytes \<Rightarrow> bytes res" where
  "make_request_chat_get_list token user_id limit offset res =
     make_request_page token 3 2 user_id limit offset res"

definition make_request_chat_get_info :: "bytes \<Rightarrow> u32 \<Rightarrow> u32 \<Rightarrow> bytes \<Rightarrow> bytes res" where
  "make_request_chat_get_info token user_id chat_id res =
     make_request_uint32 token 3 3 user_id chat_id res"

definition make_request_msg_get_all ::
    "bytes \<Rightarrow> u32 \<Rightarrow> i32 \<Rightarrow> i32 \<Rightarrow> u32 \<Rightarrow> u32 \<Rightarrow> bytes \<Rightarrow> bytes res" where
  "make_request_msg_get_all token user_id limit offset conv_id chat_id res =
     bindE (make_request_header (mk_header 4 0 0 8 8 token user_id limit offset) res)
       (writes_at REQUEST_HEADER_LEN
          [(0, zeros REQUEST_BODY_LEN), (0, uint32_wire conv_id), (4, uint32_wire chat_id)])"

definition make_request_msg_get_detail :: "bytes \<Rightarrow> u32 \<Rightarrow> u32 \<Rightarrow> bytes \<Rightarrow> bytes res" where
  "make_request_msg_get_detail token user_id msg_id res =
     make_request_uint32 token 4 1 user_id msg_id res"

definition make_requests_msg_send_text ::
    "bytes \<Rightarrow> u32 \<Rightarrow> u32 \<Rightarrow> u32 \<Rightarrow> u32 \<Rightarrow> bytes \<Rightarrow> bytes \<Rightarrow> bytes res" where
  "make_requests_msg_send_text token user_id conv_id chat_id reply_to msg res =
     (let len = of_nat (12 + length msg)
      in bindE (make_request_header (mk_header 4 2 0 len len token user_id (-1) (-1)) res)
           (writes_at REQUEST_HEADER_LEN
              [(0, zeros REQUEST_BODY_LEN), (0, uint32_wire conv_id), (4, uint32_wire chat_id),
               (8, uint32_wire reply_to), (12, msg)]))"

definition make_requests_msg_send_file ::
    "bytes \<Rightarrow> u32 \<Rightarrow> u32 \<Rightarrow> u32 \<Rightarrow> u32 \<Rightarrow> u32 \<Rightarrow> bytes \<Rightarrow> bytes \<Rightarrow> bytes res" where
  "make_requests_msg_send_file token user_id conv_id chat_id reply_to fsize fname res =
     bindE (make_request_header (mk_header 4 2 1 fsize (of_nat (12 + length fname)) token user_id
         (-1) (-1)) res)
       (writes_at REQUEST_HEADER_LEN
          [(0, zeros REQUEST_BODY_LEN), (0, uint32_wire conv_id), (4, uint32_wire chat_id),
           (8, uint32_wire reply_to), (12, fname)])"

definition make_request_msg_delete :: "bytes \<Rightarrow> u32 \<Rightarrow> u32 \<Rightarrow> bytes \<Rightarrow> bytes res" where
  "make_request_msg_delete token user_id msg_id res =
     make_request_uint32 token 4 3 user_id msg_id res"

definition make_request_msg_notify_new :: "bytes \<Rightarrow> u32 \<Rightarrow> bytes \<Rightarrow> bytes res" where
  "make_request_msg_notify_new token user_id res =
     make_request_header (mk_header 4 4 0 0 0 token user_id (-1) (-1)) res"

definition make_request_msg_notify_del :: "bytes \<Rightarrow> u32 \<Rightarrow> u32 \<Rightarrow> u32 \<Rightarrow> bytes \<Rightarrow> bytes res" where
  "make_request_msg_notify_del token user_id conv_id chat_id res =
     bindE (make_request_header (mk_header 4 5 0 0 0 token user_id (-1) (-1)) res)
       (writes_at REQUEST_HEADER_LEN
          [(0, zeros REQUEST_BODY_LEN), (0, uint32_wire conv_id), (4, uint32_wire chat_id)])"

definition make_request_msg_file_download :: "bytes \<Rightarrow> u32 \<Rightarrow> u32 \<Rightarrow> bytes \<Rightarrow> bytes res" where
  "make_request_msg_file_download token user_id msg_id res =
     make_request_uint32 token 4 6 user_id msg_id res"

section \<open>The header on the wire\<close>

lemmas request_sizes = REQUEST_LEN_def REQUEST_HEADER_LEN_def REQUEST_BODY_LEN_def BUFSIZ_def
  TOKEN_LEN_def

definition request_header_wire :: "request_header \<Rightarrow> bytes" where
  "request_header_wire header =
     [rq_group header, rq_action header, rq_content_type header, 0]
     @ uint32_wire (rq_content_len header) @ uint32_wire (rq_body_len header) @ zeros 4
     @ rq_token header
     @ uint32_wire (rq_user_id header) @ uint32_wire (rq_limit header)
     @ uint32_wire (rq_offset header) @ zeros 20"

lemma length_request_header_wire:
  "length (rq_token header) = TOKEN_LEN \<Longrightarrow>
   length (request_header_wire header) = REQUEST_HEADER_LEN"
  by (simp add: request_header_wire_def request_sizes)

lemma make_request_header_eq:
  assumes "length (rq_token header) = TOKEN_LEN" and "length res = REQUEST_LEN"
  shows "make_request_header header res =
    Inr (request_header_wire header @ drop REQUEST_HEADER_LEN res)"
  using assms
  by (simp add: make_request_header_def request_header_wire_def request_sizes mem_read_def
      mem_write_def)

lemma request_parse_header_eq:
  assumes "length (rq_token header) = TOKEN_LEN"
  shows "request_parse_header (request_header_wire header @ rest) = Inr header"
  using assms
  by (simp add: request_parse_header_def request_header_wire_def request_sizes mem_read_def
      parse_uint32_from_buf_def)

section \<open>The body on the wire\<close>

text \<open>Behind a header the parsers of the body see the body only.\<close>

lemma request_parse_body_shift:
  assumes "length p = REQUEST_HEADER_LEN"
  shows "request_parse_auth header (p @ a) REQUEST_HEADER_LEN = request_parse_auth header a 0"
    and "request_parse_user header (p @ a) REQUEST_HEADER_LEN = request_parse_user header a 0"
    and "request_parse_conv header (p @ a) REQUEST_HEADER_LEN = request_parse_conv header a 0"
    and "request_parse_chat header (p @ a) REQUEST_HEADER_LEN = request_parse_chat header a 0"
    and "request_parse_msg header (p @ a) REQUEST_HEADER_LEN = request_parse_msg header a 0"
  unfolding request_parse_auth_def request_parse_user_def request_parse_conv_def
    request_parse_chat_def request_parse_msg_def assms [symmetric] read_shifts read_shifts_0 add_0
  by (rule refl)+

definition request_parse_at :: "request_header \<Rightarrow> bytes \<Rightarrow> request_body option res" where
  "request_parse_at header a =
     (if rq_group header = 0 then request_parse_auth header a 0
      else if rq_group header = 1 then request_parse_user header a 0
      else if rq_group header = 2 then request_parse_conv header a 0
      else if rq_group header = 3 then request_parse_chat header a 0
      else if rq_group header = 4 then request_parse_msg header a 0
      else Inr None)"

lemma request_parse_wire:
  assumes "length (rq_token header) = TOKEN_LEN" and "request_parse_at header a = Inr (Some b)"
  shows "request_parse (request_header_wire header @ a) =
    Inr (Some \<lparr>rq_header = header, rq_body = b\<rparr>)"
  using assms(2) request_parse_body_shift [OF length_request_header_wire [OF assms(1)]]
  by (simp add: request_parse_def request_parse_header_eq [OF assms(1)] request_parse_body_def
      request_parse_at_def cong: if_cong split del: if_split)

lemma make_request_with_body:
  assumes "length (rq_token header) = TOKEN_LEN" and "length res = REQUEST_LEN"
  shows "bindE (make_request_header header res)
      (writes_at REQUEST_HEADER_LEN ((0, zeros REQUEST_BODY_LEN) # ws)) =
    bindE (writes ws (zeros REQUEST_BODY_LEN)) (\<lambda>b. Inr (request_header_wire header @ b))"
  using assms
  by (simp add: make_request_header_eq writes_at_append length_request_header_wire writes_clear
      REQUEST_BODY_LEN_def del: writes.simps)

section \<open>The requests as an interface\<close>

text \<open>
  The requests a client can make, one constructor per function of the client's interface,
  the message each one is written to, and what the server should make of it.
\<close>

datatype call =
    Auth_register bytes bytes bytes bytes
  | Auth_login bytes bytes
  | User_logout
  | User_get_info u32
  | User_search bytes i32 i32
  | Conv_create bytes
  | Conv_drop u32
  | Conv_join u32 u32
  | Conv_quit u32 u32
  | Conv_get_info u32
  | Conv_get_members u32
  | Conv_get_list i32 i32
  | Chat_create u32
  | Chat_delete u32
  | Chat_get_list i32 i32
  | Chat_get_info u32
  | Msg_get_all i32 i32 u32 u32
  | Msg_get_detail u32
  | Msg_send_text u32 u32 u32 bytes
  | Msg_send_file u32 u32 u32 u32 bytes
  | Msg_delete u32
  | Msg_notify_new
  | Msg_notify_del u32 u32
  | Msg_file_download u32

fun encode_call :: "bytes \<times> u32 \<times> call \<Rightarrow> bytes \<Rightarrow> bytes res" where
  "encode_call (tok, uid, Auth_register u p ph e) = make_request_auth_register u p ph e"
| "encode_call (tok, uid, Auth_login u p) = make_request_auth_login u p"
| "encode_call (tok, uid, User_logout) = make_request_user_logout tok uid"
| "encode_call (tok, uid, User_get_info i) = make_request_user_get_info tok uid i"
| "encode_call (tok, uid, User_search s l f) = make_request_user_search tok uid s l f"
| "encode_call (tok, uid, Conv_create g) = make_request_conv_create tok uid g"
| "encode_call (tok, uid, Conv_drop c) = make_request_conv_drop tok uid c"
| "encode_call (tok, uid, Conv_join c u) = make_request_conv_join tok uid c u"
| "encode_call (tok, uid, Conv_quit c u) = make_request_conv_quit tok uid c u"
| "encode_call (tok, uid, Conv_get_info c) = make_request_conv_get_info tok uid c"
| "encode_call (tok, uid, Conv_get_members c) = make_request_conv_get_members tok uid c"
| "encode_call (tok, uid, Conv_get_list l f) = make_request_conv_get_list tok uid l f"
| "encode_call (tok, uid, Chat_create u) = make_request_chat_create tok uid u"
| "encode_call (tok, uid, Chat_delete h) = make_request_chat_delete tok uid h"
| "encode_call (tok, uid, Chat_get_list l f) = make_request_chat_get_list tok uid l f"
| "encode_call (tok, uid, Chat_get_info h) = make_request_chat_get_info tok uid h"
| "encode_call (tok, uid, Msg_get_all l f c h) = make_request_msg_get_all tok uid l f c h"
| "encode_call (tok, uid, Msg_get_detail m) = make_request_msg_get_detail tok uid m"
| "encode_call (tok, uid, Msg_send_text c h r s) = make_requests_msg_send_text tok uid c h r s"
| "encode_call (tok, uid, Msg_send_file c h r n s) = make_requests_msg_send_file tok uid c h r n s"
| "encode_call (tok, uid, Msg_delete m) = make_request_msg_delete tok uid m"
| "encode_call (tok, uid, Msg_notify_new) = make_request_msg_notify_new tok uid"
| "encode_call (tok, uid, Msg_notify_del c h) = make_request_msg_notify_del tok uid c h"
| "encode_call (tok, uid, Msg_file_download m) = make_request_msg_file_download tok uid m"

text \<open>
  The header and the body the server reads. A request for one or two identifiers carries no
  page, so its limit and offset are \<open>-1\<close>; the length of the body is the one the code
  writes, which leaves out the second identifier of a join and a quit and both of a
  notification.
\<close>

fun call_header :: "bytes \<Rightarrow> u32 \<Rightarrow> call \<Rightarrow> request_header" where
  "call_header tok uid (Auth_register u p ph e) =
     (let n = of_nat (length u + length p + length ph + length e + 3)
      in mk_header 0 0 0 n n EMPTY_TOKEN 0 (-1) (-1))"
| "call_header tok uid (Auth_login u p) =
     (let n = of_nat (length u + length p + 1) in mk_header 0 1 0 n n EMPTY_TOKEN 0 (-1) (-1))"
| "call_header tok uid User_logout = mk_header 1 0 0 0 0 tok uid (-1) (-1)"
| "call_header tok uid (User_get_info i) = mk_header 1 1 0 4 4 tok uid (-1) (-1)"
| "call_header tok uid (User_search s l f) =
     (let n = of_nat (length s) in mk_header 1 2 0 n n tok uid l f)"
| "call_header tok uid (Conv_create g) =
     (let n = of_nat (length g) in mk_header 2 0 0 n n tok uid (-1) (-1))"
| "call_header tok uid (Conv_drop c) = mk_header 2 1 0 4 4 tok uid (-1) (-1)"
| "call_header tok uid (Conv_join c u) = mk_header 2 2 0 4 4 tok uid (-1) (-1)"
| "call_header tok uid (Conv_quit c u) = mk_header 2 3 0 4 4 tok uid (-1) (-1)"
| "call_header tok uid (Conv_get_info c) = mk_header 2 4 0 4 4 tok uid (-1) (-1)"
| "call_header tok uid (Conv_get_members c) = mk_header 2 5 0 4 4 tok uid (-1) (-1)"
| "call_header tok uid (Conv_get_list l f) = mk_header 2 6 0 0 0 tok uid l f"
| "call_header tok uid (Chat_create u) = mk_header 3 0 0 4 4 tok uid (-1) (-1)"
| "call_header tok uid (Chat_delete h) = mk_header 3 1 0 4 4 tok uid (-1) (-1)"
| "call_header tok uid (Chat_get_list l f) = mk_header 3 2 0 0 0 tok uid l f"
| "call_header tok uid (Chat_get_info h) = mk_header 3 3 0 4 4 tok uid (-1) (-1)"
| "call_header tok uid (Msg_get_all l f c h) = mk_header 4 0 0 8 8 tok uid l f"
| "call_header tok uid (Msg_get_detail m) = mk_header 4 1 0 4 4 tok uid (-1) (-1)"
| "call_header tok uid (Msg_send_text c h r s) =
     (let n = of_nat (12 + length s) in mk_header 4 2 0 n n tok uid (-1) (-1))"
| "call_header tok uid (Msg_send_file c h r n s) =
     mk_header 4 2 1 n (of_nat (12 + length s)) tok uid (-1) (-1)"
| "call_header tok uid (Msg_delete m) = mk_header 4 3 0 4 4 tok uid (-1) (-1)"
| "call_header tok uid Msg_notify_new = mk_header 4 4 0 0 0 tok uid (-1) (-1)"
| "call_header tok uid (Msg_notify_del c h) = mk_header 4 5 0 0 0 tok uid (-1) (-1)"
| "call_header tok uid (Msg_file_download m) = mk_header 4 6 0 4 4 tok uid (-1) (-1)"

definition mk_conv :: "u32 \<Rightarrow> u32 \<Rightarrow> bytes option \<Rightarrow> request_body" where
  "mk_conv c u g = R_conv \<lparr>rc_conv_id = c, rc_user_id = u, rc_gname = g\<rparr>"

definition mk_chat :: "u32 \<Rightarrow> u32 \<Rightarrow> request_body" where
  "mk_chat h u = R_chat \<lparr>rh_chat_id = h, rh_user_id2 = u\<rparr>"

definition mk_msg :: "u32 \<Rightarrow> u32 \<Rightarrow> u32 \<Rightarrow> u32 \<Rightarrow> bytes option \<Rightarrow> request_body" where
  "mk_msg c h m r s =
     R_msg \<lparr>rm_conv_id = c, rm_chat_id = h, rm_msg_id = m, rm_reply_id = r, rm_msg_content = s\<rparr>"

fun call_body :: "call \<Rightarrow> request_body" where
  "call_body (Auth_register u p ph e) =
     R_auth \<lparr>ra_uname = Some u, ra_password = Some p, ra_phone = Some ph, ra_email = Some e\<rparr>"
| "call_body (Auth_login u p) =
     R_auth \<lparr>ra_uname = Some u, ra_password = Some p, ra_phone = None, ra_email = None\<rparr>"
| "call_body User_logout = R_user \<lparr>ru_user_id = 0, ru_uname = None\<rparr>"
| "call_body (User_get_info i) = R_user \<lparr>ru_user_id = i, ru_uname = None\<rparr>"
| "call_body (User_search s l f) = R_user \<lparr>ru_user_id = 0, ru_uname = Some s\<rparr>"
| "call_body (Conv_create g) = mk_conv 0 0 (Some g)"
| "call_body (Conv_drop c) = mk_conv c 0 None"
| "call_body (Conv_join c u) = mk_conv c u None"
| "call_body (Conv_quit c u) = mk_conv c u None"
| "call_body (Conv_get_info c) = mk_conv c 0 None"
| "call_body (Conv_get_members c) = mk_conv c 0 None"
| "call_body (Conv_get_list l f) = mk_conv 0 0 None"
| "call_body (Chat_create u) = mk_chat 0 u"
| "call_body (Chat_delete h) = mk_chat h 0"
| "call_body (Chat_get_list l f) = mk_chat 0 0"
| "call_body (Chat_get_info h) = mk_chat h 0"
| "call_body (Msg_get_all l f c h) = mk_msg c h 0 0 None"
| "call_body (Msg_get_detail m) = mk_msg 0 0 m 0 None"
| "call_body (Msg_send_text c h r s) = mk_msg c h 0 r (Some s)"
| "call_body (Msg_send_file c h r n s) = mk_msg c h 0 r (Some s)"
| "call_body (Msg_delete m) = mk_msg 0 0 m 0 None"
| "call_body Msg_notify_new = mk_msg 0 0 0 0 None"
| "call_body (Msg_notify_del c h) = mk_msg c h 0 0 None"
| "call_body (Msg_file_download m) = mk_msg 0 0 m 0 None"

definition call_view :: "bytes \<times> u32 \<times> call \<Rightarrow> request option" where
  "call_view m = (case m of (tok, uid, c) \<Rightarrow>
     Some \<lparr>rq_header = call_header tok uid c, rq_body = call_body c\<rparr>)"

text \<open>The strings that fit into a message and survive the tokenizer.\<close>

definition auth_field :: "bytes \<Rightarrow> bool" where
  "auth_field s \<longleftrightarrow> is_cstr s \<and> BODY_DELIMITER \<notin> set s"

fun call_ok :: "call \<Rightarrow> bool" where
  "call_ok (Auth_register u p ph e) \<longleftrightarrow>
     auth_field u \<and> auth_field p \<and> auth_field ph \<and> auth_field e \<and>
     length u + length p + length ph + length e + 3 \<le> REQUEST_BODY_LEN"
| "call_ok (Auth_login u p) \<longleftrightarrow>
     auth_field u \<and> auth_field p \<and> length u + length p + 2 \<le> REQUEST_BODY_LEN"
| "call_ok (User_search s l f) \<longleftrightarrow> is_cstr s \<and> length s \<le> REQUEST_BODY_LEN"
| "call_ok (Conv_create g) \<longleftrightarrow> is_cstr g \<and> length g \<le> REQUEST_BODY_LEN"
| "call_ok (Msg_send_text c h r s) \<longleftrightarrow> is_cstr s \<and> length s + 12 \<le> REQUEST_BODY_LEN"
| "call_ok (Msg_send_file c h r n s) \<longleftrightarrow> is_cstr s \<and> length s + 12 \<le> REQUEST_BODY_LEN"
| "call_ok _ \<longleftrightarrow> True"

section \<open>Every request is read as it was meant\<close>

fun payload :: "call \<Rightarrow> bytes" where
  "payload (Auth_register u p ph e) =
     u @ [BODY_DELIMITER] @ p @ [BODY_DELIMITER] @ ph @ [BODY_DELIMITER] @ e"
| "payload (Auth_login u p) = u @ [BODY_DELIMITER] @ p @ [BODY_DELIMITER]"
| "payload (User_get_info i) = uint32_wire i"
| "payload (User_search s l f) = s"
| "payload (Conv_create g) = g"
| "payload (Conv_drop c) = uint32_wire c"
| "payload (Conv_join c u) = uint32_wire c @ uint32_wire u"
| "payload (Conv_quit c u) = uint32_wire c @ uint32_wire u"
| "payload (Conv_get_info c) = uint32_wire c"
| "payload (Conv_get_members c) = uint32_wire c"
| "payload (Chat_create u) = uint32_wire u"
| "payload (Chat_delete h) = uint32_wire h"
| "payload (Chat_get_info h) = uint32_wire h"
| "payload (Msg_get_all l f c h) = uint32_wire c @ uint32_wire h"
| "payload (Msg_get_detail m) = uint32_wire m"
| "payload (Msg_send_text c h r s) = uint32_wire c @ uint32_wire h @ uint32_wire r @ s"
| "payload (Msg_send_file c h r n s) = uint32_wire c @ uint32_wire h @ uint32_wire r @ s"
| "payload (Msg_delete m) = uint32_wire m"
| "payload (Msg_notify_del c h) = uint32_wire c @ uint32_wire h"
| "payload (Msg_file_download m) = uint32_wire m"
| "payload _ = []"

lemmas make_request_defs = make_request_page_def make_request_user_logout_def
  make_request_user_get_info_def make_request_conv_drop_def make_request_conv_get_info_def
  make_request_conv_get_members_def make_request_conv_get_list_def make_request_chat_create_def
  make_request_chat_delete_def make_request_chat_get_list_def make_request_chat_get_info_def
  make_request_msg_get_detail_def make_request_msg_delete_def make_request_msg_notify_new_def
  make_request_msg_file_download_def

lemma rq_token_mk_header [simp]: "rq_token (mk_header g a ct cl bl tok uid l f) = tok"
  by (simp add: mk_header_def)

lemma length_EMPTY_TOKEN [simp]: "length EMPTY_TOKEN = TOKEN_LEN"
  by (simp add: EMPTY_TOKEN_def TOKEN_LEN_def)

lemma token_call_header: "length tok = TOKEN_LEN \<Longrightarrow> length (rq_token (call_header tok uid c)) = TOKEN_LEN"
  by (cases c) (simp_all add: Let_def)

text \<open>A message with its body written piece by piece, and one that is a header only.\<close>

lemma encode_pieces:
  assumes "length (rq_token header) = TOKEN_LEN" and "length res = REQUEST_LEN"
    and "ws = layout 0 xss" and "length (concat xss) \<le> REQUEST_BODY_LEN"
  shows "bindE (make_request_header header res)
      (writes_at REQUEST_HEADER_LEN ((0, zeros REQUEST_BODY_LEN) # ws)) =
    Inr (request_header_wire header @ concat xss @ zeros (REQUEST_BODY_LEN - length (concat xss)))"
  using assms by (simp add: make_request_with_body writes_layout_0)

lemma encode_register:
  assumes "call_ok (Auth_register u p ph e)" and "length res = REQUEST_LEN"
  shows "\<exists>rest. make_request_auth_register u p ph e res =
    Inr (request_header_wire (call_header tok uid (Auth_register u p ph e)) @
         payload (Auth_register u p ph e) @ rest)"
  using assms unfolding make_request_auth_register_def Let_def
  by (subst encode_pieces [where xss = "[u, [BODY_DELIMITER], p, [BODY_DELIMITER], ph,
      [BODY_DELIMITER], e]"]) (auto simp: Let_def)

lemma encode_login:
  assumes "call_ok (Auth_login u p)" and "length res = REQUEST_LEN"
  shows "\<exists>rest. make_request_auth_login u p res =
    Inr (request_header_wire (call_header tok uid (Auth_login u p)) @ payload (Auth_login u p) @ rest)"
  using assms unfolding make_request_auth_login_def Let_def
  by (subst encode_pieces [where xss = "[u, [BODY_DELIMITER], p, [BODY_DELIMITER]]"])
    (auto simp: Let_def)

lemma encode_string:
  assumes "length tok = TOKEN_LEN" and "length res = REQUEST_LEN" and "length s \<le> REQUEST_BODY_LEN"
  shows "\<exists>rest. make_request_string tok g a uid s res =
    Inr (request_header_wire (mk_header g a 0 (of_nat (length s)) (of_nat (length s)) tok uid (-1) (-1))
         @ s @ rest)"
  using assms unfolding make_request_string_def Let_def
  by (subst encode_pieces [where xss = "[s]"]) auto

lemma encode_search:
  assumes "length tok = TOKEN_LEN" and "length res = REQUEST_LEN" and "length s \<le> REQUEST_BODY_LEN"
  shows "\<exists>rest. make_request_user_search tok uid s l f res =
    Inr (request_header_wire (mk_header 1 2 0 (of_nat (length s)) (of_nat (length s)) tok uid l f)
         @ s @ rest)"
  using assms unfolding make_request_user_search_def Let_def
  by (subst encode_pieces [where xss = "[s]"]) auto

lemma encode_uint32:
  assumes "length tok = TOKEN_LEN" and "length res = REQUEST_LEN"
  shows "make_request_uint32 tok g a uid n res =
    Inr (request_header_wire (mk_header g a 0 4 4 tok uid (-1) (-1)) @ uint32_wire n @
         zeros (REQUEST_BODY_LEN - 4))"
  using assms unfolding make_request_uint32_def
  by (subst encode_pieces [where xss = "[uint32_wire n]"]) (auto simp: request_sizes)

lemma encode_two:
  assumes "length tok = TOKEN_LEN" and "length res = REQUEST_LEN" and "rq_token header = tok"
  shows "bindE (make_request_header header res) (writes_at REQUEST_HEADER_LEN
      [(0, zeros REQUEST_BODY_LEN), (0, uint32_wire c), (4, uint32_wire h)]) =
    Inr (request_header_wire header @ (uint32_wire c @ uint32_wire h) @ zeros (REQUEST_BODY_LEN - 8))"
  using assms
  by (subst encode_pieces [where xss = "[uint32_wire c, uint32_wire h]"]) (auto simp: request_sizes)

lemma encode_three_string:
  assumes "length tok = TOKEN_LEN" and "length res = REQUEST_LEN" and "rq_token header = tok"
    and "length s + 12 \<le> REQUEST_BODY_LEN"
  shows "\<exists>rest. bindE (make_request_header header res) (writes_at REQUEST_HEADER_LEN
      [(0, zeros REQUEST_BODY_LEN), (0, uint32_wire c), (4, uint32_wire h), (8, uint32_wire r),
       (12, s)]) =
    Inr (request_header_wire header @ (uint32_wire c @ uint32_wire h @ uint32_wire r @ s) @ rest)"
  using assms
  by (subst encode_pieces [where xss = "[uint32_wire c, uint32_wire h, uint32_wire r, s]"]) auto

text \<open>The second identifier of a join or a quit goes behind the first.\<close>

lemma encode_second_uint32:
  assumes "length tok = TOKEN_LEN" and "length res = REQUEST_LEN"
  shows "bindE (make_request_uint32 tok g a uid c res)
      (\<lambda>b. write_uint32_to_buf b (REQUEST_HEADER_LEN + 4) u) =
    Inr (request_header_wire (mk_header g a 0 4 4 tok uid (-1) (-1)) @
         (uint32_wire c @ uint32_wire u) @ zeros (REQUEST_BODY_LEN - 8))"
proof -
  let ?p = "request_header_wire (mk_header g a 0 4 4 tok uid (-1) (-1))"
  have len: "length ?p = REQUEST_HEADER_LEN"
    using assms(1) by (simp add: length_request_header_wire)
  have "mem_write (uint32_wire c @ zeros (REQUEST_BODY_LEN - 4)) 4 (uint32_wire u) =
      Inr ((uint32_wire c @ uint32_wire u) @ zeros (REQUEST_BODY_LEN - 8))"
    by (simp add: mem_write_def request_sizes)
  with assms show ?thesis
    by (simp add: encode_uint32 write_uint32_to_buf_def mem_write_append [of ?p, unfolded len])
qed

lemma encode_call_wire:
  assumes "call_ok c" and "length tok = TOKEN_LEN" and "length res = REQUEST_LEN"
  shows "\<exists>rest. encode_call (tok, uid, c) res =
    Inr (request_header_wire (call_header tok uid c) @ payload c @ rest)"
proof (cases c)
  case (Auth_register u p ph e)
  then show ?thesis using encode_register assms by simp
next
  case (Auth_login u p)
  then show ?thesis using encode_login assms by simp
next
  case (User_search s l f)
  then show ?thesis using encode_search assms by (simp add: Let_def)
next
  case (Conv_create g)
  then show ?thesis using encode_string assms by (simp add: Let_def make_request_conv_create_def)
next
  case (Msg_send_text c h r s)
  then show ?thesis
    using encode_three_string assms by (simp add: Let_def make_requests_msg_send_text_def)
next
  case (Msg_send_file c h r n s)
  then show ?thesis
    using encode_three_string assms by (simp add: make_requests_msg_send_file_def)
next
  case (Conv_join c u)
  then show ?thesis using assms by (simp add: make_request_conv_join_def encode_second_uint32)
next
  case (Conv_quit c u)
  then show ?thesis using assms by (simp add: make_request_conv_quit_def encode_second_uint32)
next
  case (Msg_get_all l f c h)
  then show ?thesis using assms by (simp add: make_request_msg_get_all_def encode_two)
next
  case (Msg_notify_del c h)
  then show ?thesis using assms by (simp add: make_request_msg_notify_del_def encode_two)
qed (use assms in \<open>simp_all add: make_request_defs encode_uint32 make_request_header_eq\<close>)

subsection \<open>Parsing the bodies\<close>

lemma is_field_auth:
  "auth_field f \<Longrightarrow> length f \<le> REQUEST_BODY_LEN \<Longrightarrow> is_field (Some REQUEST_BODY_LEN) f"
  by (simp add: is_field_def auth_field_def)

lemma field_tokenizer_found:
  assumes "auth_field f" "length f \<le> REQUEST_BODY_LEN" "n = length p"
  shows "field_tokenizer (p @ f @ BODY_DELIMITER # q) n =
    Inr (p @ f @ 0 # q, n + length f + 1)"
  using assms by (simp add: field_tokenizer_def scan_field_found is_field_auth)

lemma field_tokenizer_last:
  assumes "auth_field f" "length f \<le> REQUEST_BODY_LEN" "n = length p"
  shows "field_tokenizer (p @ f @ 0 # q) n = Inr (p @ f @ 0 # q, n)"
  using assms by (simp add: field_tokenizer_def scan_field_last is_field_auth)

lemma cstr_at: "is_cstr s \<Longrightarrow> n = length p \<Longrightarrow> cstr (p @ s @ 0 # q) n = Inr s"
  by (simp add: cstr_terminated)

lemma auth_field_cstr: "auth_field s \<Longrightarrow> is_cstr s"
  by (simp add: auth_field_def)

lemma parse_login:
  assumes ok: "call_ok (Auth_login u p)"
  shows "request_parse_auth (call_header tok uid (Auth_login u p)) (payload (Auth_login u p) @ rest) 0
    = Inr (Some (call_body (Auth_login u p)))"
proof -
  let ?d = "BODY_DELIMITER"
  have f: "auth_field u" "auth_field p" "is_cstr u" "is_cstr p"
    and len: "length u + length p + 2 \<le> REQUEST_BODY_LEN"
    using ok by (auto simp: auth_field_def)
  have small: "length u + length p + 1 < 4294967296"
    using len by (simp add: request_sizes)
  then have n: "unat (of_nat (length u + length p + 1) :: u32) = length u + length p + 1"
    by (rule unat_of_nat_u32)
  have copy: "mem_read (payload (Auth_login u p) @ rest) 0 (length u + length p + 1) =
      Inr (u @ ?d # p)"
    by (simp add: mem_read_def)
  have t1: "field_tokenizer (u @ ?d # p @ [0]) 0 = Inr (u @ 0 # p @ [0], length u + 1)"
    using field_tokenizer_found [of u 0 "[]" "p @ [0]"] f len by simp
  have t2: "field_tokenizer (u @ 0 # p @ [0]) (length u + 1) = Inr (u @ 0 # p @ [0], length u + 1)"
    using field_tokenizer_last [of p "length u + 1" "u @ [0]" "[]"] f len by simp
  have s1: "cstr (u @ 0 # p @ [0]) 0 = Inr u"
    using cstr_at [of u 0 "[]" "p @ [0]"] f by simp
  have s2: "cstr (u @ 0 # p @ [0]) (length u + 1) = Inr p"
    using cstr_at [of p "length u + 1" "u @ [0]" "[]"] f by simp
  show ?thesis
    using copy t1 t2 s1 s2 n by (simp add: request_parse_auth_def mk_header_def Let_def)
qed

lemma parse_register:
  assumes ok: "call_ok (Auth_register u p ph e)"
  shows "request_parse_auth (call_header tok uid (Auth_register u p ph e))
      (payload (Auth_register u p ph e) @ rest) 0 = Inr (Some (call_body (Auth_register u p ph e)))"
proof -
  let ?d = "BODY_DELIMITER"
  let ?n = "length u + length p + length ph + length e + 3"
  let ?r1 = "length u + 1"
  let ?r2 = "length u + length p + 2"
  let ?r3 = "length u + length p + length ph + 3"
  let ?b = "u @ 0 # p @ 0 # ph @ 0 # e @ [0]"
  have f: "auth_field u" "auth_field p" "auth_field ph" "auth_field e"
    and c: "is_cstr u" "is_cstr p" "is_cstr ph" "is_cstr e"
    and len: "?n \<le> REQUEST_BODY_LEN"
    using ok by (auto simp: auth_field_def)
  have small: "?n < 2147483648"
    using len by (simp add: request_sizes)
  then have n: "unat (of_nat ?n :: u32) = ?n"
    by (intro unat_of_nat_u32) simp
  have copy: "mem_read (payload (Auth_register u p ph e) @ rest) 0 ?n = Inr (u @ ?d # p @ ?d # ph @ ?d # e)"
    using mem_read_front [of ?n "u @ ?d # p @ ?d # ph @ ?d # e" rest] by simp
  have t1: "field_tokenizer (u @ ?d # p @ ?d # ph @ ?d # e @ [0]) 0 =
      Inr (u @ 0 # p @ ?d # ph @ ?d # e @ [0], ?r1)"
    using field_tokenizer_found [of u 0 "[]" "p @ ?d # ph @ ?d # e @ [0]"] f len by simp
  have t2: "field_tokenizer (u @ 0 # p @ ?d # ph @ ?d # e @ [0]) ?r1 =
      Inr (u @ 0 # p @ 0 # ph @ ?d # e @ [0], ?r2)"
    using field_tokenizer_found [of p ?r1 "u @ [0]" "ph @ ?d # e @ [0]"] f len by simp
  have t3: "field_tokenizer (u @ 0 # p @ 0 # ph @ ?d # e @ [0]) ?r2 = Inr (?b, ?r3)"
    using field_tokenizer_found [of ph ?r2 "u @ 0 # p @ [0]" "e @ [0]"] f len
    by (simp add: add.assoc)
  have t4: "field_tokenizer ?b ?r3 = Inr (?b, ?r3)"
    using field_tokenizer_last [of e ?r3 "u @ 0 # p @ 0 # ph @ [0]" "[]"] f len by simp
  have s: "cstr (u @ 0 # p @ 0 # ph @ ?d # e @ [0]) 0 = Inr u"
    "cstr (u @ 0 # p @ 0 # ph @ ?d # e @ [0]) ?r1 = Inr p"
    "cstr ?b 0 = Inr u" "cstr ?b ?r1 = Inr p" "cstr ?b ?r2 = Inr ph" "cstr ?b ?r3 = Inr e"
    using cstr_at [of u 0 "[]" "p @ 0 # ph @ ?d # e @ [0]"]
      cstr_at [of p ?r1 "u @ [0]" "ph @ ?d # e @ [0]"]
      cstr_at [of u 0 "[]" "p @ 0 # ph @ 0 # e @ [0]"]
      cstr_at [of p ?r1 "u @ [0]" "ph @ 0 # e @ [0]"]
      cstr_at [of ph ?r2 "u @ 0 # p @ [0]" "e @ [0]"]
      cstr_at [of e ?r3 "u @ 0 # p @ 0 # ph @ [0]" "[]"] c by simp_all
  have email_len: "of_nat ?n - of_nat (length u) - of_nat (length p) - of_nat (length ph) - 3 =
      (of_nat (length e) :: i32)"
    by simp
  have le: "sint (of_nat (length e) :: i32) = int (length e)" "unat (of_nat (length e) :: i32) = length e"
    using small by (simp_all add: signed_of_nat signed_take_bit_int_eq_self)
  have wr: "mem_write ?b (?r3 + length e) [0] = Inr ?b"
    using mem_write_at [of "?r3 + length e" "u @ 0 # p @ 0 # ph @ 0 # e" 0 "[]" 0] by simp
  show ?thesis
    using copy t1 t2 t3 t4 s email_len le wr n
    by (simp add: request_parse_auth_def mk_header_def Let_def)
qed

lemma parse_call:
  assumes "call_ok c"
  shows "request_parse_at (call_header tok uid c) (payload c @ rest) = Inr (Some (call_body c))"
proof (cases c)
  case (Auth_register u p ph e)
  then show ?thesis
    using parse_register [of u p ph e tok uid rest] assms
    by (simp add: request_parse_at_def mk_header_def Let_def)
next
  case (Auth_login u p)
  then show ?thesis
    using parse_login [of u p tok uid rest] assms
    by (simp add: request_parse_at_def mk_header_def Let_def)
next
  case (User_search s l f)
  then show ?thesis
    using assms cstrn_front [of s "length s" rest]
    by (simp add: request_parse_at_def request_parse_user_def mk_header_def Let_def request_sizes)
next
  case (Conv_create s)
  then show ?thesis
    using assms cstrn_front [of s "length s" rest]
    by (simp add: request_parse_at_def request_parse_conv_def mk_header_def mk_conv_def Let_def
        request_sizes)
next
  case (Msg_send_text c h r s)
  then show ?thesis
    using assms cstrn_exact [of s "uint32_wire c @ uint32_wire h @ uint32_wire r" rest]
    by (simp add: request_parse_at_def request_parse_msg_def mk_header_def mk_msg_def Let_def
        request_sizes mem_simps)
next
  case (Msg_send_file c h r n s)
  then show ?thesis
    using assms cstrn_exact [of s "uint32_wire c @ uint32_wire h @ uint32_wire r" rest]
    by (simp add: request_parse_at_def request_parse_msg_def mk_header_def mk_msg_def Let_def
        request_sizes mem_simps)
qed (simp_all add: request_parse_at_def mk_header_def mk_conv_def mk_chat_def mk_msg_def Let_def
  request_parse_user_def request_parse_conv_def request_parse_chat_def request_parse_msg_def
  mem_simps)

text \<open>A call of the interface is well-formed if its strings fit and its token has its length.\<close>

definition call_wf :: "bytes \<times> u32 \<times> call \<Rightarrow> bool" where
  "call_wf m = (case m of (tok, uid, c) \<Rightarrow> length tok = TOKEN_LEN \<and> call_ok c)"

lemma encode_call_parse:
  assumes "call_wf (tok, uid, c)" and "length res = REQUEST_LEN"
    and "encode_call (tok, uid, c) res = Inr b"
  shows "request_parse (b @ tail) = Inr (call_view (tok, uid, c))"
proof -
  have c: "call_ok c" "length tok = TOKEN_LEN"
    using assms(1) by (auto simp: call_wf_def)
  obtain rest where "b = request_header_wire (call_header tok uid c) @ payload c @ rest"
    using encode_call_wire [OF c assms(2), of uid] assms(3) by auto
  with request_parse_wire [OF token_call_header [OF c(2)] parse_call [OF c(1)]] show ?thesis
    by (simp add: call_view_def)
qed

lemma make_request_header_length: "make_request_header header res = Inr b \<Longrightarrow> length b = length res"
  by (auto simp: make_request_header_def bindE_eq_Inr_iff simp del: writes.simps dest: writes_length)

lemma encode_call_length:
  "encode_call (tok, uid, c) res = Inr b \<Longrightarrow> length b = length res"
  by (cases c)
    (auto simp: make_request_defs make_request_uint32_def make_request_string_def
      make_request_auth_register_def make_request_auth_login_def make_request_user_search_def
      make_request_conv_create_def make_request_conv_join_def make_request_conv_quit_def
      make_request_msg_get_all_def make_requests_msg_send_text_def
      make_requests_msg_send_file_def make_request_msg_notify_del_def write_uint32_to_buf_def
      bindE_eq_Inr_iff Let_def
      dest!: make_request_header_length writes_at_length mem_write_length)

interpretation rq: codec encode_call request_parse call_wf call_view REQUEST_LEN
proof unfold_locales
  fix m and buf :: bytes assume "call_wf m" and len: "length buf = REQUEST_LEN"
  then obtain tok uid c where "m = (tok, uid, c)" "length tok = TOKEN_LEN" "call_ok c"
    by (auto simp: call_wf_def split: prod.splits)
  then obtain b where "encode_call m buf = Inr b"
    using encode_call_wire [OF _ _ len, of c tok uid] by auto
  with len show "\<exists>b. encode_call m buf = Inr b \<and> length b = REQUEST_LEN"
    using encode_call_length by (cases m) auto
next
  fix m buf b tail
  assume "call_wf m" "length buf = REQUEST_LEN" "encode_call m buf = Inr b"
  then show "request_parse (b @ tail) = Inr (call_view m)"
    by (cases m) (auto intro: encode_call_parse)
qed

section \<open>Properties\<close>

text \<open>
  C10: Every request of the client's interface is written inside its buffer, whatever the
  buffer held, and the server's \<^verbatim>\<open>request_parse\<close> reads the bytes as the same request, header
  and body, whatever follows them in memory.
\<close>

theorem request_roundtrip:
  assumes "length tok = TOKEN_LEN" and "call_ok c" and "length buf = REQUEST_LEN"
  shows "\<exists>b. encode_call (tok, uid, c) buf = Inr b \<and> length b = REQUEST_LEN \<and>
    request_parse (b @ tail) =
      Inr (Some \<lparr>rq_header = call_header tok uid c, rq_body = call_body c\<rparr>)"
  using rq.roundtrip [of "(tok, uid, c)" buf tail] assms by (simp add: call_wf_def call_view_def)

theorem request_roundtrip_witness:
  "\<exists>b. encode_call (EMPTY_TOKEN, 7, Msg_send_text 3 0 12 [104, 105]) (replicate REQUEST_LEN 255) = Inr b \<and>
    length b = REQUEST_LEN \<and>
    request_parse (b @ [0]) = Inr (Some \<lparr>rq_header = mk_header 4 2 0 14 14 EMPTY_TOKEN 7 (-1) (-1),
      rq_body = mk_msg 3 0 0 12 (Some [104, 105])\<rparr>)"
  using request_roundtrip [of EMPTY_TOKEN "Msg_send_text 3 0 12 [104, 105]" "replicate REQUEST_LEN 255" 7 "[0]"]
  by (simp add: EMPTY_TOKEN_def request_sizes is_cstr_def)

text \<open>
  No two requests are confused on the wire: when the messages of two calls are the same
  bytes, the server sees the same header and the same body for both.
\<close>

theorem request_unambiguous:
  assumes "length tok = TOKEN_LEN" "call_ok c" "length tok' = TOKEN_LEN" "call_ok c'"
    and "length buf = REQUEST_LEN" "length buf' = REQUEST_LEN"
    and "encode_call (tok, uid, c) buf = Inr b" "encode_call (tok', uid', c') buf' = Inr b"
  shows "call_header tok uid c = call_header tok' uid' c' \<and> call_body c = call_body c'"
  using rq.unambiguous [of "(tok, uid, c)" "(tok', uid', c')" buf buf' b b "[]" "[]"] assms
  by (simp add: call_wf_def call_view_def)

theorem request_unambiguous_witness:
  "\<exists>b. encode_call (EMPTY_TOKEN, 7, Chat_create 3) (zeros REQUEST_LEN) = Inr b \<and>
    encode_call (EMPTY_TOKEN, 7, Chat_create 3) (replicate REQUEST_LEN 1) = Inr b \<and>
    call_header EMPTY_TOKEN 7 (Chat_create 3) = call_header EMPTY_TOKEN 7 (Chat_create 3) \<and>
    call_body (Chat_create 3) = call_body (Chat_create 3)"
proof -
  let ?b = "request_header_wire (mk_header 3 0 0 4 4 EMPTY_TOKEN 7 (-1) (-1)) @ uint32_wire 3 @
    zeros (REQUEST_BODY_LEN - 4)"
  have tok: "length EMPTY_TOKEN = TOKEN_LEN"
    by (simp add: EMPTY_TOKEN_def TOKEN_LEN_def)
  have b: "encode_call (EMPTY_TOKEN, 7, Chat_create 3) buf = Inr ?b" if "length buf = REQUEST_LEN" for buf
    using that tok by (simp add: make_request_chat_create_def encode_uint32)
  show ?thesis
    using b request_unambiguous [OF tok _ tok _ _ _ b b] by simp
qed

end
