(* ===== verification/Request_Safety.thy ===== *)
theory Request_Safety
  imports Request
begin

text \<open>
  Memory safety of \<^verbatim>\<open>request_parse\<close>. The lengths a message announces are not checked, so the
  parser is safe only under a bound: when the announced body lies inside a zero-terminated
  buffer, no read or write of the parser leaves its array, whatever the bytes are, and the zero
  that ends the e-mail address of a registration is written inside the copy of the body.
\<close>

section \<open>Terminated arrays\<close>

definition terminated :: "bytes \<Rightarrow> bool" where
  "terminated a \<longleftrightarrow> a \<noteq> [] \<and> last a = 0"

lemma terminated_snoc [simp]: "terminated (a @ [0])"
  by (simp add: terminated_def)

lemma terminated_drop: "terminated a \<Longrightarrow> off < length a \<Longrightarrow> 0 \<in> set (drop off a)"
  by (metis drop_eq_Nil last_drop last_in_set linorder_not_le terminated_def)

lemma cstr_terminated_ok:
  "terminated a \<Longrightarrow> off < length a \<Longrightarrow>
   cstr a off = Inr (takeWhile (\<lambda>b. b \<noteq> 0) (drop off a))"
  by (simp add: cstr_def terminated_drop)

lemma takeWhile_stops: "x \<in> set xs \<Longrightarrow> \<not> P x \<Longrightarrow> length (takeWhile P xs) < length xs"
  by (induction xs) auto

lemma length_cstr_bound:
  assumes "terminated a" "off < length a" "cstr a off = Inr s"
  shows "off + length s < length a"
proof -
  have "length (takeWhile (\<lambda>b. b \<noteq> 0) (drop off a)) < length (drop off a)"
    using terminated_drop [OF assms(1,2)] by (intro takeWhile_stops) auto
  with assms show ?thesis by (simp add: cstr_terminated_ok)
qed

lemma cstrn_ok_terminated: "terminated a \<Longrightarrow> off < length a \<Longrightarrow> \<exists>s. cstrn a off n = Inr s"
  using terminated_drop [of a off] by (auto simp: cstrn_def)

lemma mem_write_zero_terminated:
  assumes "terminated a" "i < length a"
  shows "\<exists>b. mem_write a i [0] = Inr b \<and> terminated b \<and> length b = length a"
proof -
  have "mem_write a i [0] = Inr (a[i := 0])"
    using assms(2) by (simp add: mem_write_def upd_conv_take_nth_drop)
  moreover have "terminated (a[i := 0])"
    using assms by (auto simp: terminated_def last_list_update)
  ultimately show ?thesis by simp
qed

section \<open>The tokenizer on a terminated array\<close>

text \<open>
  A call of \<^verbatim>\<open>field_tokenizer\<close> does not move back, leaves what is before its field alone, and
  the field it skips contains no zero.
\<close>

definition tok_ok :: "bytes \<Rightarrow> nat \<Rightarrow> bytes \<Rightarrow> nat \<Rightarrow> bool" where
  "tok_ok a rest a' rest' \<longleftrightarrow>
     terminated a' \<and> length a' = length a \<and> rest \<le> rest' \<and> rest' < length a' \<and>
     take rest a' = take rest a \<and> (\<forall>j. rest \<le> j \<and> j + 1 < rest' \<longrightarrow> a' ! j \<noteq> 0)"

lemma scan_field_prefix:
  "scan_field lim a old i = Inr (a', r) \<Longrightarrow> take i a' = take i a \<and>
   (\<forall>j. r = Some j \<longrightarrow> (\<forall>k. i \<le> k \<and> k + 1 < j \<longrightarrow> a' ! k \<noteq> 0))"
proof (induction lim a old i rule: scan_field.induct)
  case (1 lim a old i)
  note unfold = scan_field.simps [of lim a old i]
  show ?case
  proof (cases "a ! i = 0 \<or> (case lim of None \<Rightarrow> False | Some n \<Rightarrow> n < i - old) \<or>
      a ! i = BODY_DELIMITER \<or> length a \<le> i")
    case True
    with "1.prems" show ?thesis by (auto simp: unfold split: if_splits)
  next
    case False
    then have step: "scan_field lim a old (i + 1) = Inr (a', r)"
      using "1.prems" by (simp add: unfold)
    with "1.IH" False have pre: "take (i + 1) a' = take (i + 1) a"
      and ne: "\<And>j k. r = Some j \<Longrightarrow> i + 1 \<le> k \<Longrightarrow> k + 1 < j \<Longrightarrow> a' ! k \<noteq> 0"
      by auto
    have "a' ! i = a ! i"
      using arg_cong [OF pre, of "\<lambda>xs. xs ! i"] by simp
    moreover have "take i a' = take i a"
      using arg_cong [OF pre, of "take i"] by (simp add: min_def)
    ultimately show ?thesis
      using False ne by (metis Suc_eq_plus1 Suc_leI le_neq_implies_less)
  qed
qed

lemma field_tokenizer_safe:
  assumes "terminated a" "rest < length a"
  shows "\<exists>a' rest'. field_tokenizer a rest = Inr (a', rest') \<and> tok_ok a rest a' rest'"
proof -
  obtain a' r where scan: "scan_field (Some REQUEST_BODY_LEN) a rest rest = Inr (a', r)"
    and len: "length a' = length a" "last a' = 0" "\<forall>j. r = Some j \<longrightarrow> rest < j \<and> j < length a"
    using scan_field_safe [of a rest "Some REQUEST_BODY_LEN" rest] assms
    by (auto simp: terminated_def)
  have "a' \<noteq> []" using len(1) assms by auto
  with scan_field_prefix [OF scan] len assms scan show ?thesis
    by (cases r) (auto simp: field_tokenizer_def tok_ok_def terminated_def)
qed

text \<open>Hence the next field starts at most one byte behind the string found at this one.\<close>

lemma takeWhile_length_ge:
  "(\<And>j. j < n \<Longrightarrow> P (xs ! j)) \<Longrightarrow> n \<le> length xs \<Longrightarrow> n \<le> length (takeWhile P xs)"
  by (rule ccontr) (metis linorder_not_le nth_length_takeWhile order_less_le_trans)

lemma tok_bound:
  assumes "tok_ok a rest a' rest'" and "take rest' b = take rest' a'" and "length b = length a'"
    and "cstr b rest = Inr s"
  shows "rest' \<le> rest + length s + 1"
proof -
  have ne: "b ! j \<noteq> 0" if "rest \<le> j" "j + 1 < rest'" for j
    using that assms(1) arg_cong [OF assms(2), of "\<lambda>xs. xs ! j"] by (simp add: tok_ok_def)
  have "rest' - 1 - rest \<le> length (takeWhile (\<lambda>x. x \<noteq> 0) (drop rest b))"
    using assms(1,3) ne by (intro takeWhile_length_ge) (auto simp: tok_ok_def)
  then show ?thesis
    using assms(4) by (auto simp: cstr_def split: if_splits)
qed

lemma tok_prefix_mono:
  "tok_ok a r a' r' \<Longrightarrow> n \<le> r \<Longrightarrow> take n a' = take n a"
  unfolding tok_ok_def by (metis min_def take_take)

section \<open>Registration and login\<close>

text \<open>
  The length that is left for the e-mail address, as the code computes it in an \<^verbatim>\<open>int32_t\<close>:
  when it is not negative it is the difference of the lengths.
\<close>

lemma email_len_eq:
  fixes e :: i32
  assumes "e = of_nat n - of_nat i - of_nat j - of_nat k - 3" and "\<not> sint e < 0"
    and "n < 1000000" "i < 1000000" "j < 1000000" "k < 1000000"
  shows "unat e + i + j + k + 3 = n"
proof -
  let ?z = "int n - int i - int j - int k - 3"
  have e: "e = of_int ?z"
    by (simp add: assms(1))
  have "signed_take_bit 31 ?z = ?z"
    using assms(3-) by (intro signed_take_bit_int_eq_self) simp_all
  then have "sint e = ?z"
    unfolding e signed_of_int by simp
  then have nonneg: "i + j + k + 3 \<le> n"
    using assms(2) by simp
  have "e = of_nat (n - (i + j + k + 3))"
    using nonneg by (simp add: assms(1) of_nat_diff)
  then have "unat e = n - (i + j + k + 3)"
    using assms(3) by (simp only: unat_of_nat_u32)
  with nonneg show ?thesis by simp
qed

lemma request_parse_auth_safe:
  assumes buf: "off + unat (rq_body_len header) \<le> length buf"
    and small: "unat (rq_body_len header) \<le> REQUEST_BODY_LEN"
  shows "\<exists>r. request_parse_auth header buf off = Inr r"
proof -
  let ?n = "unat (rq_body_len header)"
  let ?b0 = "take ?n (drop off buf) @ [0]"
  have l0: "length ?b0 = ?n + 1" using buf by simp
  obtain b1 r1 where t1: "field_tokenizer ?b0 0 = Inr (b1, r1)" "tok_ok ?b0 0 b1 r1"
    using field_tokenizer_safe [of ?b0 0] l0 by auto
  obtain b2 r2 where t2: "field_tokenizer b1 r1 = Inr (b2, r2)" "tok_ok b1 r1 b2 r2"
    using field_tokenizer_safe [of b1 r1] t1 by (auto simp: tok_ok_def)
  obtain b3 r3 where t3: "field_tokenizer b2 r2 = Inr (b3, r3)" "tok_ok b2 r2 b3 r3"
    using field_tokenizer_safe [of b2 r2] t2 by (auto simp: tok_ok_def)
  obtain b4 r4 where t4: "field_tokenizer b3 r3 = Inr (b4, r4)" "tok_ok b3 r3 b4 r4"
    using field_tokenizer_safe [of b3 r3] t3 by (auto simp: tok_ok_def)
  have T: "terminated b2" "terminated b4" "length b4 = ?n + 1" "length b2 = ?n + 1"
    "length b3 = ?n + 1" "length b1 = ?n + 1"
    and R: "r1 \<le> r2" "r2 \<le> r3" "r1 < ?n + 1" "r2 < ?n + 1" "r3 < ?n + 1"
    using t1(2) t2(2) t3(2) t4(2) l0 by (auto simp: tok_ok_def)
  obtain u p ph where s: "cstr b4 0 = Inr u" "cstr b4 r1 = Inr p" "cstr b4 r2 = Inr ph"
    using cstr_terminated_ok T R by auto
  obtain u' p' where s': "cstr b2 0 = Inr u'" "cstr b2 r1 = Inr p'"
    using cstr_terminated_ok T R by auto
  have len: "length u < ?n + 1" "length p < ?n + 1" "length ph < ?n + 1"
    using length_cstr_bound [OF T(2) _ s(1)] length_cstr_bound [OF T(2) _ s(2)]
      length_cstr_bound [OF T(2) _ s(3)] T(3) R by simp_all
  have pre: "take r1 b4 = take r1 b1" "take r2 b4 = take r2 b2" "take r3 b4 = take r3 b3"
    using tok_prefix_mono [OF t4(2)] tok_prefix_mono [OF t3(2)] tok_prefix_mono [OF t2(2)] R(1,2)
    by simp_all
  have "r1 \<le> length u + 1"
    using tok_bound [OF t1(2) pre(1) _ s(1)] T by simp
  moreover have "r2 \<le> r1 + length p + 1"
    using tok_bound [OF t2(2) pre(2) _ s(2)] T by simp
  moreover have "r3 \<le> r2 + length ph + 1"
    using tok_bound [OF t3(2) pre(3) _ s(3)] T by simp
  ultimately have r3: "r3 \<le> length u + length p + length ph + 3" by linarith
  define e :: i32 where
    "e = of_nat ?n - of_nat (length u) - of_nat (length p) - of_nat (length ph) - 3"
  have e: "\<exists>b5. mem_write b4 (r3 + unat e) [0] = Inr b5 \<and> terminated b5 \<and> length b5 = length b4"
    if "\<not> sint e < 0"
  proof (rule mem_write_zero_terminated [OF T(2)])
    have "unat e + length u + length p + length ph + 3 = ?n"
      using email_len_eq [OF e_def that] small len by (simp add: request_sizes)
    with r3 T show "r3 + unat e < length b4" by linarith
  qed
  have fin: "\<exists>ph' em. cstr b5 r2 = Inr ph' \<and> cstr b5 r3 = Inr em"
    if "terminated b5" "length b5 = length b4" for b5
    using that T R by (simp add: cstr_terminated_ok)
  have parse: "request_parse_auth header buf off =
      (if rq_action header = 0 then
         if sint e < 0 then Inr None
         else bindE (mem_write b4 (r3 + unat e) [0]) (\<lambda>b5. bindE (cstr b5 r2) (\<lambda>ph'.
           bindE (cstr b5 r3) (\<lambda>em. Inr (Some (R_auth \<lparr>ra_uname = Some u', ra_password = Some p',
             ra_phone = Some ph', ra_email = Some em\<rparr>)))))
       else if rq_action header \<noteq> 1 then Inr None
       else Inr (Some (R_auth \<lparr>ra_uname = Some u', ra_password = Some p',
              ra_phone = None, ra_email = None\<rparr>)))"
    unfolding request_parse_auth_def mem_read_ok [OF buf] bindE_Inr t1(1) t2(1) t3(1) t4(1) s s'
      prod.case Let_def e_def ..
  show ?thesis
  proof (cases "sint e < 0")
    case False
    then obtain b5 ph' em where "mem_write b4 (r3 + unat e) [0] = Inr b5"
      "cstr b5 r2 = Inr ph'" "cstr b5 r3 = Inr em"
      using e fin by blast
    then show ?thesis unfolding parse by simp
  qed (simp add: parse)
qed

section \<open>All requests\<close>

lemma parse_uint32_safe: "off + 4 \<le> length buf \<Longrightarrow> \<exists>v. parse_uint32_from_buf buf off = Inr v"
  by (simp add: parse_uint32_ok)

lemma request_parse_header_safe:
  assumes "REQUEST_HEADER_LEN \<le> length buf"
  shows "\<exists>header. request_parse_header buf = Inr header"
  using assms by (simp add: request_parse_header_def mem_read_ok parse_uint32_ok request_sizes)

lemma request_parse_body_safe:
  assumes "terminated buf" and "REQUEST_HEADER_LEN + 12 < length buf"
    and "REQUEST_HEADER_LEN + unat (rq_body_len header) \<le> length buf"
    and "unat (rq_body_len header) \<le> REQUEST_BODY_LEN"
  shows "\<exists>r. request_parse_body header buf = Inr r"
proof -
  have str: "\<exists>s. cstrn buf (REQUEST_HEADER_LEN + k) n = Inr s" if "k \<le> 12" for k n
    using cstrn_ok_terminated [OF assms(1)] assms(2) that by simp
  note str0 = str [of 0, simplified] and str12 = str [of 12, simplified]
  have num: "\<exists>v. parse_uint32_from_buf buf (REQUEST_HEADER_LEN + k) = Inr v" if "k \<le> 8" for k
    using parse_uint32_safe assms(2) that by simp
  note num0 = num [of 0, simplified] and num4 = num [of 4, simplified] and num8 = num [of 8, simplified]
  obtain v0 v4 v8 where v: "parse_uint32_from_buf buf REQUEST_HEADER_LEN = Inr v0"
    "parse_uint32_from_buf buf (REQUEST_HEADER_LEN + 4) = Inr v4"
    "parse_uint32_from_buf buf (REQUEST_HEADER_LEN + 8) = Inr v8"
    using num0 num4 num8 by blast
  obtain s0 s12 where s: "cstrn buf REQUEST_HEADER_LEN (unat (rq_body_len header)) = Inr s0"
    "cstrn buf (REQUEST_HEADER_LEN + 12) (unat (rq_body_len header - 12)) = Inr s12"
    using str0 str12 by blast
  have user: "\<exists>r. request_parse_user header buf REQUEST_HEADER_LEN = Inr r"
    using v s by (simp add: request_parse_user_def Let_def)
  have conv: "\<exists>r. request_parse_conv header buf REQUEST_HEADER_LEN = Inr r"
    using v s by (simp add: request_parse_conv_def Let_def)
  have chat: "\<exists>r. request_parse_chat header buf REQUEST_HEADER_LEN = Inr r"
    using v by (simp add: request_parse_chat_def Let_def)
  have msg: "\<exists>r. request_parse_msg header buf REQUEST_HEADER_LEN = Inr r"
    using v s by (simp add: request_parse_msg_def Let_def)
  show ?thesis
    using request_parse_auth_safe [OF assms(3,4)] user conv chat msg
    by (simp add: request_parse_body_def)
qed

section \<open>Properties\<close>

text \<open>
  C12: On every zero-terminated buffer of the server's size whose header announces a body of
  at most \<^verbatim>\<open>REQUEST_BODY_LEN\<close> bytes, \<^verbatim>\<open>request_parse\<close> reads and writes inside its arrays, for
  every group, action and body, well-formed or not.
\<close>

theorem request_parse_safe:
  assumes "length buf = REQUEST_LEN + 1" and "last buf = 0"
    and "request_parse_header buf = Inr header"
    and "unat (rq_body_len header) \<le> REQUEST_BODY_LEN"
  shows "\<exists>r. request_parse buf = Inr r"
proof -
  have "buf \<noteq> []" using assms(1) by auto
  then have "\<exists>r. request_parse_body header buf = Inr r"
    using assms by (intro request_parse_body_safe) (auto simp: terminated_def request_sizes)
  then show ?thesis
    using assms(3) by (auto simp: request_parse_def)
qed

theorem request_parse_safe_witness:
  "\<exists>r. request_parse (request_header_wire (mk_header 0 0 0 9 9 EMPTY_TOKEN 0 (-1) (-1))
     @ zeros (REQUEST_BODY_LEN + 1)) = Inr r"
  by (rule request_parse_safe [OF _ _ request_parse_header_eq])
    (simp_all add: mk_header_def length_request_header_wire EMPTY_TOKEN_def request_sizes)

text \<open>
  C40: The bound is needed: the server's parser follows a longer announced length out of the
  buffer, for every registration or login request whose header announces more than the
  buffer holds.
\<close>

theorem request_parse_overread:
  assumes "length buf = REQUEST_LEN + 1" and "request_parse_header buf = Inr header"
    and "rq_group header = 0" and "REQUEST_BODY_LEN + 1 < unat (rq_body_len header)"
  shows "request_parse buf = Inl Out_Of_Bounds"
  using assms
  by (simp add: request_parse_def request_parse_body_def request_parse_auth_def mem_read_def
      request_sizes)

theorem request_parse_overread_witness:
  "request_parse (request_header_wire (mk_header 0 1 0 10000 10000 EMPTY_TOKEN 0 (-1) (-1))
     @ zeros (REQUEST_BODY_LEN + 1)) = Inl Out_Of_Bounds"
  by (rule request_parse_overread [OF _ request_parse_header_eq])
    (simp_all add: mk_header_def length_request_header_wire EMPTY_TOKEN_def request_sizes)

end
