(* ===== verification/Sll.thy ===== *)
theory Sll
  imports Prelude
begin

text \<open>
  \<^verbatim>\<open>server/src/utils/sll.c\<close>: the singly linked list of the server, on an explicit heap.
  A pointer is a machine word, zero is \<^verbatim>\<open>NULL\<close>, a \<^verbatim>\<open>Jval\<close> is its eight bytes. \<^verbatim>\<open>malloc\<close> is
  the argument \<open>p\<close> of the operation that allocates. The loops follow the \<open>next\<close> pointers
  and may run for ever on a cyclic heap, so they are partial functions: \<open>None\<close> stands for
  a loop that does not end, for a pointer followed to memory that is not allocated and for
  a failed assertion. The theorems show that on a well-formed list every operation returns
  and does to the heap what the list operation of the same name does to the list.
\<close>

type_synonym ptr = "64 word"
type_synonym jval = "64 word"

record sllnode =
  val :: jval
  "next" :: ptr

type_synonym heap = "ptr \<rightharpoonup> sllnode"
type_synonym sll = "ptr \<times> heap"

section \<open>The operations\<close>

definition sll_insert_node :: "ptr \<Rightarrow> jval \<Rightarrow> sll \<Rightarrow> sll option" where
  "sll_insert_node p v s =
     (case s of (head, h) \<Rightarrow>
       if p = 0 then None
       else Some (p, h(p \<mapsto> \<lparr>val = v, next = head\<rparr>)))"

partial_function (option) sll_length_loop :: "heap \<Rightarrow> ptr \<Rightarrow> nat \<Rightarrow> nat option" where
  "sll_length_loop h head cnt =
     (if head = 0 then Some cnt
      else case h head of
        None \<Rightarrow> None
      | Some nd \<Rightarrow> sll_length_loop h (next nd) (cnt + 1))"

definition sll_length :: "sll \<Rightarrow> nat option" where
  "sll_length s = sll_length_loop (snd s) (fst s) 0"

text \<open>
  The result of the search is the node found and the node before it, both \<^verbatim>\<open>NULL\<close> when the
  value does not occur.
\<close>

partial_function (option) sll_find_loop ::
    "heap \<Rightarrow> jval \<Rightarrow> ptr \<Rightarrow> ptr \<Rightarrow> (ptr \<times> ptr) option" where
  "sll_find_loop h v node prev =
     (if node = 0 then Some (0, 0)
      else case h node of
        None \<Rightarrow> None
      | Some nd \<Rightarrow>
          if val nd = v then Some (node, prev)
          else sll_find_loop h v (next nd) node)"

definition sll_find_node :: "jval \<Rightarrow> sll \<Rightarrow> (ptr \<times> ptr) option" where
  "sll_find_node v s = sll_find_loop (snd s) v (fst s) 0"

text \<open>
  Unlinking \<open>node\<close> after \<open>prev\<close>: \<^verbatim>\<open>if(prev) prev->next = node->next\<close>, then the head moves
  on if it is the node.
\<close>

definition unlink :: "ptr \<Rightarrow> ptr \<Rightarrow> sll \<Rightarrow> sll option" where
  "unlink node prev s =
     (case s of (head, h) \<Rightarrow>
       case h node of
         None \<Rightarrow> None
       | Some nd \<Rightarrow>
           (case (if prev = 0 then Some h
                  else case h prev of
                    None \<Rightarrow> None
                  | Some pd \<Rightarrow> Some (h(prev \<mapsto> pd\<lparr>next := next nd\<rparr>))) of
              None \<Rightarrow> None
            | Some h' \<Rightarrow> Some (if node = head then next nd else head, h')))"

definition sll_delete_node :: "jval \<Rightarrow> sll \<Rightarrow> sll option" where
  "sll_delete_node v s =
     (case sll_find_node v s of
        None \<Rightarrow> None
      | Some (node, prev) \<Rightarrow>
          if node = 0 then Some s
          else case unlink node prev s of
            None \<Rightarrow> None
          | Some (head, h) \<Rightarrow> Some (head, h(node := None)))"

text \<open>
  The variants that call \<^verbatim>\<open>func\<close> on a value before its node is freed also return the list
  of the values it was called on, in order.
\<close>

definition sll_delete_free_node :: "jval \<Rightarrow> sll \<Rightarrow> (sll \<times> jval list) option" where
  "sll_delete_free_node v s =
     (case sll_find_node v s of
        None \<Rightarrow> None
      | Some (node, prev) \<Rightarrow>
          if node = 0 then Some (s, [])
          else case unlink node prev s of
            None \<Rightarrow> None
          | Some (head, h) \<Rightarrow> Some ((head, h(node := None)), [v]))"

partial_function (option) sll_remove :: "ptr \<Rightarrow> heap \<Rightarrow> sll option" where
  "sll_remove head h =
     (if head = 0 then Some (0, h)
      else case h head of
        None \<Rightarrow> None
      | Some nd \<Rightarrow> sll_remove (next nd) (h(head := None)))"

partial_function (option) sll_remove_free ::
    "ptr \<Rightarrow> heap \<Rightarrow> jval list \<Rightarrow> (sll \<times> jval list) option" where
  "sll_remove_free head h calls =
     (if head = 0 then Some ((0, h), calls)
      else case h head of
        None \<Rightarrow> None
      | Some nd \<Rightarrow> sll_remove_free (next nd) (h(head := None)) (calls @ [val nd]))"

section \<open>Well-formed lists\<close>

text \<open>
  \<open>sll_seg h p xs q\<close>: from \<open>p\<close> the \<open>next\<close> pointers lead through exactly the nodes
  of \<open>xs\<close> (their addresses and values, in order) to \<open>q\<close>.
\<close>

fun sll_seg :: "heap \<Rightarrow> ptr \<Rightarrow> (ptr \<times> jval) list \<Rightarrow> ptr \<Rightarrow> bool" where
  "sll_seg h p [] q \<longleftrightarrow> p = q"
| "sll_seg h p ((a, v) # xs) q \<longleftrightarrow>
     p = a \<and> a \<noteq> 0 \<and>
     (case h a of None \<Rightarrow> False | Some nd \<Rightarrow> val nd = v \<and> sll_seg h (next nd) xs q)"

definition sll_at :: "sll \<Rightarrow> (ptr \<times> jval) list \<Rightarrow> bool" where
  "sll_at s xs \<longleftrightarrow> sll_seg (snd s) (fst s) xs 0 \<and> distinct (map fst xs)"

definition sll_vals :: "sll \<Rightarrow> jval list \<Rightarrow> bool" where
  "sll_vals s vs \<longleftrightarrow> (\<exists>xs. sll_at s xs \<and> map snd xs = vs)"

lemma sll_seg_append:
  "sll_seg h p (xs @ ys) q \<longleftrightarrow> (\<exists>r. sll_seg h p xs r \<and> sll_seg h r ys q)"
  by (induction xs arbitrary: p) (auto split: option.splits)

lemma sll_seg_upd: "a \<notin> fst ` set xs \<Longrightarrow> sll_seg (h(a := x)) p xs q = sll_seg h p xs q"
  by (induction xs arbitrary: p) (auto split: option.splits)

lemma sll_seg_dom: "sll_seg h p xs q \<Longrightarrow> fst ` set xs \<subseteq> dom h"
  by (induction xs arbitrary: p) (fastforce split: option.splits)+

lemma sll_seg_nonnull: "sll_seg h p xs q \<Longrightarrow> (a, v) \<in> set xs \<Longrightarrow> a \<noteq> 0"
  by (induction xs arbitrary: p) (fastforce split: option.splits)+

lemma sll_at_Nil [simp]: "sll_at (p, h) [] \<longleftrightarrow> p = 0"
  by (simp add: sll_at_def)

lemma sll_at_ConsE:
  assumes "sll_at (p, h) ((a, v) # xs)"
  obtains nd where "p = a" "a \<noteq> 0" "h a = Some nd" "val nd = v" "sll_at (next nd, h) xs"
    "a \<notin> fst ` set xs"
  using assms by (auto simp: sll_at_def split: option.splits)

section \<open>Correctness of the operations\<close>

lemma sll_insert_node_correct:
  assumes "sll_at s xs" and "p \<noteq> 0" and "p \<notin> dom (snd s)"
  shows "\<exists>s'. sll_insert_node p v s = Some s' \<and> sll_at s' ((p, v) # xs)"
proof -
  obtain head h where s: "s = (head, h)" by (cases s)
  have "p \<notin> fst ` set xs"
    using assms sll_seg_dom [of h head xs 0] by (auto simp: s sll_at_def)
  with assms show ?thesis
    by (auto simp: s sll_insert_node_def sll_at_def sll_seg_upd)
qed

lemma sll_length_loop_correct:
  "sll_seg h p xs 0 \<Longrightarrow> sll_length_loop h p n = Some (n + length xs)"
proof (induction xs arbitrary: p n)
  case Nil
  then show ?case by (simp add: sll_length_loop.simps)
next
  case (Cons x xs)
  obtain a v where x: "x = (a, v)" by (cases x)
  from Cons.prems obtain nd where nd: "p = a" "a \<noteq> 0" "h a = Some nd" "sll_seg h (next nd) xs 0"
    by (auto simp: x split: option.splits)
  from Cons.IH [OF nd(4), of "Suc n"] nd show ?case
    by (subst sll_length_loop.simps) simp
qed

lemma sll_find_loop_skip:
  "sll_seg h p xs q \<Longrightarrow> v \<notin> snd ` set xs \<Longrightarrow>
   sll_find_loop h v p r = sll_find_loop h v q (last (r # map fst xs))"
proof (induction xs arbitrary: p r)
  case Nil
  then show ?case by simp
next
  case (Cons x xs)
  obtain a w where x: "x = (a, w)" by (cases x)
  from Cons.prems obtain nd where
    nd: "p = a" "a \<noteq> 0" "h a = Some nd" "val nd = w" "sll_seg h (next nd) xs q" and "v \<noteq> w"
    by (auto simp: x split: option.splits)
  with Cons.IH [OF nd(5), of a] Cons.prems(2) show ?case
    by (subst sll_find_loop.simps) (simp add: x)
qed

lemma sll_find_node_absent:
  "sll_at s xs \<Longrightarrow> v \<notin> snd ` set xs \<Longrightarrow> sll_find_node v s = Some (0, 0)"
  unfolding sll_find_node_def sll_at_def
  by (subst sll_find_loop_skip [where q = 0 and xs = xs]) (auto simp: sll_find_loop.simps)

lemma sll_find_node_present:
  assumes "sll_at s (xs @ (a, v) # ys)" and "v \<notin> snd ` set xs"
  shows "sll_find_node v s = Some (a, last (0 # map fst xs))"
proof -
  have seg: "sll_seg (snd s) (fst s) xs a" and a: "sll_seg (snd s) a ((a, v) # ys) 0"
    using assms(1) by (auto simp: sll_at_def sll_seg_append)
  have "sll_find_node v s = sll_find_loop (snd s) v a (last (0 # map fst xs))"
    unfolding sll_find_node_def by (rule sll_find_loop_skip [OF seg assms(2)])
  also have "\<dots> = Some (a, last (0 # map fst xs))"
    using a by (subst sll_find_loop.simps) (auto split: option.splits)
  finally show ?thesis .
qed

text \<open>Unlinking a node joins what is before it with what is after it.\<close>

lemma unlink_correct:
  assumes "sll_at s (xs @ (a, v) # ys)"
  shows "\<exists>head h. unlink a (last (0 # map fst xs)) s = Some (head, h) \<and>
    sll_at (head, h(a := None)) (xs @ ys) \<and> dom (h(a := None)) = dom (snd s) - {a}"
proof -
  obtain head h where s: "s = (head, h)" by (cases s)
  have seg: "sll_seg h head xs a" and tl: "sll_seg h a ((a, v) # ys) 0"
    and dist: "distinct (map fst (xs @ (a, v) # ys))"
    using assms by (auto simp: s sll_at_def sll_seg_append)
  from tl obtain nd where nd: "h a = Some nd" "a \<noteq> 0" "sll_seg h (next nd) ys 0"
    by (auto split: option.splits)
  have a: "a \<notin> fst ` set xs" "a \<notin> fst ` set ys"
    using dist by auto
  show ?thesis
  proof (cases xs rule: rev_cases)
    case Nil
    with seg nd a dist show ?thesis
      by (auto simp: s unlink_def sll_at_def sll_seg_upd)
  next
    case (snoc zs z)
    obtain b w where z: "z = (b, w)" by (cases z)
    from seg obtain pd where pd: "sll_seg h head zs b" "b \<noteq> 0" "h b = Some pd" "val pd = w"
      by (auto simp: snoc z sll_seg_append split: option.splits)
    have b: "b \<noteq> a" "b \<notin> fst ` set zs" "b \<notin> fst ` set ys" "a \<notin> fst ` set zs"
      using dist by (auto simp: snoc z)
    have "head \<noteq> a"
      using pd(1) b by (cases zs) (auto split: option.splits)
    then show ?thesis
      using nd pd a b dist
      by (auto simp: s snoc z unlink_def sll_at_def sll_seg_append sll_seg_upd)
  qed
qed

lemma first_occurrence:
  assumes "v \<in> snd ` set xs"
  obtains ys a zs where "xs = ys @ (a, v) # zs" and "v \<notin> snd ` set ys"
  using assms split_list_first [of v "map snd xs"]
  by (auto simp: map_eq_append_conv)

lemma sll_at_vals: "sll_at s xs \<Longrightarrow> sll_vals s (map snd xs)"
  by (auto simp: sll_vals_def)

lemma remove1_first: "v \<notin> set xs \<Longrightarrow> remove1 v (xs @ v # ys) = xs @ ys"
  by (simp add: remove1_append)

lemma sll_delete_free_node_correct:
  assumes "sll_at s xs"
  shows "\<exists>s' ys. sll_delete_free_node v s = Some (s', if v \<in> snd ` set xs then [v] else []) \<and>
    sll_at s' ys \<and> map snd ys = remove1 v (map snd xs) \<and> set ys \<subseteq> set xs \<and>
    dom (snd s') = dom (snd s) - (fst ` set xs - fst ` set ys)"
proof (cases "v \<in> snd ` set xs")
  case False
  with assms show ?thesis
    by (auto simp: sll_delete_free_node_def sll_find_node_absent remove1_idem)
next
  case True
  then obtain ys a zs where xs: "xs = ys @ (a, v) # zs" and v: "v \<notin> snd ` set ys"
    by (rule first_occurrence)
  have find: "sll_find_node v s = Some (a, last (0 # map fst ys))"
    using assms v by (simp add: xs sll_find_node_present)
  obtain head h where un: "unlink a (last (0 # map fst ys)) s = Some (head, h)"
    and at: "sll_at (head, h(a := None)) (ys @ zs)"
    and dom: "dom (h(a := None)) = dom (snd s) - {a}"
    using unlink_correct assms unfolding xs by blast
  have "a \<noteq> 0" and "a \<notin> fst ` set (ys @ zs)"
    using assms sll_seg_nonnull [of "snd s" "fst s" xs 0] by (auto simp: xs sll_at_def)
  then have "fst ` set xs - fst ` set (ys @ zs) = {a}"
    by (auto simp: xs)
  moreover have "v \<notin> set (map snd ys)"
    using v by simp
  ultimately show ?thesis
    using find un at dom \<open>a \<noteq> 0\<close> True
    by (intro exI [of _ "(head, h(a := None))"] exI [of _ "ys @ zs"])
      (auto simp: xs sll_delete_free_node_def remove1_first)
qed

lemma sll_delete_node_eq:
  "sll_delete_node v s = map_option fst (sll_delete_free_node v s)"
  by (auto simp: sll_delete_node_def sll_delete_free_node_def split: option.splits)

lemma restrict_free: "(h(a := None)) |` (- A) = h |` (- insert a A)"
  by (auto simp: restrict_map_def fun_eq_iff)

lemma sll_remove_free_correct:
  "sll_at (p, h) xs \<Longrightarrow>
   sll_remove_free p h cs = Some ((0, h |` (- (fst ` set xs))), cs @ map snd xs)"
proof (induction xs arbitrary: p h cs)
  case Nil
  then show ?case by (simp add: sll_remove_free.simps)
next
  case (Cons x xs)
  obtain a v where x: "x = (a, v)" by (cases x)
  from Cons.prems obtain nd where
    nd: "p = a" "a \<noteq> 0" "h a = Some nd" "val nd = v" "sll_at (next nd, h) xs" "a \<notin> fst ` set xs"
    unfolding x by (rule sll_at_ConsE)
  then have "sll_at (next nd, h(a := None)) xs"
    by (simp add: sll_at_def sll_seg_upd)
  then have "sll_remove_free (next nd) (h(a := None)) (cs @ [v]) =
      Some ((0, h |` (- insert a (fst ` set xs))), (cs @ [v]) @ map snd xs)"
    unfolding restrict_free [symmetric] by (rule Cons.IH)
  then show ?case
    by (subst sll_remove_free.simps) (simp add: x nd)
qed

lemma sll_remove_correct:
  "sll_at (p, h) xs \<Longrightarrow> sll_remove p h = Some (0, h |` (- (fst ` set xs)))"
proof (induction xs arbitrary: p h)
  case Nil
  then show ?case by (simp add: sll_remove.simps)
next
  case (Cons x xs)
  obtain a v where x: "x = (a, v)" by (cases x)
  from Cons.prems obtain nd where
    nd: "p = a" "a \<noteq> 0" "h a = Some nd" "val nd = v" "sll_at (next nd, h) xs" "a \<notin> fst ` set xs"
    unfolding x by (rule sll_at_ConsE)
  then have "sll_at (next nd, h(a := None)) xs"
    by (simp add: sll_at_def sll_seg_upd)
  then have "sll_remove (next nd) (h(a := None)) = Some (0, h |` (- insert a (fst ` set xs)))"
    unfolding restrict_free [symmetric] by (rule Cons.IH)
  then show ?case
    by (subst sll_remove.simps) (simp add: x nd)
qed

section \<open>The list as its clients see it\<close>

text \<open>
  What the string registry needs of the list: a state that represents a list of values,
  insertion at the front, deletion of one value with the callback called on it, and removal
  of everything with the callback called on every value.
\<close>

locale handle_list =
  fixes rep :: "'s \<Rightarrow> 'v list \<Rightarrow> bool"
    and fresh :: "'p \<Rightarrow> 's \<Rightarrow> bool"
    and ins :: "'p \<Rightarrow> 'v \<Rightarrow> 's \<Rightarrow> 's option"
    and del :: "'v \<Rightarrow> 's \<Rightarrow> ('s \<times> 'v list) option"
    and clear :: "'s \<Rightarrow> ('s \<times> 'v list) option"
  assumes ins_law: "rep s vs \<Longrightarrow> fresh p s \<Longrightarrow> \<exists>s'. ins p v s = Some s' \<and> rep s' (v # vs)"
    and del_law: "rep s vs \<Longrightarrow>
      \<exists>s'. del v s = Some (s', if v \<in> set vs then [v] else []) \<and> rep s' (remove1 v vs)"
    and clear_law: "rep s vs \<Longrightarrow> \<exists>s'. clear s = Some (s', vs) \<and> rep s' []"
begin

lemma del_absent: "rep s vs \<Longrightarrow> v \<notin> set vs \<Longrightarrow> \<exists>s'. del v s = Some (s', []) \<and> rep s' vs"
  using del_law [of s vs v] by (simp add: remove1_idem)

lemma del_present:
  "rep s vs \<Longrightarrow> v \<in> set vs \<Longrightarrow> \<exists>s'. del v s = Some (s', [v]) \<and> rep s' (remove1 v vs)"
  using del_law [of s vs v] by simp

text \<open>Deleting a value a second time calls nothing back when the values are distinct.\<close>

lemma del_twice:
  assumes "rep s vs" and "distinct vs" and "del v s = Some (s', cs)"
  shows "\<exists>s''. del v s' = Some (s'', []) \<and> rep s'' (remove1 v vs)"
proof -
  have "rep s' (remove1 v vs)"
    using del_law [OF assms(1), of v] assms(3) by auto
  moreover have "v \<notin> set (remove1 v vs)"
    using assms(2) by simp
  ultimately show ?thesis by (rule del_absent)
qed

end

text \<open>
  The linked list is such a list. \<open>sll_owns s vs\<close>: the list holds the values \<open>vs\<close> and
  its nodes are all there is on the heap.
\<close>

definition sll_owns :: "sll \<Rightarrow> jval list \<Rightarrow> bool" where
  "sll_owns s vs \<longleftrightarrow> (\<exists>xs. sll_at s xs \<and> map snd xs = vs \<and> fst ` set xs = dom (snd s))"

definition sll_fresh :: "ptr \<Rightarrow> sll \<Rightarrow> bool" where
  "sll_fresh p s \<longleftrightarrow> p \<noteq> 0 \<and> p \<notin> dom (snd s)"

definition sll_clear :: "sll \<Rightarrow> (sll \<times> jval list) option" where
  "sll_clear s = sll_remove_free (fst s) (snd s) []"

lemma sll_owns_insert:
  assumes "sll_owns s vs" and "sll_fresh p s"
  shows "\<exists>s'. sll_insert_node p v s = Some s' \<and> sll_owns s' (v # vs)"
proof -
  from assms(1) obtain xs where xs: "sll_at s xs" "map snd xs = vs" "fst ` set xs = dom (snd s)"
    by (auto simp: sll_owns_def)
  with assms(2) obtain s' where s': "sll_insert_node p v s = Some s'" "sll_at s' ((p, v) # xs)"
    using sll_insert_node_correct [of s xs p v] by (auto simp: sll_fresh_def)
  then have "dom (snd s') = insert p (dom (snd s))"
    by (auto simp: sll_insert_node_def split: prod.splits if_splits)
  then have "fst ` set ((p, v) # xs) = dom (snd s')"
    using xs(3) by simp
  with s' xs(2) show ?thesis
    unfolding sll_owns_def by (intro exI [of _ s'] conjI exI [of _ "(p, v) # xs"]) simp_all
qed

lemma sll_owns_delete:
  assumes "sll_owns s vs"
  shows "\<exists>s'. sll_delete_free_node v s = Some (s', if v \<in> set vs then [v] else []) \<and>
    sll_owns s' (remove1 v vs)"
proof -
  from assms obtain xs where xs: "sll_at s xs" "map snd xs = vs" "fst ` set xs = dom (snd s)"
    by (auto simp: sll_owns_def)
  obtain s' ys where s':
    "sll_delete_free_node v s = Some (s', if v \<in> snd ` set xs then [v] else [])"
    "sll_at s' ys" "map snd ys = remove1 v (map snd xs)" "set ys \<subseteq> set xs"
    "dom (snd s') = dom (snd s) - (fst ` set xs - fst ` set ys)"
    using sll_delete_free_node_correct [OF xs(1), of v] by blast
  have "fst ` set ys = dom (snd s')"
    using s'(5) image_mono [OF s'(4), of fst] unfolding xs(3) by (simp add: double_diff)
  moreover have "set vs = snd ` set xs"
    using xs(2) by (simp flip: xs(2))
  ultimately show ?thesis
    using s'(1-3) xs(2) unfolding sll_owns_def by (intro exI [of _ s'] conjI exI [of _ ys]) simp_all
qed

lemma sll_owns_clear:
  assumes "sll_owns s vs"
  shows "\<exists>s'. sll_clear s = Some (s', vs) \<and> sll_owns s' []"
proof -
  from assms obtain xs where xs: "sll_at s xs" "map snd xs = vs" "fst ` set xs = dom (snd s)"
    by (auto simp: sll_owns_def)
  then have "sll_clear s = Some ((0, snd s |` (- (fst ` set xs))), vs)"
    using sll_remove_free_correct [of "fst s" "snd s" xs "[]"] by (simp add: sll_clear_def)
  moreover have "snd s |` (- (fst ` set xs)) = Map.empty"
    using xs(3) by (auto simp: restrict_map_def fun_eq_iff domIff)
  ultimately show ?thesis
    by (auto simp: sll_owns_def)
qed

interpretation sl: handle_list sll_owns sll_fresh sll_insert_node sll_delete_free_node sll_clear
  by unfold_locales (blast intro: sll_owns_insert sll_owns_delete sll_owns_clear)+

lemma sll_owns_length: "sll_owns s vs \<Longrightarrow> sll_length s = Some (length vs)"
  by (auto simp: sll_owns_def sll_at_def sll_length_def sll_length_loop_correct)

lemma sll_owns_find:
  assumes "sll_owns s vs"
  shows "\<exists>node prev. sll_find_node v s = Some (node, prev) \<and> (node \<noteq> 0 \<longleftrightarrow> v \<in> set vs) \<and>
    (node \<noteq> 0 \<longrightarrow> map_option val (snd s node) = Some v)"
proof -
  from assms obtain xs where xs: "sll_at s xs" "map snd xs = vs"
    by (auto simp: sll_owns_def)
  show ?thesis
  proof (cases "v \<in> snd ` set xs")
    case False
    with xs show ?thesis by (auto simp: sll_find_node_absent)
  next
    case True
    then obtain ys a zs where split: "xs = ys @ (a, v) # zs" "v \<notin> snd ` set ys"
      by (rule first_occurrence)
    have "a \<noteq> 0" and "map_option val (snd s a) = Some v"
      using xs(1) unfolding split sll_at_def sll_seg_append by (auto split: option.splits)
    then show ?thesis
      using sll_find_node_present [of s ys a v zs] xs split by auto
  qed
qed

section \<open>Properties\<close>

text \<open>
  C31: On every well-formed linked list the operations of \<^verbatim>\<open>sll.c\<close> end and do to the heap what
  the list operations do to the list of its values: the length is the length, a search
  succeeds exactly on the values of the list, deleting removes the first occurrence and
  frees its node, and the callback is called once on a value that was there and never on
  another.
\<close>

theorem sll_refines_list:
  assumes "sll_owns s vs"
  shows "sll_length s = Some (length vs) \<and>
    (\<exists>node prev. sll_find_node v s = Some (node, prev) \<and> (node \<noteq> 0 \<longleftrightarrow> v \<in> set vs) \<and>
      (node \<noteq> 0 \<longrightarrow> map_option val (snd s node) = Some v)) \<and>
    (sll_fresh p s \<longrightarrow> (\<exists>s'. sll_insert_node p v s = Some s' \<and> sll_owns s' (v # vs))) \<and>
    (\<exists>s'. sll_delete_node v s = Some s' \<and> sll_owns s' (remove1 v vs)) \<and>
    (\<exists>s'. sll_delete_free_node v s = Some (s', if v \<in> set vs then [v] else []) \<and>
      sll_owns s' (remove1 v vs))"
  using sll_owns_length [OF assms] sll_owns_find [OF assms, of v] sl.ins_law [OF assms, of p v]
    sl.del_law [OF assms, of v]
  by (fastforce simp: sll_delete_node_eq)

definition example_list :: sll where
  "example_list = (8, [8 \<mapsto> \<lparr>val = 5, next = 16\<rparr>, 16 \<mapsto> \<lparr>val = 6, next = 0\<rparr>])"

lemma example_list_owns: "sll_owns example_list [5, 6]"
  unfolding sll_owns_def
  by (intro exI [of _ "[(8, 5), (16, 6)]"]) (auto simp: example_list_def sll_at_def)

theorem sll_refines_list_witness:
  "sll_length example_list = Some 2 \<and>
   (\<exists>s'. sll_insert_node 24 9 example_list = Some s' \<and> sll_owns s' [9, 5, 6]) \<and>
   (\<exists>s'. sll_delete_free_node 6 example_list = Some (s', [6]) \<and> sll_owns s' [5])"
  using sll_refines_list [OF example_list_owns, of 6 24]
    sll_refines_list [OF example_list_owns, of 9 24]
  by (simp add: sll_fresh_def example_list_def)

text \<open>
  Removing a whole list with \<^verbatim>\<open>sll_remove_free\<close> ends, calls the callback once on each value in
  the order of the list and leaves no node allocated; \<^verbatim>\<open>sll_remove\<close> does the same to the heap.
\<close>

theorem sll_remove_frees_all:
  assumes "sll_owns s vs"
  shows "sll_remove_free (fst s) (snd s) [] = Some ((0, Map.empty), vs) \<and>
    sll_remove (fst s) (snd s) = Some (0, Map.empty)"
proof -
  from assms obtain xs where xs: "sll_at (fst s, snd s) xs" "map snd xs = vs" "fst ` set xs = dom (snd s)"
    by (auto simp: sll_owns_def)
  have "snd s |` (- (fst ` set xs)) = Map.empty"
    using xs(3) by (auto simp: restrict_map_def fun_eq_iff domIff)
  with sll_remove_free_correct [OF xs(1), of "[]"] sll_remove_correct [OF xs(1)] xs(2)
  show ?thesis by simp
qed

theorem sll_remove_frees_all_witness:
  "sll_remove_free (fst example_list) (snd example_list) [] = Some ((0, Map.empty), [5, 6]) \<and>
   sll_remove (fst example_list) (snd example_list) = Some (0, Map.empty)"
  by (rule sll_remove_frees_all [OF example_list_owns])

end
