(* ===== verification/Strings.thy ===== *)
theory Strings
  imports Bytes Sll
begin

text \<open>
  \<^verbatim>\<open>server/src/utils/string.c\<close>: the registry of heap-allocated strings. Every string the
  server keeps is allocated by one of the four constructors, which also enter its address
  in a linked list; \<^verbatim>\<open>string_remove\<close> takes one out and frees it, \<^verbatim>\<open>string_clean\<close> frees them all.
  The state is the linked list of \<open>Sll\<close> and the memory of the strings themselves. The
  mutex around each list operation is locked and unlocked within the function, so it has
  no place in the sequential state. The addresses \<^verbatim>\<open>malloc\<close> returns are arguments, \<open>p\<close>
  for the string and \<open>q\<close> for the node; \<open>None\<close> is undefined behaviour.
\<close>

record pool =
  pl_list :: sll
  pl_mem :: "ptr \<rightharpoonup> bytes"

definition empty_pool :: pool where
  "empty_pool = \<lparr>pl_list = (0, Map.empty), pl_mem = Map.empty\<rparr>"

text \<open>The common end of the constructors: the new string enters the list.\<close>

definition register :: "ptr \<Rightarrow> ptr \<Rightarrow> bytes \<Rightarrow> pool \<Rightarrow> pool option" where
  "register q p content st =
     (if p = 0 then None
      else case sll_insert_node q p (pl_list st) of
        None \<Rightarrow> None
      | Some l \<Rightarrow> Some (st\<lparr>pl_list := l, pl_mem := (pl_mem st)(p \<mapsto> content)\<rparr>))"

definition string_new :: "ptr \<Rightarrow> ptr \<Rightarrow> bytes \<Rightarrow> pool \<Rightarrow> pool option" where
  "string_new q p str st = register q p (str @ [0]) st"

text \<open>\<^verbatim>\<open>strncpy\<close> stops reading at a zero and fills up with zeros; then the last byte is set.\<close>

definition string_new_n :: "ptr \<Rightarrow> ptr \<Rightarrow> bytes \<Rightarrow> nat \<Rightarrow> pool \<Rightarrow> pool option" where
  "string_new_n q p src n st =
     (case cstrn src 0 n of
        Inl _ \<Rightarrow> None
      | Inr s \<Rightarrow> register q p (s @ zeros (n - length s) @ [0]) st)"

definition string_mem_n :: "ptr \<Rightarrow> ptr \<Rightarrow> bytes \<Rightarrow> nat \<Rightarrow> pool \<Rightarrow> pool option" where
  "string_mem_n q p src n st =
     (case mem_read src 0 n of Inl _ \<Rightarrow> None | Inr s \<Rightarrow> register q p s st)"

definition string_append :: "ptr \<Rightarrow> ptr \<Rightarrow> bytes \<Rightarrow> bytes \<Rightarrow> pool \<Rightarrow> pool option" where
  "string_append q p str1 str2 st = register q p (str1 @ str2 @ [0]) st"

text \<open>\<^verbatim>\<open>free\<close> of an address that is not allocated is undefined.\<close>

definition free_node :: "jval \<Rightarrow> (ptr \<rightharpoonup> bytes) \<Rightarrow> (ptr \<rightharpoonup> bytes) option" where
  "free_node v m = (case m v of None \<Rightarrow> None | Some _ \<Rightarrow> Some (m(v := None)))"

fun free_nodes :: "jval list \<Rightarrow> (ptr \<rightharpoonup> bytes) \<Rightarrow> (ptr \<rightharpoonup> bytes) option" where
  "free_nodes [] m = Some m"
| "free_nodes (v # vs) m = (case free_node v m of None \<Rightarrow> None | Some m' \<Rightarrow> free_nodes vs m')"

definition string_remove :: "ptr \<Rightarrow> pool \<Rightarrow> pool option" where
  "string_remove str st =
     (case sll_delete_free_node str (pl_list st) of
        None \<Rightarrow> None
      | Some (l, calls) \<Rightarrow>
          (case free_nodes calls (pl_mem st) of
             None \<Rightarrow> None
           | Some m \<Rightarrow> Some (st\<lparr>pl_list := l, pl_mem := m\<rparr>)))"

definition string_clean :: "pool \<Rightarrow> pool option" where
  "string_clean st =
     (case sll_remove_free (fst (pl_list st)) (snd (pl_list st)) [] of
        None \<Rightarrow> None
      | Some (l, calls) \<Rightarrow>
          (case free_nodes calls (pl_mem st) of
             None \<Rightarrow> None
           | Some m \<Rightarrow> Some (st\<lparr>pl_list := (0, snd l), pl_mem := m\<rparr>)))"

section \<open>The invariant of the registry\<close>

text \<open>
  The list holds each registered address once, these are exactly the allocated strings, and
  its nodes are all there is on its heap.
\<close>

definition pool_ok :: "pool \<Rightarrow> bool" where
  "pool_ok st \<longleftrightarrow>
     (\<exists>vs. sll_owns (pl_list st) vs \<and> distinct vs \<and> set vs = dom (pl_mem st))"

lemma pool_ok_empty: "pool_ok empty_pool"
  by (auto simp: pool_ok_def empty_pool_def sll_owns_def intro!: exI [of _ "[]"])

lemma register_ok:
  assumes "pool_ok st" and "p \<noteq> 0" and "p \<notin> dom (pl_mem st)" and "sll_fresh q (pl_list st)"
  shows "\<exists>st'. register q p s st = Some st' \<and> pool_ok st' \<and> pl_mem st' = (pl_mem st)(p \<mapsto> s)"
proof -
  from assms(1) obtain vs where vs: "sll_owns (pl_list st) vs" "distinct vs" "set vs = dom (pl_mem st)"
    by (auto simp: pool_ok_def)
  from sl.ins_law [OF vs(1) assms(4)] obtain l
    where l: "sll_insert_node q p (pl_list st) = Some l" "sll_owns l (p # vs)" by blast
  from vs assms(2,3) l show ?thesis
    by (auto simp: register_def pool_ok_def intro!: exI [of _ "p # vs"])
qed

lemma free_nodes_distinct:
  "distinct vs \<Longrightarrow> set vs \<subseteq> dom m \<Longrightarrow> free_nodes vs m = Some (m |` (- set vs))"
proof (induction vs arbitrary: m)
  case Nil
  then show ?case by simp
next
  case (Cons v vs)
  then obtain s where s: "m v = Some s" by auto
  have "free_nodes vs (m(v := None)) = Some (m |` (- insert v (set vs)))"
    unfolding restrict_free [symmetric] using Cons.prems by (intro Cons.IH) auto
  then show ?case by (simp add: free_node_def s)
qed

lemma string_remove_ok:
  assumes "pool_ok st"
  shows "\<exists>st'. string_remove p st = Some st' \<and> pool_ok st' \<and> pl_mem st' = (pl_mem st)(p := None)"
proof -
  from assms obtain vs where vs: "sll_owns (pl_list st) vs" "distinct vs" "set vs = dom (pl_mem st)"
    by (auto simp: pool_ok_def)
  from sl.del_law [OF vs(1), of p] obtain l
    where l: "sll_delete_free_node p (pl_list st) = Some (l, if p \<in> set vs then [p] else [])"
      "sll_owns l (remove1 p vs)" by blast
  have "free_nodes (if p \<in> set vs then [p] else []) (pl_mem st) = Some ((pl_mem st)(p := None))"
    using vs(3) by (auto simp: free_node_def fun_eq_iff domIff split: option.splits)
  moreover have "set (remove1 p vs) = dom ((pl_mem st)(p := None))"
    using vs(2,3) by auto
  moreover have "distinct (remove1 p vs)"
    using vs(2) by simp
  ultimately show ?thesis
    using l unfolding string_remove_def pool_ok_def by fastforce
qed

lemma string_clean_ok:
  assumes "pool_ok st"
  shows "\<exists>st'. string_clean st = Some st' \<and> pool_ok st' \<and> pl_mem st' = Map.empty \<and>
    pl_list st' = (0, Map.empty)"
proof -
  from assms obtain vs where vs: "sll_owns (pl_list st) vs" "distinct vs" "set vs = dom (pl_mem st)"
    by (auto simp: pool_ok_def)
  from sl.clear_law [OF vs(1)] obtain l
    where l: "sll_clear (pl_list st) = Some (l, vs)" "sll_owns l []" by blast
  then have l0: "l = (0, Map.empty)"
    by (cases l) (auto simp: sll_owns_def)
  have "free_nodes vs (pl_mem st) = Some (pl_mem st |` (- set vs))"
    using vs by (simp add: free_nodes_distinct)
  moreover have "pl_mem st |` (- set vs) = Map.empty"
    using vs(3) by (auto simp: restrict_map_def fun_eq_iff domIff)
  ultimately show ?thesis
    using l l0 pool_ok_empty
    by (auto simp: string_clean_def sll_clear_def pool_ok_def empty_pool_def)
qed

section \<open>Histories of the registry\<close>

text \<open>
  The states the registry can reach: every constructor with any addresses \<^verbatim>\<open>malloc\<close> may
  return (not null, not in use), and removal of any pointer, registered or not.
\<close>

inductive pool_reach :: "pool \<Rightarrow> bool" where
  start: "pool_reach empty_pool"
| new: "pool_reach st \<Longrightarrow> p \<noteq> 0 \<Longrightarrow> p \<notin> dom (pl_mem st) \<Longrightarrow> sll_fresh q (pl_list st) \<Longrightarrow>
    string_new q p s st = Some st' \<Longrightarrow> pool_reach st'"
| new_n: "pool_reach st \<Longrightarrow> p \<noteq> 0 \<Longrightarrow> p \<notin> dom (pl_mem st) \<Longrightarrow> sll_fresh q (pl_list st) \<Longrightarrow>
    string_new_n q p s n st = Some st' \<Longrightarrow> pool_reach st'"
| mem_n: "pool_reach st \<Longrightarrow> p \<noteq> 0 \<Longrightarrow> p \<notin> dom (pl_mem st) \<Longrightarrow> sll_fresh q (pl_list st) \<Longrightarrow>
    string_mem_n q p s n st = Some st' \<Longrightarrow> pool_reach st'"
| append: "pool_reach st \<Longrightarrow> p \<noteq> 0 \<Longrightarrow> p \<notin> dom (pl_mem st) \<Longrightarrow> sll_fresh q (pl_list st) \<Longrightarrow>
    string_append q p s1 s2 st = Some st' \<Longrightarrow> pool_reach st'"
| remove: "pool_reach st \<Longrightarrow> string_remove p st = Some st' \<Longrightarrow> pool_reach st'"

lemma register_pool_ok:
  "pool_ok st \<Longrightarrow> p \<noteq> 0 \<Longrightarrow> p \<notin> dom (pl_mem st) \<Longrightarrow> sll_fresh q (pl_list st) \<Longrightarrow>
   register q p s st = Some st' \<Longrightarrow> pool_ok st'"
  using register_ok [of st p q s] by auto

lemma pool_reach_ok: "pool_reach st \<Longrightarrow> pool_ok st"
proof (induction rule: pool_reach.induct)
  case start
  show ?case by (rule pool_ok_empty)
next
  case (remove st p st')
  then show ?case using string_remove_ok [of st p] by auto
qed (auto simp: string_new_def string_new_n_def string_mem_n_def string_append_def
  split: sum.splits intro: register_pool_ok)

section \<open>Properties\<close>

text \<open>
  In every state the string registry can reach, removing any pointer, registered or not,
  ends without a double free and takes away exactly that string, and \<^verbatim>\<open>string_clean\<close> frees every
  string and every node of the list once, leaving nothing allocated.
\<close>

theorem registry_frees_once:
  assumes "pool_reach st"
  shows "(\<exists>st'. string_remove p st = Some st' \<and> pool_ok st' \<and> pl_mem st' = (pl_mem st)(p := None)) \<and>
    (\<exists>st'. string_clean st = Some st' \<and> pl_mem st' = Map.empty \<and> pl_list st' = (0, Map.empty))"
  using string_remove_ok [OF pool_reach_ok [OF assms], of p]
    string_clean_ok [OF pool_reach_ok [OF assms]] by blast

theorem registry_frees_once_witness:
  "\<exists>st. string_new 16 8 [104, 105] empty_pool = Some st \<and>
    (\<exists>st'. string_remove 8 st = Some st' \<and> pool_ok st' \<and> pl_mem st' = (pl_mem st)(8 := None)) \<and>
    (\<exists>st'. string_clean st = Some st' \<and> pl_mem st' = Map.empty \<and> pl_list st' = (0, Map.empty))"
proof -
  obtain st where st: "string_new 16 8 [104, 105] empty_pool = Some st"
    by (simp add: string_new_def register_def empty_pool_def sll_insert_node_def)
  have "pool_reach st"
    by (rule pool_reach.new [OF pool_reach.start _ _ _ st])
      (simp_all add: empty_pool_def sll_fresh_def)
  with st registry_frees_once [of st 8] show ?thesis by blast
qed

end
