(* ===== verification/Response.thy ===== *)
theory Response
  imports Codec
begin

text \<open>
  \<^verbatim>\<open>server/inc/response.h\<close> and \<^verbatim>\<open>server/src/response.c\<close>: the replies of the server, how they
  are written into the buffer of the connection and how the client library parses them. As
  for the requests, a pointer to a string is the string or \<open>None\<close>, a reply that
  \<^verbatim>\<open>response_parse\<close> gives up on (\<^verbatim>\<open>NULL\<close>) is \<open>Inr None\<close>, and leaving an array is the fault
  \<open>Out_Of_Bounds\<close>.
\<close>

section \<open>Data\<close>

definition RESPONSE_LEN :: nat where
  "RESPONSE_LEN = BUFSIZ"

definition RESPONSE_HEADER_LEN :: nat where
  "RESPONSE_HEADER_LEN = 32"

definition RESPONSE_BODY_LEN :: nat where
  "RESPONSE_BODY_LEN = RESPONSE_LEN - RESPONSE_HEADER_LEN"

record response_header =
  rs_group :: byte
  rs_action :: byte
  rs_content_type :: byte
  rs_content_len :: u32
  rs_body_len :: u32
  rs_status_code :: u32
  rs_count :: u32

record response_auth =
  sa_token :: bytes
  sa_user_id :: u32

record response_user =
  su_idls :: "u32 list option"
  su_uname :: "bytes option"
  su_phone :: "bytes option"
  su_email :: "bytes option"

record response_conv =
  sc_idls :: "u32 list option"
  sc_conv_id :: u32
  sc_admin_id :: u32
  sc_gname :: "bytes option"

record response_chat =
  sh_idls :: "u32 list option"
  sh_chat_id :: u32
  sh_member_id1 :: u32
  sh_member_id2 :: u32

record response_msg =
  sm_idls :: "u32 list option"
  sm_msg_id :: u32
  sm_conv_id :: u32
  sm_chat_id :: u32
  sm_from_uid :: u32
  sm_reply_to :: u32
  sm_created_at :: u32
  sm_msg_type :: byte
  sm_content_type :: byte
  sm_content_length :: u32
  sm_msg_content :: "bytes option"

text \<open>The union \<^verbatim>\<open>response_body\<close>, with the member that the group selects.\<close>

datatype response_body =
    S_auth response_auth
  | S_user response_user
  | S_conv response_conv
  | S_chat response_chat
  | S_msg response_msg

record response =
  rs_header :: response_header
  rs_body :: response_body

text \<open>What \<^verbatim>\<open>calloc\<close> leaves in a body.\<close>

definition zero_user :: response_user where
  "zero_user = \<lparr>su_idls = None, su_uname = None, su_phone = None, su_email = None\<rparr>"

definition zero_conv :: response_conv where
  "zero_conv = \<lparr>sc_idls = None, sc_conv_id = 0, sc_admin_id = 0, sc_gname = None\<rparr>"

definition zero_chat :: response_chat where
  "zero_chat = \<lparr>sh_idls = None, sh_chat_id = 0, sh_member_id1 = 0, sh_member_id2 = 0\<rparr>"

definition zero_msg :: response_msg where
  "zero_msg = \<lparr>sm_idls = None, sm_msg_id = 0, sm_conv_id = 0, sm_chat_id = 0, sm_from_uid = 0,
     sm_reply_to = 0, sm_created_at = 0, sm_msg_type = 0, sm_content_type = 0,
     sm_content_length = 0, sm_msg_content = None\<rparr>"

section \<open>Parsing\<close>

text \<open>
  The loop of \<^verbatim>\<open>parse_uint32_list\<close> with the counter \<open>i\<close> and \<open>n\<close> rounds to go; the size of
  the array and the offset of the entry are computed in 32 bits, \<^verbatim>\<open>count << 2\<close> and \<^verbatim>\<open>i << 2\<close>.
\<close>

primrec parse_list_loop :: "bytes \<Rightarrow> nat \<Rightarrow> nat \<Rightarrow> nat \<Rightarrow> u32 \<Rightarrow> u32 list res" where
  "parse_list_loop buf off sz 0 i = Inr []"
| "parse_list_loop buf off sz (Suc n) i =
     bindE (parse_uint32_from_buf buf (off + unat (push_bit 2 i))) (\<lambda>v.
       if unat i * 4 + 4 \<le> sz
       then bindE (parse_list_loop buf off sz n (i + 1)) (\<lambda>vs. Inr (v # vs))
       else Inl Out_Of_Bounds)"

definition parse_uint32_list :: "bytes \<Rightarrow> nat \<Rightarrow> u32 \<Rightarrow> u32 list res" where
  "parse_uint32_list buf off count =
     parse_list_loop buf off (unat (push_bit 2 count)) (unat count) 0"

definition response_field_tokenizer :: "bytes \<Rightarrow> nat \<Rightarrow> (bytes \<times> nat) res" where
  "response_field_tokenizer a rest =
     bindE (scan_field None a rest rest)
       (\<lambda>(a', r). Inr (a', case r of None \<Rightarrow> rest | Some rest' \<Rightarrow> rest'))"

definition response_parse_auth :: "response_header \<Rightarrow> bytes \<Rightarrow> nat \<Rightarrow> response_body option res" where
  "response_parse_auth header buf off =
     bindE (mem_read buf off TOKEN_LEN) (\<lambda>token.
     bindE (parse_uint32_from_buf buf (off + TOKEN_LEN)) (\<lambda>user_id.
       Inr (Some (S_auth \<lparr>sa_token = token, sa_user_id = user_id\<rparr>))))"

definition response_parse_user :: "response_header \<Rightarrow> bytes \<Rightarrow> nat \<Rightarrow> response_body option res" where
  "response_parse_user header buf off =
     (if rs_action header = 1 then
        bindE (mem_read buf off (unat (rs_body_len header))) (\<lambda>copy.
        bindE (Inr (copy @ [0])) (\<lambda>body0.
        bindE (response_field_tokenizer body0 0) (\<lambda>(body1, rest1).
        bindE (response_field_tokenizer body1 rest1) (\<lambda>(body2, rest2).
        bindE (response_field_tokenizer body2 rest2) (\<lambda>(body3, rest3).
        bindE (cstr body3 0) (\<lambda>uname.
        bindE (cstr body3 rest1) (\<lambda>phone.
        bindE (cstr body3 rest2) (\<lambda>email.
          Inr (Some (S_user (zero_user\<lparr>su_uname := Some uname, su_phone := Some phone,
            su_email := Some email\<rparr>)))))))))))
      else if rs_action header = 2 then
        bindE (parse_uint32_list buf off (rs_count header)) (\<lambda>ls.
          Inr (Some (S_user (zero_user\<lparr>su_idls := Some ls\<rparr>))))
      else Inr None)"

definition response_parse_conv :: "response_header \<Rightarrow> bytes \<Rightarrow> nat \<Rightarrow> response_body option res" where
  "response_parse_conv header buf off =
     (if rs_action header = 0 then
        bindE (parse_uint32_from_buf buf off) (\<lambda>c.
          Inr (Some (S_conv (zero_conv\<lparr>sc_conv_id := c\<rparr>))))
      else if rs_action header = 4 then
        bindE (parse_uint32_from_buf buf off) (\<lambda>a.
        bindE (cstrn buf (off + 4) (unat (rs_body_len header - 4))) (\<lambda>g.
          Inr (Some (S_conv (zero_conv\<lparr>sc_admin_id := a, sc_gname := Some g\<rparr>)))))
      else if rs_action header \<in> {5, 6} then
        bindE (parse_uint32_list buf off (rs_count header)) (\<lambda>ls.
          Inr (Some (S_conv (zero_conv\<lparr>sc_idls := Some ls\<rparr>))))
      else Inr None)"

definition response_parse_chat :: "response_header \<Rightarrow> bytes \<Rightarrow> nat \<Rightarrow> response_body option res" where
  "response_parse_chat header buf off =
     (if rs_action header = 0 then
        bindE (parse_uint32_from_buf buf off) (\<lambda>c.
          Inr (Some (S_chat (zero_chat\<lparr>sh_chat_id := c\<rparr>))))
      else if rs_action header = 1 then Inr (Some (S_chat zero_chat))
      else if rs_action header = 2 then
        bindE (parse_uint32_list buf off (rs_count header)) (\<lambda>ls.
          Inr (Some (S_chat (zero_chat\<lparr>sh_idls := Some ls\<rparr>))))
      else if rs_action header = 3 then
        bindE (parse_uint32_from_buf buf off) (\<lambda>m1.
        bindE (parse_uint32_from_buf buf (off + 4)) (\<lambda>m2.
          Inr (Some (S_chat (zero_chat\<lparr>sh_member_id1 := m1, sh_member_id2 := m2\<rparr>)))))
      else Inr None)"

definition response_parse_msg :: "response_header \<Rightarrow> bytes \<Rightarrow> nat \<Rightarrow> response_body option res" where
  "response_parse_msg header buf off =
     (if rs_action header \<in> {0, 4, 5} then
        bindE (parse_uint32_list buf off (rs_count header)) (\<lambda>ls.
          Inr (Some (S_msg (zero_msg\<lparr>sm_idls := Some ls\<rparr>))))
      else if rs_action header = 1 then
        bindE (parse_uint32_from_buf buf off) (\<lambda>msg_id.
        bindE (parse_uint32_from_buf buf (off + 4)) (\<lambda>from_uid.
        bindE (parse_uint32_from_buf buf (off + 8)) (\<lambda>reply_to.
        bindE (parse_uint32_from_buf buf (off + 12)) (\<lambda>conv_id.
        bindE (parse_uint32_from_buf buf (off + 16)) (\<lambda>chat_id.
        bindE (parse_uint32_from_buf buf (off + 20)) (\<lambda>created_at.
        bindE (mem_read buf (off + 24) 2) (\<lambda>types.
        bindE (parse_uint32_from_buf buf (off + 26)) (\<lambda>content_length.
        bindE (cstrn buf (off + 30) (unat (rs_body_len header - 30))) (\<lambda>msg_content.
          Inr (Some (S_msg \<lparr>sm_idls = None, sm_msg_id = msg_id, sm_conv_id = conv_id,
            sm_chat_id = chat_id, sm_from_uid = from_uid, sm_reply_to = reply_to,
            sm_created_at = created_at, sm_msg_type = types ! 0, sm_content_type = types ! 1,
            sm_content_length = content_length, sm_msg_content = Some msg_content\<rparr>))))))))))) 
      else if rs_action header = 2 then
        bindE (parse_uint32_from_buf buf off) (\<lambda>m.
          Inr (Some (S_msg (zero_msg\<lparr>sm_msg_id := m\<rparr>))))
      else if rs_action header = 3 then Inr (Some (S_msg zero_msg))
      else if rs_action header = 6 then
        bindE (cstrn buf off (unat (rs_body_len header))) (\<lambda>s.
          Inr (Some (S_msg (zero_msg\<lparr>sm_msg_content := Some s\<rparr>))))
      else Inr None)"

definition response_parse_header :: "bytes \<Rightarrow> response_header res" where
  "response_parse_header buf =
     bindE (mem_read buf 0 3) (\<lambda>b.
     bindE (parse_uint32_from_buf buf 4) (\<lambda>content_len.
     bindE (parse_uint32_from_buf buf 8) (\<lambda>body_len.
     bindE (parse_uint32_from_buf buf 12) (\<lambda>status_code.
     bindE (parse_uint32_from_buf buf 16) (\<lambda>count.
       Inr \<lparr>rs_group = b ! 0, rs_action = b ! 1, rs_content_type = b ! 2,
            rs_content_len = content_len, rs_body_len = body_len,
            rs_status_code = status_code, rs_count = count\<rparr>)))))"

definition response_parse_body :: "response_header \<Rightarrow> bytes \<Rightarrow> nat \<Rightarrow> response_body option res" where
  "response_parse_body header buf off =
     (if rs_group header = 0 then response_parse_auth header buf off
      else if rs_group header = 1 then response_parse_user header buf off
      else if rs_group header = 2 then response_parse_conv header buf off
      else if rs_group header = 3 then response_parse_chat header buf off
      else if rs_group header = 4 then response_parse_msg header buf off
      else Inr None)"

definition response_parse :: "bytes \<Rightarrow> response option res" where
  "response_parse buf =
     bindE (response_parse_header buf) (\<lambda>header.
     bindE (response_parse_body header buf RESPONSE_HEADER_LEN) (\<lambda>rb.
       Inr (map_option (\<lambda>b. \<lparr>rs_header = header, rs_body = b\<rparr>) rb)))"

section \<open>Building\<close>

text \<open>An error reply is a header only: what the buffer held behind it stays.\<close>

definition make_err_response :: "u32 \<Rightarrow> byte \<Rightarrow> byte \<Rightarrow> bytes \<Rightarrow> bytes res" where
  "make_err_response status grp action res =
     writes [(0, zeros RESPONSE_HEADER_LEN), (0, [grp]), (1, [action]),
       (12, uint32_wire status)] res"

definition make_response_header :: "response_header \<Rightarrow> bytes \<Rightarrow> bytes res" where
  "make_response_header header res =
     writes [(0, zeros RESPONSE_HEADER_LEN),
       (0, [rs_group header]), (1, [rs_action header]), (2, [rs_content_type header]),
       (4, uint32_wire (rs_content_len header)), (8, uint32_wire (rs_body_len header)),
       (12, uint32_wire (rs_status_code header)), (16, uint32_wire (rs_count header))] res"

definition mk_resp :: "byte \<Rightarrow> byte \<Rightarrow> byte \<Rightarrow> u32 \<Rightarrow> u32 \<Rightarrow> u32 \<Rightarrow> u32 \<Rightarrow> response_header" where
  "mk_resp grp action content_type status_code content_len body_len count =
     \<lparr>rs_group = grp, rs_action = action, rs_content_type = content_type,
      rs_content_len = content_len, rs_body_len = body_len, rs_status_code = status_code,
      rs_count = count\<rparr>"

definition make_response_empty_body :: "byte \<Rightarrow> byte \<Rightarrow> u32 \<Rightarrow> bytes \<Rightarrow> bytes res" where
  "make_response_empty_body grp action status_code res =
     make_response_header (mk_resp grp action 0 status_code 0 0 0) res"

primrec id_list_loop :: "u32 list \<Rightarrow> nat \<Rightarrow> u32 \<Rightarrow> bytes \<Rightarrow> bytes res" where
  "id_list_loop ls 0 i a = Inr a"
| "id_list_loop ls (Suc n) i a =
     (if unat i < length ls
      then bindE (mem_write a (RESPONSE_HEADER_LEN + unat (push_bit 2 i)) (uint32_wire (ls ! unat i)))
             (id_list_loop ls n (i + 1))
      else Inl Out_Of_Bounds)"

definition make_response_id_list ::
    "byte \<Rightarrow> byte \<Rightarrow> u32 \<Rightarrow> u32 list \<Rightarrow> u32 \<Rightarrow> bytes \<Rightarrow> bytes res" where
  "make_response_id_list grp action status_code ls count res =
     (let sz = push_bit 2 count
      in bindE (make_response_header (mk_resp grp action 0 status_code sz sz count) res) (\<lambda>b.
         bindE (writes_at RESPONSE_HEADER_LEN [(0, zeros RESPONSE_BODY_LEN)] b) (\<lambda>b'.
           id_list_loop ls (unat count) 0 b')))"

definition make_response_uint32 :: "byte \<Rightarrow> byte \<Rightarrow> u32 \<Rightarrow> u32 \<Rightarrow> bytes \<Rightarrow> bytes res" where
  "make_response_uint32 grp action status_code num res =
     bindE (make_response_header (mk_resp grp action 0 status_code 4 4 0) res)
       (writes_at RESPONSE_HEADER_LEN [(0, zeros RESPONSE_BODY_LEN), (0, uint32_wire num)])"

definition make_response_auth_register :: "u32 \<Rightarrow> bytes \<Rightarrow> u32 \<Rightarrow> bytes \<Rightarrow> bytes res" where
  "make_response_auth_register status_code token user_id res =
     bindE (make_response_header (mk_resp 0 0 0 status_code (of_nat TOKEN_LEN + 4)
         (of_nat TOKEN_LEN + 4) 0) res) (\<lambda>b.
     bindE (mem_read token 0 TOKEN_LEN) (\<lambda>tok.
       writes_at RESPONSE_HEADER_LEN [(0, zeros RESPONSE_BODY_LEN), (0, tok),
         (TOKEN_LEN, uint32_wire user_id)] b))"

definition make_response_auth_login :: "u32 \<Rightarrow> bytes \<Rightarrow> u32 \<Rightarrow> bytes \<Rightarrow> bytes res" where
  "make_response_auth_login status_code token user_id res =
     bindE (make_response_header (mk_resp 0 1 0 status_code (of_nat TOKEN_LEN + 4)
         (of_nat TOKEN_LEN + 4) 0) res) (\<lambda>b.
     bindE (mem_read token 0 TOKEN_LEN) (\<lambda>tok.
       writes_at RESPONSE_HEADER_LEN [(0, zeros RESPONSE_BODY_LEN), (0, tok),
         (TOKEN_LEN, uint32_wire user_id)] b))"

definition make_response_user_logout :: "u32 \<Rightarrow> bytes \<Rightarrow> bytes res" where
  "make_response_user_logout status_code res = make_response_empty_body 1 0 status_code res"

definition make_response_user_get_info ::
    "u32 \<Rightarrow> bytes \<Rightarrow> bytes \<Rightarrow> bytes \<Rightarrow> bytes \<Rightarrow> bytes res" where
  "make_response_user_get_info status_code uname phone email res =
     (let sum_len = length uname + length phone + length email;
          b1 = length uname + 1; b2 = b1 + (length phone + 1)
      in bindE (make_response_header (mk_resp 1 1 0 status_code (of_nat (sum_len + 2))
             (of_nat (sum_len + 2)) 0) res)
           (writes_at RESPONSE_HEADER_LEN
              [(0, zeros RESPONSE_BODY_LEN),
               (0, uname), (length uname, [BODY_DELIMITER]),
               (b1, phone), (b1 + length phone, [BODY_DELIMITER]),
               (b2, email)]))"

definition make_response_user_search :: "u32 \<Rightarrow> u32 \<Rightarrow> u32 list \<Rightarrow> bytes \<Rightarrow> bytes res" where
  "make_response_user_search status_code count ls res =
     make_response_id_list 1 2 status_code ls count res"

definition make_response_conv_create :: "u32 \<Rightarrow> u32 \<Rightarrow> bytes \<Rightarrow> bytes res" where
  "make_response_conv_create status_code conv_id res =
     make_response_uint32 2 0 status_code conv_id res"

definition make_response_conv_drop :: "u32 \<Rightarrow> bytes \<Rightarrow> bytes res" where
  "make_response_conv_drop status_code res = make_response_empty_body 2 1 status_code res"

definition make_response_conv_join :: "u32 \<Rightarrow> bytes \<Rightarrow> bytes res" where
  "make_response_conv_join status_code res = make_response_empty_body 2 2 status_code res"

definition make_response_conv_quit :: "u32 \<Rightarrow> bytes \<Rightarrow> bytes res" where
  "make_response_conv_quit status_code res = make_response_empty_body 2 3 status_code res"

definition make_response_conv_get_info :: "u32 \<Rightarrow> u32 \<Rightarrow> bytes \<Rightarrow> bytes \<Rightarrow> bytes res" where
  "make_response_conv_get_info status_code admin_id gname res =
     (let len = of_nat (4 + length gname)
      in bindE (make_response_header (mk_resp 2 4 0 status_code len len 0) res)
           (writes_at RESPONSE_HEADER_LEN
              [(0, zeros RESPONSE_BODY_LEN), (0, uint32_wire admin_id), (4, gname)]))"

definition make_response_conv_get_members :: "u32 \<Rightarrow> u32 \<Rightarrow> u32 list \<Rightarrow> bytes \<Rightarrow> bytes res" where
  "make_response_conv_get_members status_code count ls res =
     make_response_id_list 2 5 status_code ls count res"

definition make_response_conv_get_list :: "u32 \<Rightarrow> u32 \<Rightarrow> u32 list \<Rightarrow> bytes \<Rightarrow> bytes res" where
  "make_response_conv_get_list status_code count ls res =
     make_response_id_list 2 6 status_code ls count res"

definition make_response_chat_create :: "u32 \<Rightarrow> u32 \<Rightarrow> bytes \<Rightarrow> bytes res" where
  "make_response_chat_create status_code chat_id res =
     make_response_uint32 3 0 status_code chat_id res"

definition make_response_chat_delete :: "u32 \<Rightarrow> bytes \<Rightarrow> bytes res" where
  "make_response_chat_delete status_code res = make_response_empty_body 3 1 status_code res"

definition make_response_chat_get_list :: "u32 \<Rightarrow> u32 \<Rightarrow> u32 list \<Rightarrow> bytes \<Rightarrow> bytes res" where
  "make_response_chat_get_list status_code count ls res =
     make_response_id_list 3 2 status_code ls count res"

definition make_response_chat_get_info :: "u32 \<Rightarrow> u32 \<Rightarrow> u32 \<Rightarrow> bytes \<Rightarrow> bytes res" where
  "make_response_chat_get_info status_code member_id1 member_id2 res =
     bindE (make_response_header (mk_resp 3 3 0 status_code 8 8 0) res)
       (writes_at RESPONSE_HEADER_LEN [(0, zeros RESPONSE_BODY_LEN),
          (0, uint32_wire member_id1), (4, uint32_wire member_id2)])"

definition make_response_msg_get_all :: "u32 \<Rightarrow> u32 \<Rightarrow> u32 list \<Rightarrow> bytes \<Rightarrow> bytes res" where
  "make_response_msg_get_all status_code count ls res =
     make_response_id_list 4 0 status_code ls count res"

definition make_response_msg_get_detail :: "u32 \<Rightarrow> response_msg \<Rightarrow> bytes \<Rightarrow> bytes res" where
  "make_response_msg_get_detail status msg res =
     (case sm_msg_content msg of
        None \<Rightarrow> Inl Null_Deref
      | Some content \<Rightarrow>
          bindE (make_response_header (mk_resp 4 1 (sm_content_type msg) status
              (sm_content_length msg) (of_nat (30 + length content)) 0) res)
            (writes_at RESPONSE_HEADER_LEN
               [(0, zeros RESPONSE_BODY_LEN),
                (0, uint32_wire (sm_msg_id msg)), (4, uint32_wire (sm_from_uid msg)),
                (8, uint32_wire (sm_reply_to msg)), (12, uint32_wire (sm_conv_id msg)),
                (16, uint32_wire (sm_chat_id msg)), (20, uint32_wire (sm_created_at msg)),
                (24, [sm_msg_type msg]), (25, [sm_content_type msg]),
                (26, uint32_wire (sm_content_length msg)), (30, content)]))"

definition make_responses_msg_send :: "u32 \<Rightarrow> u32 \<Rightarrow> bytes \<Rightarrow> bytes res" where
  "make_responses_msg_send status_code msg_id res =
     make_response_uint32 4 2 status_code msg_id res"

definition make_response_msg_delete :: "u32 \<Rightarrow> bytes \<Rightarrow> bytes res" where
  "make_response_msg_delete status_code res = make_response_empty_body 4 3 status_code res"

definition make_response_msg_notify_new :: "u32 \<Rightarrow> u32 \<Rightarrow> u32 list \<Rightarrow> bytes \<Rightarrow> bytes res" where
  "make_response_msg_notify_new status_code count ls res =
     make_response_id_list 4 4 status_code ls count res"

definition make_response_msg_notify_del :: "u32 \<Rightarrow> u32 \<Rightarrow> u32 list \<Rightarrow> bytes \<Rightarrow> bytes res" where
  "make_response_msg_notify_del status_code count ls res =
     make_response_id_list 4 5 status_code ls count res"

definition make_response_msg_download_file :: "u32 \<Rightarrow> u32 \<Rightarrow> bytes \<Rightarrow> bytes \<Rightarrow> bytes res" where
  "make_response_msg_download_file status_code fsize fname res =
     bindE (make_response_header (mk_resp 4 6 1 status_code fsize (of_nat (length fname)) 0) res)
       (writes_at RESPONSE_HEADER_LEN [(0, zeros RESPONSE_BODY_LEN), (0, fname)])"

section \<open>The header on the wire\<close>

lemmas response_sizes = RESPONSE_LEN_def RESPONSE_HEADER_LEN_def RESPONSE_BODY_LEN_def BUFSIZ_def
  TOKEN_LEN_def

definition response_header_wire :: "response_header \<Rightarrow> bytes" where
  "response_header_wire header =
     [rs_group header, rs_action header, rs_content_type header, 0]
     @ uint32_wire (rs_content_len header) @ uint32_wire (rs_body_len header)
     @ uint32_wire (rs_status_code header) @ uint32_wire (rs_count header) @ zeros 12"

lemma length_response_header_wire [simp]:
  "length (response_header_wire header) = RESPONSE_HEADER_LEN"
  by (simp add: response_header_wire_def response_sizes)

lemma make_response_header_eq:
  assumes "RESPONSE_HEADER_LEN \<le> length res"
  shows "make_response_header header res =
    Inr (response_header_wire header @ drop RESPONSE_HEADER_LEN res)"
  using assms
  by (auto simp: make_response_header_def response_header_wire_def response_sizes mem_write_def)

lemma make_err_response_eq:
  assumes "RESPONSE_HEADER_LEN \<le> length res"
  shows "make_err_response status g a res =
    Inr (response_header_wire (mk_resp g a 0 status 0 0 0) @ drop RESPONSE_HEADER_LEN res)"
proof -
  have "zeros 10 = [0, 0, 0, 0, 0, 0, 0, 0, 0, 0]" and "zeros 16 = 0 # 0 # 0 # 0 # zeros 12"
    by (simp_all add: numeral_eq_Suc)
  with assms show ?thesis
    by (auto simp: make_err_response_def response_header_wire_def mk_resp_def response_sizes
        mem_write_def)
qed

lemma response_parse_header_eq:
  "response_parse_header (response_header_wire header @ rest) = Inr header"
  by (simp add: response_parse_header_def response_header_wire_def mem_read_def
      parse_uint32_from_buf_def)

section \<open>The body on the wire\<close>

lemma parse_list_loop_shift:
  "parse_list_loop (p @ a) (length p + off) sz n i = parse_list_loop a off sz n i"
  by (induction n arbitrary: i) (simp_all add: parse_uint32_shift add.assoc cong: bindE_cong if_cong)

lemma response_parse_body_shift:
  assumes "length p = RESPONSE_HEADER_LEN"
  shows "response_parse_body header (p @ a) RESPONSE_HEADER_LEN = response_parse_body header a 0"
  unfolding response_parse_body_def response_parse_auth_def response_parse_user_def
    response_parse_conv_def response_parse_chat_def response_parse_msg_def parse_uint32_list_def
    assms [symmetric] read_shifts read_shifts_0 parse_list_loop_shift
    parse_list_loop_shift [where off = 0, simplified] add_0
  by (rule refl)

lemma response_parse_wire:
  assumes "response_parse_body header a 0 = Inr b"
  shows "response_parse (response_header_wire header @ a) =
    Inr (map_option (\<lambda>b. \<lparr>rs_header = header, rs_body = b\<rparr>) b)"
  using assms by (simp add: response_parse_def response_parse_header_eq response_parse_body_shift)

text \<open>Writing a body that fits.\<close>

lemma mem_write_suffix: "mem_write a off xs = Inr b \<Longrightarrow> mem_write (a @ t) off xs = Inr (b @ t)"
  by (auto simp: mem_write_def split: if_splits)

lemma writes_suffix: "writes ws a = Inr b \<Longrightarrow> writes ws (a @ t) = Inr (b @ t)"
  by (induction ws a rule: writes.induct)
    (auto simp: bindE_eq_Inr_iff dest: mem_write_suffix)

lemma clear_body:
  assumes "RESPONSE_LEN \<le> length res"
  shows "writes_at RESPONSE_HEADER_LEN ((0, zeros RESPONSE_BODY_LEN) # ws)
      (response_header_wire header @ drop RESPONSE_HEADER_LEN res) =
    bindE (writes ws (zeros RESPONSE_BODY_LEN @ drop RESPONSE_LEN res))
      (\<lambda>b. Inr (response_header_wire header @ b))"
proof -
  have "mem_write (drop RESPONSE_HEADER_LEN res) 0 (zeros RESPONSE_BODY_LEN) =
      Inr (zeros RESPONSE_BODY_LEN @ drop RESPONSE_LEN res)"
    using assms by (simp add: mem_write_def RESPONSE_BODY_LEN_def)
      (simp add: response_sizes)
  then show ?thesis by (simp add: writes_at_append)
qed

lemma response_pieces:
  assumes "RESPONSE_LEN \<le> length res" and "ws = layout 0 xss"
    and "length (concat xss) \<le> RESPONSE_BODY_LEN"
  shows "bindE (make_response_header header res)
      (writes_at RESPONSE_HEADER_LEN ((0, zeros RESPONSE_BODY_LEN) # ws)) =
    Inr (response_header_wire header @ concat xss @
      zeros (RESPONSE_BODY_LEN - length (concat xss)) @ drop RESPONSE_LEN res)"
proof -
  have "RESPONSE_HEADER_LEN \<le> length res"
    using assms(1) by (simp add: response_sizes)
  moreover have "writes ws (zeros RESPONSE_BODY_LEN @ drop RESPONSE_LEN res) =
      Inr (concat xss @ zeros (RESPONSE_BODY_LEN - length (concat xss)) @ drop RESPONSE_LEN res)"
    using writes_suffix [OF writes_layout_0 [OF assms(3)], of "drop RESPONSE_LEN res"]
    by (simp add: assms(2))
  ultimately show ?thesis
    by (simp add: make_response_header_eq clear_body [OF assms(1)] del: writes.simps)
qed

subsection \<open>Lists of identifiers\<close>

definition MAX_IDS :: nat where
  "MAX_IDS = 2040"

lemma push_bit_2_of_nat: "i < 1073741824 \<Longrightarrow> unat (push_bit 2 (of_nat i :: u32)) = 4 * i"
proof -
  assume "i < 1073741824"
  then have "unat (of_nat (i * 4) :: u32) = i * 4"
    by (intro unat_of_nat_u32) simp
  then show ?thesis by (simp add: push_bit_eq_mult)
qed

definition ids_wire :: "u32 list \<Rightarrow> bytes" where
  "ids_wire ls = concat (map uint32_wire ls)"

lemma ids_wire_simps [simp]:
  "ids_wire [] = []" "ids_wire (x # xs) = uint32_wire x @ ids_wire xs"
  "ids_wire (xs @ ys) = ids_wire xs @ ids_wire ys"
  by (simp_all add: ids_wire_def)

lemma length_ids_wire [simp]: "length (ids_wire ls) = 4 * length ls"
  by (induction ls) simp_all

lemma id_list_loop_correct:
  assumes "length p = RESPONSE_HEADER_LEN" and "i + n = length ls" and "length ls \<le> MAX_IDS"
  shows "id_list_loop ls n (of_nat i) (p @ ids_wire (take i ls) @ zeros (4 * n + k) @ t) =
    Inr (p @ ids_wire ls @ zeros k @ t)"
  using assms(2)
proof (induction n arbitrary: i)
  case 0
  then show ?case by simp
next
  case (Suc n)
  have small: "i < 1073741824"
    using Suc.prems assms(3) by (simp add: MAX_IDS_def)
  have ui: "unat (of_nat i :: u32) = i" and lt: "i < length ls"
    using small Suc.prems by simp_all
  have "mem_write (p @ ids_wire (take i ls) @ zeros (4 * Suc n + k) @ t)
      (RESPONSE_HEADER_LEN + 4 * i) (uint32_wire (ls ! i)) =
    Inr (p @ ids_wire (take (Suc i) ls) @ zeros (4 * n + k) @ t)"
    using mem_write_append [of "p @ ids_wire (take i ls)" "zeros (4 * Suc n + k) @ t" 0 "uint32_wire (ls ! i)"]
    by (simp add: assms(1) mem_write_def lt take_Suc_conv_app_nth)
  with Suc.IH [of "Suc i"] Suc.prems lt show ?case
    by (simp add: ui push_bit_2_of_nat [OF small] del: of_nat_Suc)
      (simp add: add.commute)
qed

definition ids_header :: "byte \<Rightarrow> byte \<Rightarrow> u32 \<Rightarrow> u32 list \<Rightarrow> response_header" where
  "ids_header g a st ls =
     mk_resp g a 0 st (of_nat (4 * length ls)) (of_nat (4 * length ls)) (of_nat (length ls))"

lemma make_response_id_list_loop:
  assumes "RESPONSE_LEN \<le> length res" and "length ls < 1073741824"
  shows "make_response_id_list g a st ls (of_nat (length ls)) res =
    id_list_loop ls (length ls) 0 (response_header_wire (ids_header g a st ls) @
      zeros RESPONSE_BODY_LEN @ drop RESPONSE_LEN res)"
proof -
  have res: "RESPONSE_HEADER_LEN \<le> length res"
    using assms(1) by (simp add: response_sizes)
  have sz: "push_bit 2 (of_nat (length ls) :: u32) = of_nat (4 * length ls)"
    by (simp add: push_bit_eq_mult)
  have n: "unat (of_nat (length ls) :: u32) = length ls"
    using assms(2) by simp
  show ?thesis
    unfolding make_response_id_list_def Let_def sz make_response_header_eq [OF res] bindE_Inr
      clear_body [OF assms(1)] n ids_header_def by simp
qed

lemma make_response_id_list_eq:
  assumes "RESPONSE_LEN \<le> length res" and "length ls \<le> MAX_IDS"
  shows "make_response_id_list g a st ls (of_nat (length ls)) res =
    Inr (response_header_wire (ids_header g a st ls) @ ids_wire ls @
         zeros (RESPONSE_BODY_LEN - 4 * length ls) @ drop RESPONSE_LEN res)"
proof -
  have z: "zeros RESPONSE_BODY_LEN = zeros (4 * length ls + (RESPONSE_BODY_LEN - 4 * length ls))"
    using assms(2) by (simp add: MAX_IDS_def response_sizes)
  have small: "length ls < 1073741824"
    using assms(2) by (simp add: MAX_IDS_def)
  show ?thesis
    using id_list_loop_correct [of "response_header_wire (ids_header g a st ls)" 0 "length ls" ls]
      assms(2)
    unfolding make_response_id_list_loop [OF assms(1) small] z by simp
qed

lemma parse_list_loop_correct:
  assumes "i + n = length ls" and "length ls \<le> MAX_IDS" and "4 * length ls \<le> sz"
  shows "parse_list_loop (ids_wire ls @ rest) 0 sz n (of_nat i) = Inr (drop i ls)"
  using assms(1)
proof (induction n arbitrary: i)
  case 0
  then show ?case by simp
next
  case (Suc n)
  have small: "i < 1073741824"
    using Suc.prems assms(2) by (simp add: MAX_IDS_def)
  have ui: "unat (of_nat i :: u32) = i" and lt: "i < length ls"
    using small Suc.prems by simp_all
  have ls: "ids_wire ls = ids_wire (take i ls) @ uint32_wire (ls ! i) @ ids_wire (drop (Suc i) ls)"
    using id_take_nth_drop [OF lt] by (metis append_Cons append_Nil ids_wire_simps)
  have "parse_uint32_from_buf (ids_wire ls @ rest) (4 * i) = Inr (ls ! i)"
    using parse_uint32_shift [of "ids_wire (take i ls)" _ 0] lt
    by (simp add: ls parse_uint32_front)
  with Suc.IH [of "Suc i"] Suc.prems lt assms(3) show ?case
    by (simp add: ui push_bit_2_of_nat [OF small] add.commute Cons_nth_drop_Suc)
qed

lemma parse_uint32_list_wire:
  assumes "length ls \<le> MAX_IDS"
  shows "parse_uint32_list (ids_wire ls @ rest) 0 (of_nat (length ls)) = Inr ls"
proof -
  have small: "length ls < 1073741824" and n: "unat (of_nat (length ls) :: u32) = length ls"
    using assms by (simp_all add: MAX_IDS_def)
  have "parse_list_loop (ids_wire ls @ rest) 0 (4 * length ls) (length ls) (of_nat 0) = Inr (drop 0 ls)"
    by (rule parse_list_loop_correct) (use assms in simp_all)
  then show ?thesis
    by (simp add: parse_uint32_list_def n push_bit_2_of_nat [OF small])
qed

text \<open>A list that is too long does not fit into the buffer of a connection.\<close>

lemma id_list_loop_bounds:
  "id_list_loop ls n i a = Inr b \<Longrightarrow> k < n \<Longrightarrow>
   RESPONSE_HEADER_LEN + unat (push_bit 2 (i + of_nat k)) + 4 \<le> length a"
proof (induction n arbitrary: i a k)
  case 0
  then show ?case by simp
next
  case (Suc n)
  then obtain a' where w: "mem_write a (RESPONSE_HEADER_LEN + unat (push_bit 2 i))
      (uint32_wire (ls ! unat i)) = Inr a'" and rest: "id_list_loop ls n (i + 1) a' = Inr b"
    by (auto simp: bindE_eq_Inr_iff split: if_splits)
  show ?case
  proof (cases k)
    case 0
    then show ?thesis using w by (auto simp: mem_write_def split: if_splits)
  next
    case (Suc k')
    then show ?thesis
      using Suc.IH [OF rest, of k'] Suc.prems mem_write_length [OF w]
      by (simp add: ac_simps)
  qed
qed

lemma id_list_loop_fault: "id_list_loop ls n i a = Inl f \<Longrightarrow> f = Out_Of_Bounds"
  by (induction n arbitrary: i a) (auto simp: mem_write_def split: if_splits)

section \<open>The replies as an interface\<close>

text \<open>
  The replies the handlers make, one constructor per function of \<^verbatim>\<open>response.h\<close>, the message
  each is written to and what the client makes of it: \<open>None\<close> where \<^verbatim>\<open>response_parse\<close> has no
  case for the action.
\<close>

datatype reply =
    Rp_register bytes u32
  | Rp_login bytes u32
  | Rp_logout
  | Rp_user_info bytes bytes bytes
  | Rp_user_search "u32 list"
  | Rp_conv_create u32
  | Rp_conv_drop
  | Rp_conv_join
  | Rp_conv_quit
  | Rp_conv_info u32 bytes
  | Rp_conv_members "u32 list"
  | Rp_conv_list "u32 list"
  | Rp_chat_create u32
  | Rp_chat_delete
  | Rp_chat_list "u32 list"
  | Rp_chat_info u32 u32
  | Rp_msg_all "u32 list"
  | Rp_msg_detail response_msg
  | Rp_msg_send u32
  | Rp_msg_delete
  | Rp_notify_new "u32 list"
  | Rp_notify_del "u32 list"
  | Rp_file u32 bytes

fun encode_reply :: "u32 \<times> reply \<Rightarrow> bytes \<Rightarrow> bytes res" where
  "encode_reply (st, Rp_register tok uid) = make_response_auth_register st tok uid"
| "encode_reply (st, Rp_login tok uid) = make_response_auth_login st tok uid"
| "encode_reply (st, Rp_logout) = make_response_user_logout st"
| "encode_reply (st, Rp_user_info u ph e) = make_response_user_get_info st u ph e"
| "encode_reply (st, Rp_user_search ls) = make_response_user_search st (of_nat (length ls)) ls"
| "encode_reply (st, Rp_conv_create c) = make_response_conv_create st c"
| "encode_reply (st, Rp_conv_drop) = make_response_conv_drop st"
| "encode_reply (st, Rp_conv_join) = make_response_conv_join st"
| "encode_reply (st, Rp_conv_quit) = make_response_conv_quit st"
| "encode_reply (st, Rp_conv_info a g) = make_response_conv_get_info st a g"
| "encode_reply (st, Rp_conv_members ls) = make_response_conv_get_members st (of_nat (length ls)) ls"
| "encode_reply (st, Rp_conv_list ls) = make_response_conv_get_list st (of_nat (length ls)) ls"
| "encode_reply (st, Rp_chat_create c) = make_response_chat_create st c"
| "encode_reply (st, Rp_chat_delete) = make_response_chat_delete st"
| "encode_reply (st, Rp_chat_list ls) = make_response_chat_get_list st (of_nat (length ls)) ls"
| "encode_reply (st, Rp_chat_info a b) = make_response_chat_get_info st a b"
| "encode_reply (st, Rp_msg_all ls) = make_response_msg_get_all st (of_nat (length ls)) ls"
| "encode_reply (st, Rp_msg_detail m) = make_response_msg_get_detail st m"
| "encode_reply (st, Rp_msg_send m) = make_responses_msg_send st m"
| "encode_reply (st, Rp_msg_delete) = make_response_msg_delete st"
| "encode_reply (st, Rp_notify_new ls) = make_response_msg_notify_new st (of_nat (length ls)) ls"
| "encode_reply (st, Rp_notify_del ls) = make_response_msg_notify_del st (of_nat (length ls)) ls"
| "encode_reply (st, Rp_file n s) = make_response_msg_download_file st n s"

fun reply_header :: "u32 \<Rightarrow> reply \<Rightarrow> response_header" where
  "reply_header st (Rp_register tok uid) = mk_resp 0 0 0 st 20 20 0"
| "reply_header st (Rp_login tok uid) = mk_resp 0 1 0 st 20 20 0"
| "reply_header st Rp_logout = mk_resp 1 0 0 st 0 0 0"
| "reply_header st (Rp_user_info u ph e) =
     (let n = of_nat (length u + length ph + length e + 2) in mk_resp 1 1 0 st n n 0)"
| "reply_header st (Rp_user_search ls) = ids_header 1 2 st ls"
| "reply_header st (Rp_conv_create c) = mk_resp 2 0 0 st 4 4 0"
| "reply_header st Rp_conv_drop = mk_resp 2 1 0 st 0 0 0"
| "reply_header st Rp_conv_join = mk_resp 2 2 0 st 0 0 0"
| "reply_header st Rp_conv_quit = mk_resp 2 3 0 st 0 0 0"
| "reply_header st (Rp_conv_info a g) =
     (let n = of_nat (4 + length g) in mk_resp 2 4 0 st n n 0)"
| "reply_header st (Rp_conv_members ls) = ids_header 2 5 st ls"
| "reply_header st (Rp_conv_list ls) = ids_header 2 6 st ls"
| "reply_header st (Rp_chat_create c) = mk_resp 3 0 0 st 4 4 0"
| "reply_header st Rp_chat_delete = mk_resp 3 1 0 st 0 0 0"
| "reply_header st (Rp_chat_list ls) = ids_header 3 2 st ls"
| "reply_header st (Rp_chat_info a b) = mk_resp 3 3 0 st 8 8 0"
| "reply_header st (Rp_msg_all ls) = ids_header 4 0 st ls"
| "reply_header st (Rp_msg_detail m) =
     mk_resp 4 1 (sm_content_type m) st (sm_content_length m)
       (of_nat (30 + length (the (sm_msg_content m)))) 0"
| "reply_header st (Rp_msg_send m) = mk_resp 4 2 0 st 4 4 0"
| "reply_header st Rp_msg_delete = mk_resp 4 3 0 st 0 0 0"
| "reply_header st (Rp_notify_new ls) = ids_header 4 4 st ls"
| "reply_header st (Rp_notify_del ls) = ids_header 4 5 st ls"
| "reply_header st (Rp_file n s) = mk_resp 4 6 1 st n (of_nat (length s)) 0"

fun reply_body :: "reply \<Rightarrow> response_body option" where
  "reply_body (Rp_register tok uid) = Some (S_auth \<lparr>sa_token = tok, sa_user_id = uid\<rparr>)"
| "reply_body (Rp_login tok uid) = Some (S_auth \<lparr>sa_token = tok, sa_user_id = uid\<rparr>)"
| "reply_body (Rp_user_info u ph e) =
     Some (S_user (zero_user\<lparr>su_uname := Some u, su_phone := Some ph, su_email := Some e\<rparr>))"
| "reply_body (Rp_user_search ls) = Some (S_user (zero_user\<lparr>su_idls := Some ls\<rparr>))"
| "reply_body (Rp_conv_create c) = Some (S_conv (zero_conv\<lparr>sc_conv_id := c\<rparr>))"
| "reply_body (Rp_conv_info a g) =
     Some (S_conv (zero_conv\<lparr>sc_admin_id := a, sc_gname := Some g\<rparr>))"
| "reply_body (Rp_conv_members ls) = Some (S_conv (zero_conv\<lparr>sc_idls := Some ls\<rparr>))"
| "reply_body (Rp_conv_list ls) = Some (S_conv (zero_conv\<lparr>sc_idls := Some ls\<rparr>))"
| "reply_body (Rp_chat_create c) = Some (S_chat (zero_chat\<lparr>sh_chat_id := c\<rparr>))"
| "reply_body Rp_chat_delete = Some (S_chat zero_chat)"
| "reply_body (Rp_chat_list ls) = Some (S_chat (zero_chat\<lparr>sh_idls := Some ls\<rparr>))"
| "reply_body (Rp_chat_info a b) =
     Some (S_chat (zero_chat\<lparr>sh_member_id1 := a, sh_member_id2 := b\<rparr>))"
| "reply_body (Rp_msg_all ls) = Some (S_msg (zero_msg\<lparr>sm_idls := Some ls\<rparr>))"
| "reply_body (Rp_msg_detail m) = Some (S_msg (m\<lparr>sm_idls := None\<rparr>))"
| "reply_body (Rp_msg_send m) = Some (S_msg (zero_msg\<lparr>sm_msg_id := m\<rparr>))"
| "reply_body Rp_msg_delete = Some (S_msg zero_msg)"
| "reply_body (Rp_notify_new ls) = Some (S_msg (zero_msg\<lparr>sm_idls := Some ls\<rparr>))"
| "reply_body (Rp_notify_del ls) = Some (S_msg (zero_msg\<lparr>sm_idls := Some ls\<rparr>))"
| "reply_body (Rp_file n s) = Some (S_msg (zero_msg\<lparr>sm_msg_content := Some s\<rparr>))"
| "reply_body _ = None"

definition reply_view :: "u32 \<times> reply \<Rightarrow> response option" where
  "reply_view m = (case m of (st, r) \<Rightarrow>
     map_option (\<lambda>b. \<lparr>rs_header = reply_header st r, rs_body = b\<rparr>) (reply_body r))"

fun reply_ok :: "reply \<Rightarrow> bool" where
  "reply_ok (Rp_register tok uid) \<longleftrightarrow> length tok = TOKEN_LEN"
| "reply_ok (Rp_login tok uid) \<longleftrightarrow> length tok = TOKEN_LEN"
| "reply_ok (Rp_user_info u ph e) \<longleftrightarrow>
     is_field None u \<and> is_field None ph \<and> is_field None e \<and>
     length u + length ph + length e + 2 \<le> RESPONSE_BODY_LEN"
| "reply_ok (Rp_user_search ls) \<longleftrightarrow> length ls \<le> MAX_IDS"
| "reply_ok (Rp_conv_info a g) \<longleftrightarrow> is_cstr g \<and> length g + 4 \<le> RESPONSE_BODY_LEN"
| "reply_ok (Rp_conv_members ls) \<longleftrightarrow> length ls \<le> MAX_IDS"
| "reply_ok (Rp_conv_list ls) \<longleftrightarrow> length ls \<le> MAX_IDS"
| "reply_ok (Rp_chat_list ls) \<longleftrightarrow> length ls \<le> MAX_IDS"
| "reply_ok (Rp_msg_all ls) \<longleftrightarrow> length ls \<le> MAX_IDS"
| "reply_ok (Rp_msg_detail m) \<longleftrightarrow>
     (case sm_msg_content m of
        None \<Rightarrow> False
      | Some s \<Rightarrow> is_cstr s \<and> length s + 30 \<le> RESPONSE_BODY_LEN)"
| "reply_ok (Rp_notify_new ls) \<longleftrightarrow> length ls \<le> MAX_IDS"
| "reply_ok (Rp_notify_del ls) \<longleftrightarrow> length ls \<le> MAX_IDS"
| "reply_ok (Rp_file n s) \<longleftrightarrow> is_cstr s \<and> length s \<le> RESPONSE_BODY_LEN"
| "reply_ok _ \<longleftrightarrow> True"

definition reply_wf :: "u32 \<times> reply \<Rightarrow> bool" where
  "reply_wf m = reply_ok (snd m)"

section \<open>Every reply is read as it was meant\<close>

definition detail_pieces :: "response_msg \<Rightarrow> bytes list" where
  "detail_pieces m =
     [uint32_wire (sm_msg_id m), uint32_wire (sm_from_uid m), uint32_wire (sm_reply_to m),
      uint32_wire (sm_conv_id m), uint32_wire (sm_chat_id m), uint32_wire (sm_created_at m),
      [sm_msg_type m], [sm_content_type m], uint32_wire (sm_content_length m),
      the (sm_msg_content m)]"

fun reply_payload :: "reply \<Rightarrow> bytes" where
  "reply_payload (Rp_register tok uid) = tok @ uint32_wire uid"
| "reply_payload (Rp_login tok uid) = tok @ uint32_wire uid"
| "reply_payload (Rp_user_info u ph e) = u @ [BODY_DELIMITER] @ ph @ [BODY_DELIMITER] @ e"
| "reply_payload (Rp_user_search ls) = ids_wire ls"
| "reply_payload (Rp_conv_create c) = uint32_wire c"
| "reply_payload (Rp_conv_info a g) = uint32_wire a @ g"
| "reply_payload (Rp_conv_members ls) = ids_wire ls"
| "reply_payload (Rp_conv_list ls) = ids_wire ls"
| "reply_payload (Rp_chat_create c) = uint32_wire c"
| "reply_payload (Rp_chat_list ls) = ids_wire ls"
| "reply_payload (Rp_chat_info a b) = uint32_wire a @ uint32_wire b"
| "reply_payload (Rp_msg_all ls) = ids_wire ls"
| "reply_payload (Rp_msg_detail m) = concat (detail_pieces m)"
| "reply_payload (Rp_msg_send m) = uint32_wire m"
| "reply_payload (Rp_notify_new ls) = ids_wire ls"
| "reply_payload (Rp_notify_del ls) = ids_wire ls"
| "reply_payload (Rp_file n s) = s"
| "reply_payload _ = []"

lemmas make_response_id_defs = make_response_user_search_def make_response_conv_get_members_def
  make_response_conv_get_list_def make_response_chat_get_list_def make_response_msg_get_all_def
  make_response_msg_notify_new_def make_response_msg_notify_del_def

lemmas make_response_empty_defs = make_response_user_logout_def make_response_conv_drop_def
  make_response_conv_join_def make_response_conv_quit_def make_response_chat_delete_def
  make_response_msg_delete_def make_response_empty_body_def

lemmas make_response_uint32_defs = make_response_conv_create_def make_response_chat_create_def
  make_responses_msg_send_def

lemma encode_response_uint32:
  assumes "RESPONSE_LEN \<le> length res"
  shows "\<exists>rest. make_response_uint32 g a st n res =
    Inr (response_header_wire (mk_resp g a 0 st 4 4 0) @ uint32_wire n @ rest)"
  using assms unfolding make_response_uint32_def
  by (subst response_pieces [where xss = "[uint32_wire n]"]) (auto simp: response_sizes)

lemma encode_token:
  assumes "RESPONSE_LEN \<le> length res" and "length tok = TOKEN_LEN"
  shows "\<exists>rest. make_response_auth_register st tok uid res =
      Inr (response_header_wire (mk_resp 0 0 0 st 20 20 0) @ tok @ uint32_wire uid @ rest)"
    and "\<exists>rest. make_response_auth_login st tok uid res =
      Inr (response_header_wire (mk_resp 0 1 0 st 20 20 0) @ tok @ uint32_wire uid @ rest)"
proof -
  have pieces: "bindE (make_response_header h res) (\<lambda>b. bindE (mem_read tok 0 TOKEN_LEN) (\<lambda>tok.
      writes_at RESPONSE_HEADER_LEN [(0, zeros RESPONSE_BODY_LEN), (0, tok),
        (TOKEN_LEN, uint32_wire uid)] b)) =
    Inr (response_header_wire h @ concat [tok, uint32_wire uid] @
      zeros (RESPONSE_BODY_LEN - length (concat [tok, uint32_wire uid])) @ drop RESPONSE_LEN res)" for h
    using response_pieces [OF assms(1), of _ "[tok, uint32_wire uid]" h] assms(2)
    by (simp add: mem_read_def response_sizes)
  have t: "of_nat TOKEN_LEN + 4 = (20 :: u32)"
    by (simp add: TOKEN_LEN_def)
  show "\<exists>rest. make_response_auth_register st tok uid res =
      Inr (response_header_wire (mk_resp 0 0 0 st 20 20 0) @ tok @ uint32_wire uid @ rest)"
    unfolding make_response_auth_register_def t pieces by simp
  show "\<exists>rest. make_response_auth_login st tok uid res =
      Inr (response_header_wire (mk_resp 0 1 0 st 20 20 0) @ tok @ uint32_wire uid @ rest)"
    unfolding make_response_auth_login_def t pieces by simp
qed

lemma encode_user_info:
  assumes "RESPONSE_LEN \<le> length res" and "reply_ok (Rp_user_info u ph e)"
  shows "\<exists>rest. make_response_user_get_info st u ph e res =
    Inr (response_header_wire (reply_header st (Rp_user_info u ph e)) @
         reply_payload (Rp_user_info u ph e) @ rest)"
  using assms unfolding make_response_user_get_info_def Let_def
  by (subst response_pieces [where xss = "[u, [BODY_DELIMITER], ph, [BODY_DELIMITER], e]"])
    (auto simp: Let_def)

lemma encode_detail:
  assumes "RESPONSE_LEN \<le> length res" and "reply_ok (Rp_msg_detail m)"
  shows "\<exists>rest. make_response_msg_get_detail st m res =
    Inr (response_header_wire (reply_header st (Rp_msg_detail m)) @
         reply_payload (Rp_msg_detail m) @ rest)"
proof -
  obtain s where s: "sm_msg_content m = Some s" "length s + 30 \<le> RESPONSE_BODY_LEN"
    using assms(2) by (auto split: option.splits)
  have "length (concat (detail_pieces m)) \<le> RESPONSE_BODY_LEN"
    using s by (simp add: detail_pieces_def)
  with assms(1) s show ?thesis
    unfolding make_response_msg_get_detail_def
    by (simp, subst response_pieces [where xss = "detail_pieces m"])
      (auto simp: detail_pieces_def)
qed

lemma encode_reply_wire:
  assumes "reply_ok r" and "RESPONSE_LEN \<le> length res"
  shows "\<exists>rest. encode_reply (st, r) res =
    Inr (response_header_wire (reply_header st r) @ reply_payload r @ rest)"
proof -
  have h: "RESPONSE_HEADER_LEN \<le> length res"
    using assms(2) by (simp add: response_sizes)
  show ?thesis
  proof (cases r)
    case (Rp_register tok uid)
    then show ?thesis using assms encode_token(1) by simp
  next
    case (Rp_login tok uid)
    then show ?thesis using assms encode_token(2) by simp
  next
    case (Rp_user_info u ph e)
    then show ?thesis using assms encode_user_info by simp
  next
    case (Rp_msg_detail m)
    then show ?thesis using assms encode_detail by simp
  next
    case (Rp_conv_info a g)
    then show ?thesis
      using assms unfolding make_response_conv_get_info_def Let_def
      by (simp add: make_response_conv_get_info_def Let_def,
        subst response_pieces [where xss = "[uint32_wire a, g]"]) auto
  next
    case (Rp_chat_info a b)
    then show ?thesis
      using assms(2)
      by (simp add: make_response_chat_get_info_def,
        subst response_pieces [where xss = "[uint32_wire a, uint32_wire b]"])
        (auto simp: response_sizes)
  next
    case (Rp_file n s)
    then show ?thesis
      using assms
      by (simp add: make_response_msg_download_file_def,
        subst response_pieces [where xss = "[s]"]) auto
  qed (use assms h encode_response_uint32 [OF assms(2)] in
    \<open>simp_all add: make_response_id_defs make_response_empty_defs make_response_uint32_defs
      make_response_id_list_eq make_response_header_eq\<close>)
qed

subsection \<open>Parsing the bodies\<close>

lemma response_tokenizer_found:
  assumes "is_field None f" "n = length p"
  shows "response_field_tokenizer (p @ f @ BODY_DELIMITER # q) n =
    Inr (p @ f @ 0 # q, n + length f + 1)"
  using assms by (simp add: response_field_tokenizer_def scan_field_found)

lemma response_tokenizer_last:
  assumes "is_field None f" "n = length p"
  shows "response_field_tokenizer (p @ f @ 0 # q) n = Inr (p @ f @ 0 # q, n)"
  using assms by (simp add: response_field_tokenizer_def scan_field_last)

lemma response_cstr_at: "is_field None s \<Longrightarrow> n = length p \<Longrightarrow> cstr (p @ s @ 0 # q) n = Inr s"
  by (simp add: cstr_terminated is_field_def)

lemma parse_user_info:
  assumes ok: "reply_ok (Rp_user_info u ph e)"
  shows "response_parse_user (reply_header st (Rp_user_info u ph e))
      (reply_payload (Rp_user_info u ph e) @ rest) 0 = Inr (reply_body (Rp_user_info u ph e))"
proof -
  let ?d = "BODY_DELIMITER"
  let ?n = "length u + length ph + length e + 2"
  let ?r1 = "length u + 1"
  let ?r2 = "length u + length ph + 2"
  let ?b = "u @ 0 # ph @ 0 # e @ [0]"
  have f: "is_field None u" "is_field None ph" "is_field None e" and len: "?n \<le> RESPONSE_BODY_LEN"
    using ok by auto
  have n: "unat (of_nat ?n :: u32) = ?n"
    using len by (intro unat_of_nat_u32) (simp add: response_sizes)
  have copy: "mem_read (reply_payload (Rp_user_info u ph e) @ rest) 0 ?n =
      Inr (u @ ?d # ph @ ?d # e)"
    using mem_read_front [of ?n "u @ ?d # ph @ ?d # e" rest] by simp
  have t1: "response_field_tokenizer (u @ ?d # ph @ ?d # e @ [0]) 0 =
      Inr (u @ 0 # ph @ ?d # e @ [0], ?r1)"
    using response_tokenizer_found [of u 0 "[]" "ph @ ?d # e @ [0]"] f by simp
  have t2: "response_field_tokenizer (u @ 0 # ph @ ?d # e @ [0]) ?r1 = Inr (?b, ?r2)"
    using response_tokenizer_found [of ph ?r1 "u @ [0]" "e @ [0]"] f by simp
  have t3: "response_field_tokenizer ?b ?r2 = Inr (?b, ?r2)"
    using response_tokenizer_last [of e ?r2 "u @ 0 # ph @ [0]" "[]"] f by simp
  have s: "cstr ?b 0 = Inr u" "cstr ?b ?r1 = Inr ph" "cstr ?b ?r2 = Inr e"
    using response_cstr_at [of u 0 "[]" "ph @ 0 # e @ [0]"]
      response_cstr_at [of ph ?r1 "u @ [0]" "e @ [0]"]
      response_cstr_at [of e ?r2 "u @ 0 # ph @ [0]" "[]"] f by simp_all
  show ?thesis
    using copy t1 t2 t3 s n by (simp add: response_parse_user_def mk_resp_def Let_def)
qed

lemma parse_detail:
  assumes ok: "reply_ok (Rp_msg_detail m)"
  shows "response_parse_msg (reply_header st (Rp_msg_detail m))
      (reply_payload (Rp_msg_detail m) @ rest) 0 = Inr (reply_body (Rp_msg_detail m))"
proof -
  obtain s where s: "sm_msg_content m = Some s" "is_cstr s" "length s + 30 \<le> RESPONSE_BODY_LEN"
    using ok by (auto split: option.splits)
  have n: "unat (of_nat (length s) :: u32) = length s"
    using s(3) by (intro unat_of_nat_u32) (simp add: response_sizes)
  let ?p = "concat (butlast (detail_pieces m))"
  have "cstrn (?p @ s @ rest) (length ?p) (length s) = Inr s"
    by (rule cstrn_exact [OF s(2)])
  moreover have "length ?p = 30"
    by (simp add: detail_pieces_def)
  moreover have "concat (detail_pieces m) @ rest = ?p @ s @ rest"
    using s(1) by (simp add: detail_pieces_def)
  ultimately have str: "cstrn (concat (detail_pieces m) @ rest) 30 (length s) = Inr s"
    by simp
  have "m\<lparr>sm_idls := None\<rparr> = \<lparr>sm_idls = None, sm_msg_id = sm_msg_id m, sm_conv_id = sm_conv_id m,
      sm_chat_id = sm_chat_id m, sm_from_uid = sm_from_uid m, sm_reply_to = sm_reply_to m,
      sm_created_at = sm_created_at m, sm_msg_type = sm_msg_type m,
      sm_content_type = sm_content_type m, sm_content_length = sm_content_length m,
      sm_msg_content = Some s\<rparr>"
    using s(1) by simp
  with str n s(1) show ?thesis
    by (simp add: response_parse_msg_def mk_resp_def detail_pieces_def parse_uint32_from_buf_def
        mem_read_def)
qed

lemma parse_reply:
  assumes "reply_ok r"
  shows "response_parse_body (reply_header st r) (reply_payload r @ rest) 0 = Inr (reply_body r)"
proof (cases r)
  case (Rp_user_info u ph e)
  then show ?thesis
    using parse_user_info [of u ph e st rest] assms
    by (simp add: response_parse_body_def mk_resp_def Let_def)
next
  case (Rp_msg_detail m)
  then show ?thesis
    using parse_detail [of m st rest] assms
    by (simp add: response_parse_body_def mk_resp_def)
next
  case (Rp_conv_info a g)
  then show ?thesis
    using assms cstrn_exact [of g "uint32_wire a" rest]
    by (simp add: response_parse_body_def response_parse_conv_def mk_resp_def Let_def
        response_sizes mem_simps)
next
  case (Rp_file n s)
  then show ?thesis
    using assms cstrn_front [of s "length s" rest]
    by (simp add: response_parse_body_def response_parse_msg_def mk_resp_def response_sizes)
next
  case (Rp_register tok uid)
  then show ?thesis
    using assms by (simp add: response_parse_body_def response_parse_auth_def mk_resp_def
        mem_read_def parse_uint32_from_buf_def)
next
  case (Rp_login tok uid)
  then show ?thesis
    using assms by (simp add: response_parse_body_def response_parse_auth_def mk_resp_def
        mem_read_def parse_uint32_from_buf_def)
qed (use assms in \<open>simp_all add: response_parse_body_def mk_resp_def ids_header_def
  response_parse_user_def response_parse_conv_def response_parse_chat_def response_parse_msg_def
  parse_uint32_list_wire mem_simps\<close>)

lemma encode_reply_parse:
  assumes "reply_ok r" and "RESPONSE_LEN \<le> length res" and "encode_reply (st, r) res = Inr b"
  shows "response_parse (b @ tail) = Inr (reply_view (st, r))"
proof -
  obtain rest where "b = response_header_wire (reply_header st r) @ reply_payload r @ rest"
    using encode_reply_wire [OF assms(1,2), of st] assms(3) by auto
  with response_parse_wire [OF parse_reply [OF assms(1)]] show ?thesis
    by (simp add: reply_view_def)
qed

lemma id_list_loop_length: "id_list_loop ls n i a = Inr b \<Longrightarrow> length b = length a"
  by (induction n arbitrary: i a)
    (auto simp: bindE_eq_Inr_iff dest!: mem_write_length split: if_splits)

lemma make_response_header_length: "make_response_header header res = Inr b \<Longrightarrow> length b = length res"
  by (auto simp: make_response_header_def simp del: writes.simps dest: writes_length)

lemma make_err_response_length: "make_err_response st g a res = Inr b \<Longrightarrow> length b = length res"
  by (auto simp: make_err_response_def simp del: writes.simps dest: writes_length)

lemmas make_response_defs = make_response_id_defs make_response_empty_defs
  make_response_uint32_defs make_response_id_list_def make_response_uint32_def
  make_response_auth_register_def make_response_auth_login_def make_response_user_get_info_def
  make_response_conv_get_info_def make_response_chat_get_info_def make_response_msg_get_detail_def
  make_response_msg_download_file_def

lemma encode_reply_length: "encode_reply (st, r) res = Inr b \<Longrightarrow> length b = length res"
  by (cases r)
    (auto simp: make_response_defs bindE_eq_Inr_iff Let_def split: option.splits
      dest!: make_response_header_length writes_at_length id_list_loop_length)

lemma encode_reply_total:
  assumes "reply_wf m" and "RESPONSE_LEN \<le> n" and "length buf = n"
  shows "\<exists>b. encode_reply m buf = Inr b \<and> length b = n"
proof -
  obtain st r where m: "m = (st, r)" by (cases m)
  obtain b where "encode_reply m buf = Inr b"
    using encode_reply_wire [of r buf st] assms by (auto simp: m reply_wf_def)
  with assms(3) show ?thesis
    using encode_reply_length by (auto simp: m)
qed

text \<open>
  The format serves two sizes of buffer: the client's, of the size of a message, and the
  server's, one byte longer.
\<close>

interpretation rs: codec encode_reply response_parse reply_wf reply_view RESPONSE_LEN
  by unfold_locales (auto intro!: encode_reply_total encode_reply_parse simp: reply_wf_def)

interpretation rs1: codec encode_reply response_parse reply_wf reply_view "RESPONSE_LEN + 1"
  by unfold_locales (auto intro!: encode_reply_total encode_reply_parse simp: reply_wf_def)

section \<open>Properties\<close>



text \<open>
  The client cannot read the outcome of a logout or of dropping, joining or leaving a
  conversation: \<^verbatim>\<open>response_parse\<close> gives up on these replies, whatever their status.
\<close>

theorem status_replies_unreadable:
  assumes "r \<in> {Rp_logout, Rp_conv_drop, Rp_conv_join, Rp_conv_quit}"
    and "length buf = RESPONSE_LEN + 1" and "encode_reply (st, r) buf = Inr b"
  shows "response_parse b = Inr None"
  using encode_reply_parse [of r buf st b "[]"] assms by (auto simp: reply_view_def)

theorem status_replies_unreadable_witness:
  "\<exists>b. encode_reply (200, Rp_conv_join) (zeros (RESPONSE_LEN + 1)) = Inr b \<and>
    response_parse b = Inr None"
proof -
  obtain b where b: "encode_reply (200, Rp_conv_join) (zeros (RESPONSE_LEN + 1)) = Inr b"
    using encode_reply_total [of "(200, Rp_conv_join)" "RESPONSE_LEN + 1" "zeros (RESPONSE_LEN + 1)"]
    unfolding reply_wf_def by auto
  with status_replies_unreadable [of Rp_conv_join "zeros (RESPONSE_LEN + 1)" 200 b] show ?thesis
    by simp
qed

text \<open>
  A list of identifiers is written inside the server's buffer exactly when it has at most
  2040 entries; with more, \<^verbatim>\<open>make_response_id_list\<close> writes behind the end of the buffer.
\<close>

theorem id_list_fits:
  assumes "length buf = RESPONSE_LEN + 1" and "length ls < 1073741824"
  shows "make_response_id_list g a st ls (of_nat (length ls)) buf =
    (if length ls \<le> 2040
     then Inr (response_header_wire (ids_header g a st ls) @ ids_wire ls @
            zeros (RESPONSE_BODY_LEN - 4 * length ls) @ drop RESPONSE_LEN buf)
     else Inl Out_Of_Bounds)"
proof (cases "length ls \<le> 2040")
  case True
  then show ?thesis
    using make_response_id_list_eq [of buf ls g a st] assms
    by (simp add: MAX_IDS_def ids_header_def)
next
  case False
  define b where "b = response_header_wire (ids_header g a st ls) @ zeros RESPONSE_BODY_LEN @
    drop RESPONSE_LEN buf"
  have "make_response_id_list g a st ls (of_nat (length ls)) buf = id_list_loop ls (length ls) 0 b"
    using assms by (simp add: make_response_id_list_loop b_def)
  moreover have "\<exists>f. id_list_loop ls (length ls) 0 b = Inl f"
  proof (rule ccontr)
    assume "\<nexists>f. id_list_loop ls (length ls) 0 b = Inl f"
    then obtain b' where "id_list_loop ls (length ls) 0 b = Inr b'"
      by (cases "id_list_loop ls (length ls) 0 b") auto
    from id_list_loop_bounds [OF this, of 2040] False
    have "RESPONSE_HEADER_LEN + unat (push_bit 2 (of_nat 2040 :: u32)) + 4 \<le> length b"
      by simp
    then show False
      using assms(1) push_bit_2_of_nat [of 2040] by (simp add: b_def response_sizes)
  qed
  ultimately show ?thesis
    using False id_list_loop_fault by force
qed

theorem id_list_fits_witness:
  "make_response_id_list 1 2 200 (replicate 2041 7) (of_nat (length (replicate 2041 (7 :: u32))))
     (zeros (RESPONSE_LEN + 1)) = Inl Out_Of_Bounds"
  by (subst id_list_fits) simp_all

text \<open>
  An error reply with a group above 4 is written without fault, whatever its status and
  action, and \<^verbatim>\<open>response_parse\<close> gives up on it. The reply to a request the server could not
  parse carries the group \<^verbatim>\<open>0xFF\<close>, so the client never learns of its status 400.
\<close>

theorem err_response_unreadable_group:
  assumes "length buf = RESPONSE_LEN + 1" and "4 < g"
  shows "\<exists>b. make_err_response st g a buf = Inr b \<and> response_parse b = Inr None"
proof -
  have h: "RESPONSE_HEADER_LEN \<le> length buf"
    using assms(1) by (simp add: response_sizes)
  have "g \<noteq> 0" "g \<noteq> 1" "g \<noteq> 2" "g \<noteq> 3" "g \<noteq> 4"
    using assms(2) by auto
  then have "response_parse_body (mk_resp g a 0 st 0 0 0) (drop RESPONSE_HEADER_LEN buf) 0 = Inr None"
    by (simp add: response_parse_body_def mk_resp_def)
  then show ?thesis
    by (simp add: make_err_response_eq [OF h] response_parse_wire)
qed

theorem err_response_unreadable_group_witness:
  "\<exists>b. make_err_response 400 255 255 (zeros (RESPONSE_LEN + 1)) = Inr b \<and>
    response_parse b = Inr None"
  using err_response_unreadable_group [of "zeros (RESPONSE_LEN + 1)" 255 400 255] by simp

end
