(* ===== verification/Database.thy ===== *)
theory Database
  imports Bytes
begin

text \<open>
  The database the server keeps: the tables of \<^verbatim>\<open>server/db/schema.up.sql\<close> with their constraints,
  the SQL statements that \<^verbatim>\<open>server/src/sql.c\<close> sends, one constructor each, the text each is
  printed to, and what running it does to the tables and to the one connection all threads
  share.

  SQL itself is the language modelled here: filters, keys, foreign keys with their actions,
  order, limit and offset, transactions. What SQL leaves open is a parameter, the record
  \<open>sqlite\<close>: the order of rows that no \<^verbatim>\<open>ORDER BY\<close> fixes, the matching of \<^verbatim>\<open>LIKE\<close>, and
  whatever the engine makes of a text that is not one of the statements because a string in
  it contains a quote or the buffer cut it off. Errors of the engine (a busy or full disk) come
  from a script in the connection, so a theorem about all connections covers every failure.
\<close>

section \<open>Result codes\<close>

definition SQLITE_OK :: nat where "SQLITE_OK = 0"
definition SQLITE_ERROR :: nat where "SQLITE_ERROR = 1"
definition SQLITE_EMPTY :: nat where "SQLITE_EMPTY = 16"
definition SQLITE_CONSTRAINT :: nat where "SQLITE_CONSTRAINT = 19"
definition SQLITE_MISUSE :: nat where "SQLITE_MISUSE = 21"
definition SQLITE_ROW :: nat where "SQLITE_ROW = 100"
definition SQLITE_DONE :: nat where "SQLITE_DONE = 101"

lemmas rc_defs = SQLITE_OK_def SQLITE_ERROR_def SQLITE_EMPTY_def SQLITE_CONSTRAINT_def
  SQLITE_MISUSE_def SQLITE_ROW_def SQLITE_DONE_def

section \<open>Tables\<close>

record user_row =
  u_id :: nat
  u_uname :: bytes
  u_password :: bytes
  u_phone :: bytes
  u_email :: bytes

record chat_row =
  ch_id :: nat
  ch_member1 :: nat
  ch_member2 :: nat

record conv_row =
  cv_id :: nat
  cv_admin :: nat
  cv_name :: bytes

record member_row =
  mb_rowid :: nat
  mb_conv :: nat
  mb_user :: nat

record msg_row =
  ms_id :: nat
  ms_from :: nat
  ms_reply :: "nat option"
  ms_ctype :: nat
  ms_clen :: nat
  ms_content :: bytes
  ms_created :: nat
  ms_chat :: "nat option"
  ms_conv :: "nat option"
  ms_type :: nat

record db =
  db_users :: "user_row list"
  db_chats :: "chat_row list"
  db_convs :: "conv_row list"
  db_members :: "member_row list"
  db_msgs :: "msg_row list"

definition empty_db :: db where
  "empty_db = \<lparr>db_users = [], db_chats = [], db_convs = [], db_members = [], db_msgs = []\<rparr>"

text \<open>A value of a result row, and what \<^verbatim>\<open>sqlite3_column_int\<close> and \<^verbatim>\<open>sqlite3_column_text\<close> read.\<close>

datatype sqlval = Null | Num nat | Txt bytes

type_synonym row = "sqlval list"

fun column_int :: "sqlval \<Rightarrow> u32" where
  "column_int (Num n) = of_nat n"
| "column_int _ = 0"

fun column_text :: "sqlval \<Rightarrow> bytes option" where
  "column_text (Txt s) = Some s"
| "column_text _ = None"

definition opt_int :: "nat option \<Rightarrow> sqlval" where
  "opt_int x = (case x of None \<Rightarrow> Null | Some n \<Rightarrow> Num n)"

section \<open>Statements\<close>

datatype stmt =
    Begin
  | Commit
  | Rollback
  | Fk_on
  | Sel_user_by_id nat
  | Sel_user_by_uname bytes
  | Search_users bytes int int
  | Ins_user bytes bytes bytes bytes
  | Del_user nat
  | Sel_conv_list nat int int
  | Sel_chat_list nat int int
  | Ins_conv nat bytes
  | Ins_member_last nat
  | Is_admin nat nat
  | Is_member nat nat
  | Del_msgs_conv nat
  | Del_members_conv nat
  | Del_conv nat
  | Ins_member nat nat
  | Del_member nat nat
  | Sel_conv nat
  | Sel_members nat
  | Ins_chat nat nat
  | Is_chat_member nat nat
  | Del_msgs_chat nat
  | Del_chat nat
  | Sel_chat nat
  | Sel_msgs_conv nat int int
  | Sel_msgs_chat nat int int
  | Sel_msg nat
  | Ins_msg nat "nat option" nat nat bytes nat "nat option" "nat option"
  | Upd_delivered nat
  | Upd_deleted nat
  | Del_msg nat
  | Sel_sent nat
  | Sel_del_conv nat nat
  | Sel_del_chat nat nat
  | Empty_stmt

subsection \<open>Their text\<close>

text \<open>\<^verbatim>\<open>%u\<close> and \<^verbatim>\<open>%d\<close> of \<^verbatim>\<open>snprintf\<close>.\<close>

fun dec :: "nat \<Rightarrow> bytes" where
  "dec n = (if n < 10 then [48 + of_nat n] else dec (n div 10) @ [48 + of_nat (n mod 10)])"

declare dec.simps [simp del]

definition dec_int :: "int \<Rightarrow> bytes" where
  "dec_int i = (if i < 0 then 45 # dec (nat (- i)) else dec (nat i))"

definition dec_opt :: "nat option \<Rightarrow> bytes" where
  "dec_opt x = (case x of None \<Rightarrow> map of_char ''NULL'' | Some n \<Rightarrow> dec n)"

definition lit :: "string \<Rightarrow> bytes" where
  "lit s = map of_char s"

definition QUOTE :: byte where
  "QUOTE = 39"

definition quoted :: "bytes \<Rightarrow> bytes" where
  "quoted s = [QUOTE] @ s @ [QUOTE]"

fun stmt_text :: "stmt \<Rightarrow> bytes" where
  "stmt_text Begin = lit ''BEGIN TRANSACTION;''"
| "stmt_text Commit = lit ''COMMIT TRANSACTION;''"
| "stmt_text Rollback = lit ''ROLLBACK;''"
| "stmt_text Fk_on = lit ''PRAGMA foreign_keys=ON;''"
| "stmt_text (Sel_user_by_id i) = lit ''SELECT * FROM users WHERE id='' @ dec i"
| "stmt_text (Sel_user_by_uname u) =
     lit ''SELECT id, uname, password FROM users WHERE uname='' @ quoted u"
| "stmt_text (Search_users u l f) =
     lit ''SELECT id FROM users WHERE uname LIKE '' @ quoted ([37] @ u @ [37]) @
     lit '' LIMIT '' @ dec_int l @ lit '' OFFSET '' @ dec_int f"
| "stmt_text (Ins_user u p ph e) =
     lit ''INSERT INTO users(uname, password, phone, email) VALUES ('' @ quoted u @ lit '', '' @
     quoted p @ lit '', '' @ quoted ph @ lit '', '' @ quoted e @ lit '');''"
| "stmt_text (Del_user i) = lit ''DELETE FROM users WHERE id='' @ dec i @ lit '';''"
| "stmt_text (Sel_conv_list u l f) =
     lit ''SELECT conv_id FROM members WHERE user_id='' @ dec u @
     lit '' ORDER BY rowid DESC LIMIT '' @ dec_int l @ lit '' OFFSET '' @ dec_int f"
| "stmt_text (Sel_chat_list u l f) =
     lit ''SELECT id FROM chats WHERE member1='' @ dec u @ lit '' OR member2='' @ dec u @
     lit '' ORDER BY id DESC LIMIT '' @ dec_int l @ lit '' OFFSET '' @ dec_int f"
| "stmt_text (Ins_conv a g) =
     lit ''INSERT INTO conversations(admin_id,name) VALUES('' @ dec a @ lit '', '' @ quoted g @ lit '');''"
| "stmt_text (Ins_member_last u) =
     lit ''INSERT INTO members(conv_id, user_id) VALUES(last_insert_rowid(), '' @ dec u @ lit '');''"
| "stmt_text (Is_admin c u) =
     lit ''SELECT id FROM conversations WHERE id='' @ dec c @ lit '' AND admin_id='' @ dec u"
| "stmt_text (Is_member c u) =
     lit ''SELECT rowid FROM members WHERE conv_id='' @ dec c @ lit '' AND user_id='' @ dec u"
| "stmt_text (Del_msgs_conv c) = lit ''DELETE FROM messages WHERE conv_id='' @ dec c @ lit '';''"
| "stmt_text (Del_members_conv c) = lit ''DELETE FROM members WHERE conv_id='' @ dec c @ lit '';''"
| "stmt_text (Del_conv c) = lit ''DELETE FROM conversations WHERE id='' @ dec c @ lit '';''"
| "stmt_text (Ins_member c u) =
     lit ''INSERT INTO members(conv_id, user_id) VALUES ('' @ dec c @ lit '', '' @ dec u @ lit '');''"
| "stmt_text (Del_member c u) =
     lit ''DELETE FROM members WHERE conv_id='' @ dec c @ lit '' AND user_id='' @ dec u"
| "stmt_text (Sel_conv c) = lit ''SELECT * FROM conversations WHERE id='' @ dec c"
| "stmt_text (Sel_members c) = lit ''SELECT user_id from members WHERE conv_id='' @ dec c"
| "stmt_text (Ins_chat a b) =
     lit ''INSERT INTO chats(member1, member2) VALUES ('' @ dec a @ lit '', '' @ dec b @ lit '');''"
| "stmt_text (Is_chat_member h u) =
     lit ''SELECT id FROM chats WHERE id='' @ dec h @ lit '' AND (member1='' @ dec u @
     lit '' OR member2='' @ dec u @ lit '')''"
| "stmt_text (Del_msgs_chat h) = lit ''DELETE FROM messages WHERE chat_id='' @ dec h @ lit '';''"
| "stmt_text (Del_chat h) = lit ''DELETE FROM chats WHERE id='' @ dec h @ lit '';''"
| "stmt_text (Sel_chat h) = lit ''SELECT * FROM chats WHERE id='' @ dec h"
| "stmt_text (Sel_msgs_conv c l f) =
     lit ''SELECT id FROM messages WHERE conv_id='' @ dec c @
     lit '' ORDER BY created_at DESC LIMIT '' @ dec_int l @ lit '' OFFSET '' @ dec_int f"
| "stmt_text (Sel_msgs_chat h l f) =
     lit ''SELECT id FROM messages WHERE chat_id='' @ dec h @
     lit '' ORDER BY created_at DESC LIMIT '' @ dec_int l @ lit '' OFFSET '' @ dec_int f"
| "stmt_text (Sel_msg m) = lit ''SELECT * FROM messages WHERE id='' @ dec m"
| "stmt_text (Ins_msg u r ct cl s t h c) =
     lit ''INSERT INTO messages(from_uid, reply_to, content_type, content_length, content, '' @
     lit ''created_at, chat_id, conv_id, type) VALUES ('' @ dec u @ lit '', '' @ dec_opt r @ lit '', '' @
     dec ct @ lit '', '' @ dec cl @ lit '', '' @ quoted s @ lit '', '' @ dec t @ lit '', '' @ dec_opt h @
     lit '', '' @ dec_opt c @ lit '', '' @ dec 0 @ lit '');''"
| "stmt_text (Upd_delivered m) = lit ''UPDATE messages SET type=1 WHERE id='' @ dec m @ lit '';''"
| "stmt_text (Upd_deleted m) =
     lit ''UPDATE messages SET content='' @ quoted [] @ lit '', type=2 WHERE id='' @ dec m @ lit '';''"
| "stmt_text (Del_msg m) = lit ''DELETE FROM messages WHERE id='' @ dec m @ lit '';''"
| "stmt_text (Sel_sent u) =
     lit ''select id from messages where chat_id in (select id from chats where member1='' @ dec u @
     lit '' or member2='' @ dec u @ lit '') and type=0 union select id from messages where conv_id in '' @
     lit ''(select conv_id from members where user_id='' @ dec u @ lit '') and type=0;''"
| "stmt_text (Sel_del_conv u c) =
     lit ''select id from messages where conv_id in (select conv_id from members where user_id='' @
     dec u @ lit '' and conv_id='' @ dec c @ lit '') and type=2;''"
| "stmt_text (Sel_del_chat u h) =
     lit ''select id from messages where chat_id in (select id from chats where (member1='' @ dec u @
     lit '' or member2='' @ dec u @ lit '') and id='' @ dec h @ lit '') and type=2;''"
| "stmt_text Empty_stmt = []"

text \<open>The strings that go into a text, and whether they leave the literals around them whole.\<close>

fun stmt_strings :: "stmt \<Rightarrow> bytes list" where
  "stmt_strings (Sel_user_by_uname u) = [u]"
| "stmt_strings (Search_users u l f) = [u]"
| "stmt_strings (Ins_user u p ph e) = [u, p, ph, e]"
| "stmt_strings (Ins_conv a g) = [g]"
| "stmt_strings (Ins_msg u r ct cl s t h c) = [s]"
| "stmt_strings _ = []"

definition plain :: "bytes \<Rightarrow> bool" where
  "plain s \<longleftrightarrow> QUOTE \<notin> set s"

text \<open>
  What \<^verbatim>\<open>snprintf\<close> leaves in a buffer of \<open>cap\<close> bytes is one of the statements when it was not
  cut off and its strings contain no quote, and otherwise just a text.
\<close>

datatype query = Known stmt | Raw bytes

definition snprintf_query :: "nat \<Rightarrow> stmt \<Rightarrow> query" where
  "snprintf_query cap st =
     (if length (stmt_text st) < cap \<and> list_all plain (stmt_strings st) then Known st
      else Raw (take (cap - 1) (stmt_text st)))"

section \<open>What the statements read\<close>

text \<open>The text of a script event: the code, the rows delivered before it, and whether the engine
  gave up the open transaction, as some errors make it do.\<close>

record fault_ev =
  ev_rc :: nat
  ev_after :: nat
  ev_rollback :: bool

record conn =
  cn_db :: db
  cn_fk :: bool
  cn_tx :: "db option"
  cn_last :: nat
  cn_mutex :: bool
  cn_script :: "fault_ev list"

record sqlite =
  sq_order :: "stmt \<Rightarrow> nat list \<Rightarrow> nat list"
  sq_like :: "bytes \<Rightarrow> bytes \<Rightarrow> bool"
  sq_prep :: "bytes \<Rightarrow> nat"
  sq_raw :: "bytes \<Rightarrow> conn \<Rightarrow> nat \<times> row list \<times> conn"

definition page :: "int \<Rightarrow> int \<Rightarrow> 'a list \<Rightarrow> 'a list" where
  "page limit offset xs =
     (if limit < 0 then drop (nat offset) xs else take (nat limit) (drop (nat offset) xs))"

definition user_row_vals :: "user_row \<Rightarrow> row" where
  "user_row_vals u = [Num (u_id u), Txt (u_uname u), Txt (u_password u), Txt (u_phone u),
     Txt (u_email u)]"

definition msg_row_vals :: "msg_row \<Rightarrow> row" where
  "msg_row_vals m = [Num (ms_id m), Num (ms_from m), opt_int (ms_reply m), Num (ms_ctype m),
     Num (ms_clen m), Txt (ms_content m), Num (ms_created m), opt_int (ms_chat m),
     opt_int (ms_conv m), Num (ms_type m)]"

definition msgs_where :: "(msg_row \<Rightarrow> bool) \<Rightarrow> db \<Rightarrow> nat list" where
  "msgs_where P d = map ms_id (filter P (db_msgs d))"

definition created_at :: "db \<Rightarrow> nat \<Rightarrow> nat" where
  "created_at d i = (case find (\<lambda>m. ms_id m = i) (db_msgs d) of None \<Rightarrow> 0 | Some m \<Rightarrow> ms_created m)"

definition by_created_desc :: "db \<Rightarrow> nat list \<Rightarrow> nat list" where
  "by_created_desc d = sort_key (\<lambda>i. - int (created_at d i))"

definition is_conv_member :: "db \<Rightarrow> nat \<Rightarrow> nat \<Rightarrow> bool" where
  "is_conv_member d c u \<longleftrightarrow> (\<exists>m\<in>set (db_members d). mb_conv m = c \<and> mb_user m = u)"

definition in_chat :: "chat_row \<Rightarrow> nat \<Rightarrow> bool" where
  "in_chat h u \<longleftrightarrow> ch_member1 h = u \<or> ch_member2 h = u"

definition is_chat_party :: "db \<Rightarrow> nat \<Rightarrow> nat \<Rightarrow> bool" where
  "is_chat_party d h u \<longleftrightarrow> (\<exists>x\<in>set (db_chats d). ch_id x = h \<and> in_chat x u)"

definition opt_holds :: "(nat \<Rightarrow> bool) \<Rightarrow> nat option \<Rightarrow> bool" where
  "opt_holds P x = (case x of None \<Rightarrow> False | Some n \<Rightarrow> P n)"

fun select :: "sqlite \<Rightarrow> db \<Rightarrow> stmt \<Rightarrow> row list" where
  "select Q d (Sel_user_by_id i) = map user_row_vals (filter (\<lambda>u. u_id u = i) (db_users d))"
| "select Q d (Sel_user_by_uname s) =
     map (\<lambda>u. [Num (u_id u), Txt (u_uname u), Txt (u_password u)])
       (filter (\<lambda>u. u_uname u = s) (db_users d))"
| "select Q d (Search_users s l f) =
     map (\<lambda>i. [Num i]) (page l f (sq_order Q (Search_users s l f)
       (map u_id (filter (\<lambda>u. sq_like Q ([37] @ s @ [37]) (u_uname u)) (db_users d)))))"
| "select Q d (Sel_conv_list u l f) =
     map (\<lambda>m. [Num (mb_conv m)]) (page l f (rev (sort_key mb_rowid
       (filter (\<lambda>m. mb_user m = u) (db_members d)))))"
| "select Q d (Sel_chat_list u l f) =
     map (\<lambda>i. [Num i]) (page l f (rev (sort (map ch_id (filter (\<lambda>h. in_chat h u) (db_chats d))))))"
| "select Q d (Is_admin c u) =
     map (\<lambda>v. [Num (cv_id v)]) (filter (\<lambda>v. cv_id v = c \<and> cv_admin v = u) (db_convs d))"
| "select Q d (Is_member c u) =
     map (\<lambda>m. [Num (mb_rowid m)]) (filter (\<lambda>m. mb_conv m = c \<and> mb_user m = u) (db_members d))"
| "select Q d (Sel_conv c) =
     map (\<lambda>v. [Num (cv_id v), Num (cv_admin v), Txt (cv_name v)])
       (filter (\<lambda>v. cv_id v = c) (db_convs d))"
| "select Q d (Sel_members c) =
     map (\<lambda>i. [Num i]) (sq_order Q (Sel_members c)
       (map mb_user (filter (\<lambda>m. mb_conv m = c) (db_members d))))"
| "select Q d (Is_chat_member h u) =
     map (\<lambda>x. [Num (ch_id x)]) (filter (\<lambda>x. ch_id x = h \<and> in_chat x u) (db_chats d))"
| "select Q d (Sel_chat h) =
     map (\<lambda>x. [Num (ch_id x), Num (ch_member1 x), Num (ch_member2 x)])
       (filter (\<lambda>x. ch_id x = h) (db_chats d))"
| "select Q d (Sel_msgs_conv c l f) =
     map (\<lambda>i. [Num i]) (page l f (by_created_desc d (sq_order Q (Sel_msgs_conv c l f)
       (msgs_where (\<lambda>m. ms_conv m = Some c) d))))"
| "select Q d (Sel_msgs_chat h l f) =
     map (\<lambda>i. [Num i]) (page l f (by_created_desc d (sq_order Q (Sel_msgs_chat h l f)
       (msgs_where (\<lambda>m. ms_chat m = Some h) d))))"
| "select Q d (Sel_msg i) = map msg_row_vals (filter (\<lambda>m. ms_id m = i) (db_msgs d))"
| "select Q d (Sel_sent u) =
     map (\<lambda>i. [Num i]) (sq_order Q (Sel_sent u) (remdups (msgs_where
       (\<lambda>m. ms_type m = 0 \<and> (opt_holds (\<lambda>h. is_chat_party d h u) (ms_chat m) \<or>
                              opt_holds (\<lambda>c. is_conv_member d c u) (ms_conv m))) d)))"
| "select Q d (Sel_del_conv u c) =
     map (\<lambda>i. [Num i]) (sq_order Q (Sel_del_conv u c) (msgs_where
       (\<lambda>m. ms_type m = 2 \<and> ms_conv m = Some c \<and> is_conv_member d c u) d))"
| "select Q d (Sel_del_chat u h) =
     map (\<lambda>i. [Num i]) (sq_order Q (Sel_del_chat u h) (msgs_where
       (\<lambda>m. ms_type m = 2 \<and> ms_chat m = Some h \<and> is_chat_party d h u) d))"
| "select Q d _ = []"

section \<open>What the statements write\<close>

definition new_id :: "nat list \<Rightarrow> nat" where
  "new_id ids = foldr max ids 0 + 1"

text \<open>
  Deletion of messages. With foreign keys on, the messages that reply to a deleted one go
  too, and the replies to them.
\<close>

definition replies_to :: "nat list \<Rightarrow> msg_row \<Rightarrow> bool" where
  "replies_to dead m \<longleftrightarrow> opt_holds (\<lambda>r. r \<in> set dead) (ms_reply m)"

function cascade_replies :: "nat list \<Rightarrow> msg_row list \<Rightarrow> msg_row list" where
  "cascade_replies dead ms =
     (if \<exists>m\<in>set ms. replies_to dead m
      then cascade_replies (map ms_id (filter (replies_to dead) ms))
             (filter (\<lambda>m. \<not> replies_to dead m) ms)
      else ms)"
  by pat_completeness auto
termination
  by (relation "measure (\<lambda>(dead, ms). length ms)")
    (auto simp: length_filter_less)

declare cascade_replies.simps [simp del]

definition delete_msgs :: "bool \<Rightarrow> (msg_row \<Rightarrow> bool) \<Rightarrow> db \<Rightarrow> db" where
  "delete_msgs fk P d =
     (let keep = filter (\<lambda>m. \<not> P m) (db_msgs d)
      in d\<lparr>db_msgs := if fk then cascade_replies (msgs_where P d) keep else keep\<rparr>)"

definition delete_chats :: "bool \<Rightarrow> (chat_row \<Rightarrow> bool) \<Rightarrow> db \<Rightarrow> db" where
  "delete_chats fk P d =
     (let dead = map ch_id (filter P (db_chats d));
          d' = d\<lparr>db_chats := filter (\<lambda>h. \<not> P h) (db_chats d)\<rparr>
      in if fk then delete_msgs fk (\<lambda>m. opt_holds (\<lambda>h. h \<in> set dead) (ms_chat m)) d' else d')"

definition delete_members :: "(member_row \<Rightarrow> bool) \<Rightarrow> db \<Rightarrow> db" where
  "delete_members P d = d\<lparr>db_members := filter (\<lambda>m. \<not> P m) (db_members d)\<rparr>"

definition delete_convs :: "bool \<Rightarrow> (conv_row \<Rightarrow> bool) \<Rightarrow> db \<Rightarrow> db" where
  "delete_convs fk P d =
     (let dead = map cv_id (filter P (db_convs d));
          d' = d\<lparr>db_convs := filter (\<lambda>v. \<not> P v) (db_convs d)\<rparr>
      in if fk
         then delete_msgs fk (\<lambda>m. opt_holds (\<lambda>c. c \<in> set dead) (ms_conv m))
                (delete_members (\<lambda>m. mb_conv m \<in> set dead) d')
         else d')"

text \<open>
  A user: the chats, conversations and memberships go with it, but a message that is left and
  was sent by the user stops the deletion.
\<close>

definition delete_user :: "bool \<Rightarrow> nat \<Rightarrow> db \<Rightarrow> nat + db" where
  "delete_user fk i d =
     (let d' = d\<lparr>db_users := filter (\<lambda>u. u_id u \<noteq> i) (db_users d)\<rparr>
      in if \<not> fk \<or> (\<forall>u\<in>set (db_users d). u_id u \<noteq> i) then Inr d'
         else
           let d'' = delete_members (\<lambda>m. mb_user m = i)
                 (delete_convs fk (\<lambda>v. cv_admin v = i)
                   (delete_chats fk (\<lambda>h. in_chat h i) d'))
           in if \<exists>m\<in>set (db_msgs d''). ms_from m = i then Inl SQLITE_CONSTRAINT else Inr d'')"

definition user_exists :: "db \<Rightarrow> nat \<Rightarrow> bool" where
  "user_exists d i \<longleftrightarrow> i \<in> u_id ` set (db_users d)"

definition conv_exists :: "db \<Rightarrow> nat \<Rightarrow> bool" where
  "conv_exists d i \<longleftrightarrow> i \<in> cv_id ` set (db_convs d)"

definition chat_exists :: "db \<Rightarrow> nat \<Rightarrow> bool" where
  "chat_exists d i \<longleftrightarrow> i \<in> ch_id ` set (db_chats d)"

definition msg_exists :: "db \<Rightarrow> nat \<Rightarrow> bool" where
  "msg_exists d i \<longleftrightarrow> i \<in> ms_id ` set (db_msgs d)"

definition opt_ref :: "(nat \<Rightarrow> bool) \<Rightarrow> nat option \<Rightarrow> bool" where
  "opt_ref P x = (case x of None \<Rightarrow> True | Some n \<Rightarrow> P n)"

definition insert_user :: "bytes \<Rightarrow> bytes \<Rightarrow> bytes \<Rightarrow> bytes \<Rightarrow> db \<Rightarrow> nat + (db \<times> nat)" where
  "insert_user un pw ph em d =
     (if un \<in> u_uname ` set (db_users d) then Inl SQLITE_CONSTRAINT
      else
        let i = new_id (map u_id (db_users d))
        in Inr (d\<lparr>db_users := db_users d @ [\<lparr>u_id = i, u_uname = un, u_password = pw,
                  u_phone = ph, u_email = em\<rparr>]\<rparr>, i))"

definition insert_conv :: "bool \<Rightarrow> nat \<Rightarrow> bytes \<Rightarrow> db \<Rightarrow> nat + (db \<times> nat)" where
  "insert_conv fk admin name d =
     (if fk \<and> \<not> user_exists d admin then Inl SQLITE_CONSTRAINT
      else
        let i = new_id (map cv_id (db_convs d))
        in Inr (d\<lparr>db_convs := db_convs d @ [\<lparr>cv_id = i, cv_admin = admin, cv_name = name\<rparr>]\<rparr>, i))"

definition insert_member :: "bool \<Rightarrow> nat \<Rightarrow> nat \<Rightarrow> db \<Rightarrow> nat + (db \<times> nat)" where
  "insert_member fk c u d =
     (if is_conv_member d c u then Inl SQLITE_CONSTRAINT
      else if fk \<and> \<not> (conv_exists d c \<and> user_exists d u) then Inl SQLITE_CONSTRAINT
      else
        let i = new_id (map mb_rowid (db_members d))
        in Inr (d\<lparr>db_members := db_members d @ [\<lparr>mb_rowid = i, mb_conv = c, mb_user = u\<rparr>]\<rparr>, i))"

definition insert_chat :: "bool \<Rightarrow> nat \<Rightarrow> nat \<Rightarrow> db \<Rightarrow> nat + (db \<times> nat)" where
  "insert_chat fk a b d =
     (if (a, b) \<in> (\<lambda>h. (ch_member1 h, ch_member2 h)) ` set (db_chats d) then Inl SQLITE_CONSTRAINT
      else if fk \<and> \<not> (user_exists d a \<and> user_exists d b) then Inl SQLITE_CONSTRAINT
      else
        let i = new_id (map ch_id (db_chats d))
        in Inr (d\<lparr>db_chats := db_chats d @ [\<lparr>ch_id = i, ch_member1 = a, ch_member2 = b\<rparr>]\<rparr>, i))"

definition insert_msg :: "bool \<Rightarrow> nat \<Rightarrow> nat option \<Rightarrow> nat \<Rightarrow> nat \<Rightarrow> bytes \<Rightarrow> nat \<Rightarrow> nat option
    \<Rightarrow> nat option \<Rightarrow> db \<Rightarrow> nat + (db \<times> nat)" where
  "insert_msg fk u r ct cl s t h c d =
     (let i = new_id (map ms_id (db_msgs d));
          new = \<lparr>ms_id = i, ms_from = u, ms_reply = r, ms_ctype = ct, ms_clen = cl, ms_content = s,
                 ms_created = t, ms_chat = h, ms_conv = c, ms_type = 0\<rparr>;
          d' = d\<lparr>db_msgs := db_msgs d @ [new]\<rparr>
      in if fk \<and> \<not> (user_exists d u \<and> opt_ref (msg_exists d') r \<and> opt_ref (chat_exists d) h \<and>
                   opt_ref (conv_exists d) c)
         then Inl SQLITE_CONSTRAINT
         else Inr (d', i))"

definition update_msgs :: "nat \<Rightarrow> (msg_row \<Rightarrow> msg_row) \<Rightarrow> db \<Rightarrow> db" where
  "update_msgs i f d = d\<lparr>db_msgs := map (\<lambda>m. if ms_id m = i then f m else m) (db_msgs d)\<rparr>"

text \<open>The effect of a writing statement; \<open>lst\<close> is the connection's last inserted rowid.\<close>

fun dml :: "bool \<Rightarrow> nat \<Rightarrow> stmt \<Rightarrow> db \<Rightarrow> nat + (db \<times> nat)" where
  "dml fk lst (Ins_user un pw ph em) d = insert_user un pw ph em d"
| "dml fk lst (Del_user i) d =
     (case delete_user fk i d of Inl e \<Rightarrow> Inl e | Inr d' \<Rightarrow> Inr (d', lst))"
| "dml fk lst (Ins_conv a g) d = insert_conv fk a g d"
| "dml fk lst (Ins_member_last u) d = insert_member fk lst u d"
| "dml fk lst (Ins_member c u) d = insert_member fk c u d"
| "dml fk lst (Del_msgs_conv c) d = Inr (delete_msgs fk (\<lambda>m. ms_conv m = Some c) d, lst)"
| "dml fk lst (Del_members_conv c) d = Inr (delete_members (\<lambda>m. mb_conv m = c) d, lst)"
| "dml fk lst (Del_conv c) d = Inr (delete_convs fk (\<lambda>v. cv_id v = c) d, lst)"
| "dml fk lst (Del_member c u) d =
     Inr (delete_members (\<lambda>m. mb_conv m = c \<and> mb_user m = u) d, lst)"
| "dml fk lst (Ins_chat a b) d = insert_chat fk a b d"
| "dml fk lst (Del_msgs_chat h) d = Inr (delete_msgs fk (\<lambda>m. ms_chat m = Some h) d, lst)"
| "dml fk lst (Del_chat h) d = Inr (delete_chats fk (\<lambda>x. ch_id x = h) d, lst)"
| "dml fk lst (Ins_msg u r ct cl s t h c) d = insert_msg fk u r ct cl s t h c d"
| "dml fk lst (Upd_delivered i) d = Inr (update_msgs i (\<lambda>m. m\<lparr>ms_type := 1\<rparr>) d, lst)"
| "dml fk lst (Upd_deleted i) d =
     Inr (update_msgs i (\<lambda>m. m\<lparr>ms_content := [], ms_type := 2\<rparr>) d, lst)"
| "dml fk lst (Del_msg i) d = Inr (delete_msgs fk (\<lambda>m. ms_id m = i) d, lst)"
| "dml fk lst _ d = Inr (d, lst)"

section \<open>The connection\<close>

text \<open>
  One statement on the connection: \<^verbatim>\<open>PRAGMA foreign_keys\<close> does nothing inside a transaction,
  transactions do not nest, and an empty text is a statement that cannot be run.
\<close>

definition run_stmt :: "sqlite \<Rightarrow> stmt \<Rightarrow> conn \<Rightarrow> nat \<times> row list \<times> conn" where
  "run_stmt Q st c =
     (case st of
        Begin \<Rightarrow>
          if cn_tx c = None then (SQLITE_DONE, [], c\<lparr>cn_tx := Some (cn_db c)\<rparr>)
          else (SQLITE_ERROR, [], c)
      | Commit \<Rightarrow>
          if cn_tx c = None then (SQLITE_ERROR, [], c) else (SQLITE_DONE, [], c\<lparr>cn_tx := None\<rparr>)
      | Rollback \<Rightarrow>
          (case cn_tx c of
             None \<Rightarrow> (SQLITE_ERROR, [], c)
           | Some d \<Rightarrow> (SQLITE_DONE, [], c\<lparr>cn_db := d, cn_tx := None\<rparr>))
      | Fk_on \<Rightarrow> (SQLITE_DONE, [], if cn_tx c = None then c\<lparr>cn_fk := True\<rparr> else c)
      | Empty_stmt \<Rightarrow> (SQLITE_MISUSE, [], c)
      | _ \<Rightarrow>
          (case dml (cn_fk c) (cn_last c) st (cn_db c) of
             Inl e \<Rightarrow> (e, [], c)
           | Inr (d, i) \<Rightarrow>
               (SQLITE_DONE, select Q (cn_db c) st, c\<lparr>cn_db := d, cn_last := i\<rparr>)))"

definition run_query :: "sqlite \<Rightarrow> query \<Rightarrow> conn \<Rightarrow> nat \<times> row list \<times> conn" where
  "run_query Q q c = (case q of Known st \<Rightarrow> run_stmt Q st c | Raw text \<Rightarrow> sq_raw Q text c)"

text \<open>The codes that \<^verbatim>\<open>sql_is_ok\<close> accepts.\<close>

definition sql_is_ok :: "nat \<Rightarrow> bool" where
  "sql_is_ok rc \<longleftrightarrow> rc = SQLITE_OK \<or> rc = SQLITE_ROW \<or> rc = SQLITE_DONE \<or> rc = SQLITE_EMPTY"

definition sql_is_err :: "nat \<Rightarrow> bool" where
  "sql_is_err rc \<longleftrightarrow> \<not> sql_is_ok rc"

text \<open>The next event of the script; an event with a code that is no error is no event.\<close>

definition next_ev :: "conn \<Rightarrow> fault_ev option \<times> conn" where
  "next_ev c =
     (case cn_script c of
        [] \<Rightarrow> (None, c)
      | e # es \<Rightarrow> (if sql_is_err (ev_rc e) then Some e else None, c\<lparr>cn_script := es\<rparr>))"

definition give_up :: "fault_ev \<Rightarrow> conn \<Rightarrow> conn" where
  "give_up e c =
     (case cn_tx c of
        Some d \<Rightarrow> if ev_rollback e then c\<lparr>cn_db := d, cn_tx := None\<rparr> else c
      | None \<Rightarrow> c)"

definition step :: "sqlite \<Rightarrow> query \<Rightarrow> conn \<Rightarrow> nat \<times> row list \<times> conn" where
  "step Q q c =
     (case next_ev c of
        (None, c') \<Rightarrow> run_query Q q c'
      | (Some e, c') \<Rightarrow>
          (case run_query Q q c' of
             (rc, rows, _) \<Rightarrow> (ev_rc e, take (ev_after e) rows, give_up e c')))"

definition prepare :: "sqlite \<Rightarrow> query \<Rightarrow> conn \<Rightarrow> nat \<times> conn" where
  "prepare Q q c =
     (case next_ev c of
        (None, c') \<Rightarrow> (case q of Known st \<Rightarrow> SQLITE_OK | Raw text \<Rightarrow> sq_prep Q text, c')
      | (Some e, c') \<Rightarrow> (ev_rc e, c'))"

fun exec :: "sqlite \<Rightarrow> query list \<Rightarrow> conn \<Rightarrow> nat \<times> conn" where
  "exec Q [] c = (SQLITE_OK, c)"
| "exec Q (q # qs) c =
     (case step Q q c of
        (rc, rows, c') \<Rightarrow> if rc = SQLITE_DONE then exec Q qs c' else (rc, c'))"

section \<open>The texts fit\<close>

lemma length_dec: "n < 10 ^ k \<Longrightarrow> 0 < k \<Longrightarrow> length (dec n) \<le> k"
proof (induction n arbitrary: k rule: dec.induct)
  case (1 n)
  show ?case
  proof (cases "n < 10")
    case True
    then show ?thesis using "1.prems" by (subst dec.simps) simp
  next
    case False
    obtain j where k: "k = Suc j"
      using "1.prems" by (cases k) auto
    have "0 < j"
      using False "1.prems" by (cases j) (simp_all add: k)
    have "n div 10 < 10 ^ j"
      using "1.prems" k by (simp add: less_mult_imp_div_less)
    then have "length (dec (n div 10)) \<le> j"
      using "1.IH" False \<open>0 < j\<close> by blast
    then show ?thesis using False k by (subst dec.simps) simp
  qed
qed

lemma length_dec_u32: "length (dec (unat (w :: u32))) \<le> 10"
  using unat_u32_bound [of w] by (intro length_dec) simp_all

lemma length_dec_opt: "opt_ref (\<lambda>n. n < 4294967296) x \<Longrightarrow> length (dec_opt x) \<le> 10"
  by (auto simp: dec_opt_def opt_ref_def split: option.splits intro: length_dec)

lemma length_dec_int_i32: "length (dec_int (sint (w :: i32))) \<le> 11"
proof -
  have "sint w < 2147483648" "- 2147483648 \<le> sint w"
    using sint_range_size [of w] by (simp_all add: word_size)
  then have "length (dec (nat (sint w))) \<le> 10" "length (dec (nat (- sint w))) \<le> 10"
    by (simp_all add: length_dec nat_less_iff)
  then show ?thesis by (simp add: dec_int_def)
qed

lemma length_lit [simp]: "length (lit s) = length s"
  by (simp add: lit_def)

lemma length_quoted [simp]: "length (quoted s) = length s + 2"
  by (simp add: quoted_def)

definition QUERY_SMALL :: nat where
  "QUERY_SMALL = 512"

definition QUERY_LARGE :: nat where
  "QUERY_LARGE = BUFSIZ"

text \<open>A text of numbers only is never cut off.\<close>

lemma numbers_fit:
  fixes a b :: u32 and l f :: i32
  shows "snprintf_query QUERY_SMALL (Sel_user_by_id (unat a)) = Known (Sel_user_by_id (unat a))"
    and "snprintf_query QUERY_SMALL (Del_user (unat a)) = Known (Del_user (unat a))"
    and "snprintf_query QUERY_SMALL (Sel_conv_list (unat a) (sint l) (sint f)) =
      Known (Sel_conv_list (unat a) (sint l) (sint f))"
    and "snprintf_query QUERY_SMALL (Sel_chat_list (unat a) (sint l) (sint f)) =
      Known (Sel_chat_list (unat a) (sint l) (sint f))"
    and "snprintf_query QUERY_SMALL (Ins_member_last (unat a)) = Known (Ins_member_last (unat a))"
    and "snprintf_query QUERY_SMALL (Is_admin (unat a) (unat b)) = Known (Is_admin (unat a) (unat b))"
    and "snprintf_query QUERY_SMALL (Is_member (unat a) (unat b)) = Known (Is_member (unat a) (unat b))"
    and "snprintf_query QUERY_SMALL (Ins_member (unat a) (unat b)) = Known (Ins_member (unat a) (unat b))"
    and "snprintf_query QUERY_SMALL (Del_member (unat a) (unat b)) = Known (Del_member (unat a) (unat b))"
    and "snprintf_query QUERY_SMALL (Sel_conv (unat a)) = Known (Sel_conv (unat a))"
    and "snprintf_query QUERY_SMALL (Sel_members (unat a)) = Known (Sel_members (unat a))"
    and "snprintf_query QUERY_SMALL (Ins_chat (unat a) (unat b)) = Known (Ins_chat (unat a) (unat b))"
    and "snprintf_query QUERY_SMALL (Is_chat_member (unat a) (unat b)) =
      Known (Is_chat_member (unat a) (unat b))"
  using length_dec_u32 [of a] length_dec_u32 [of b] length_dec_int_i32 [of l]
    length_dec_int_i32 [of f]
  by (simp_all add: snprintf_query_def QUERY_SMALL_def)

lemma numbers_fit_more:
  fixes a b :: u32 and l f :: i32
  shows "snprintf_query QUERY_SMALL Begin = Known Begin"
    and "snprintf_query QUERY_SMALL Commit = Known Commit"
    and "snprintf_query QUERY_SMALL Fk_on = Known Fk_on"
    and "snprintf_query QUERY_SMALL (Del_msgs_conv (unat a)) = Known (Del_msgs_conv (unat a))"
    and "snprintf_query QUERY_SMALL (Del_members_conv (unat a)) = Known (Del_members_conv (unat a))"
    and "snprintf_query QUERY_SMALL (Del_conv (unat a)) = Known (Del_conv (unat a))"
    and "snprintf_query QUERY_SMALL (Del_msgs_chat (unat a)) = Known (Del_msgs_chat (unat a))"
    and "snprintf_query QUERY_SMALL (Del_chat (unat a)) = Known (Del_chat (unat a))"
    and "snprintf_query QUERY_SMALL (Sel_chat (unat a)) = Known (Sel_chat (unat a))"
    and "snprintf_query QUERY_SMALL (Sel_msgs_conv (unat a) (sint l) (sint f)) =
      Known (Sel_msgs_conv (unat a) (sint l) (sint f))"
    and "snprintf_query QUERY_SMALL (Sel_msgs_chat (unat a) (sint l) (sint f)) =
      Known (Sel_msgs_chat (unat a) (sint l) (sint f))"
    and "snprintf_query QUERY_SMALL (Sel_msg (unat a)) = Known (Sel_msg (unat a))"
    and "snprintf_query QUERY_SMALL (Upd_delivered (unat a)) = Known (Upd_delivered (unat a))"
    and "snprintf_query QUERY_SMALL (Upd_deleted (unat a)) = Known (Upd_deleted (unat a))"
    and "snprintf_query QUERY_SMALL (Del_msg (unat a)) = Known (Del_msg (unat a))"
    and "snprintf_query QUERY_SMALL (Sel_sent (unat a)) = Known (Sel_sent (unat a))"
    and "snprintf_query QUERY_SMALL (Sel_del_conv (unat a) (unat b)) =
      Known (Sel_del_conv (unat a) (unat b))"
    and "snprintf_query QUERY_SMALL (Sel_del_chat (unat a) (unat b)) =
      Known (Sel_del_chat (unat a) (unat b))"
    and "snprintf_query QUERY_SMALL Empty_stmt = Known Empty_stmt"
  using length_dec_u32 [of a] length_dec_u32 [of b] length_dec_int_i32 [of l]
    length_dec_int_i32 [of f]
  by (simp_all add: snprintf_query_def QUERY_SMALL_def)

lemmas numeric_queries [sql_simps] = numbers_fit numbers_fit_more

end
