(* ===== verification/Integrity.thy ===== *)
theory Integrity
  imports Database
begin

text \<open>
  The integrity of the database: the keys of the schema stay unique under every statement, and
  with foreign keys on every reference leads to a row. The interface for such an invariant
  is the locale \<open>db_invariant\<close>: an invariant of the tables that the writing statements keep is
  kept by every call of the engine on the connection, with all its errors, rollbacks and
  transactions. Both invariants of the schema are instances.
\<close>

section \<open>Keys\<close>

definition db_keys :: "db \<Rightarrow> bool" where
  "db_keys d \<longleftrightarrow>
     distinct (map u_id (db_users d)) \<and> distinct (map u_uname (db_users d)) \<and>
     distinct (map ch_id (db_chats d)) \<and>
     distinct (map (\<lambda>h. (ch_member1 h, ch_member2 h)) (db_chats d)) \<and>
     distinct (map cv_id (db_convs d)) \<and>
     distinct (map mb_rowid (db_members d)) \<and>
     distinct (map (\<lambda>m. (mb_user m, mb_conv m)) (db_members d)) \<and>
     distinct (map ms_id (db_msgs d))"

lemma le_foldr_max: "n \<in> set ids \<Longrightarrow> n \<le> foldr max ids (0 :: nat)"
  by (induction ids) (auto simp: le_max_iff_disj)

lemma new_id_fresh: "new_id ids \<notin> set ids"
  using le_foldr_max [of "new_id ids" ids] by (auto simp: new_id_def)

lemma new_id_fresh_map [simp]: "new_id (map f xs) \<notin> f ` set xs"
  using new_id_fresh [of "map f xs"] by simp

lemma new_id_neq [simp]: "x \<in> set xs \<Longrightarrow> f x \<noteq> new_id (map f xs)"
  by (metis imageI new_id_fresh_map)

lemma filter_new_id [simp]: "filter (\<lambda>x. f x = new_id (map f xs)) xs = []"
  by (simp add: filter_empty_conv)

lemma cascade_filter: "\<exists>P. cascade_replies dead ms = filter P ms"
proof (induction dead ms rule: cascade_replies.induct)
  case (1 dead ms)
  show ?case
  proof (cases "\<exists>m\<in>set ms. replies_to dead m")
    case True
    with 1 obtain P where "cascade_replies dead ms = filter P (filter (\<lambda>m. \<not> replies_to dead m) ms)"
      by (auto simp: cascade_replies.simps [of dead ms])
    then show ?thesis unfolding filter_filter by blast
  next
    case False
    then have "cascade_replies dead ms = filter (\<lambda>_. True) ms"
      by (simp add: cascade_replies.simps)
    then show ?thesis by blast
  qed
qed

lemma delete_msgs_filter: "\<exists>Q. delete_msgs fk P d = d\<lparr>db_msgs := filter Q (db_msgs d)\<rparr>"
proof -
  obtain R where "cascade_replies (msgs_where P d) (filter (\<lambda>m. \<not> P m) (db_msgs d)) =
      filter R (filter (\<lambda>m. \<not> P m) (db_msgs d))"
    using cascade_filter by blast
  then have "delete_msgs fk P d = d\<lparr>db_msgs := filter (\<lambda>m. (fk \<longrightarrow> R m) \<and> \<not> P m) (db_msgs d)\<rparr>"
    by (simp add: delete_msgs_def Let_def conj_commute)
  then show ?thesis by blast
qed

lemma db_keys_delete_msgs: "db_keys d \<Longrightarrow> db_keys (delete_msgs fk P d)"
  using delete_msgs_filter [of fk P d] by (auto simp: db_keys_def distinct_map_filter)

lemma db_keys_delete_members: "db_keys d \<Longrightarrow> db_keys (delete_members P d)"
  by (simp add: db_keys_def delete_members_def distinct_map_filter)

lemma db_keys_delete_chats: "db_keys d \<Longrightarrow> db_keys (delete_chats fk P d)"
  by (auto simp: delete_chats_def Let_def db_keys_def distinct_map_filter
      intro!: db_keys_delete_msgs [unfolded db_keys_def])

lemma db_keys_delete_convs: "db_keys d \<Longrightarrow> db_keys (delete_convs fk P d)"
  by (simp add: delete_convs_def Let_def db_keys_delete_msgs db_keys_delete_members)
    (auto simp: db_keys_def distinct_map_filter
      intro!: db_keys_delete_msgs [unfolded db_keys_def]
        db_keys_delete_members [unfolded db_keys_def])

lemma db_keys_delete_user:
  assumes "db_keys d" and "delete_user fk i d = Inr d'"
  shows "db_keys d'"
proof -
  have "db_keys (d\<lparr>db_users := filter (\<lambda>u. u_id u \<noteq> i) (db_users d)\<rparr>)"
    using assms(1) by (simp add: db_keys_def distinct_map_filter)
  with assms(2) show ?thesis
    by (auto simp: delete_user_def Let_def split: if_splits
        intro!: db_keys_delete_members db_keys_delete_convs db_keys_delete_chats)
qed

lemma update_msgs_ids:
  "(\<And>m. ms_id (f m) = ms_id m) \<Longrightarrow> map ms_id (db_msgs (update_msgs i f d)) = map ms_id (db_msgs d)"
  by (simp add: update_msgs_def)

lemma db_keys_update_msgs:
  assumes "db_keys d" and "\<And>m. ms_id (f m) = ms_id m"
  shows "db_keys (update_msgs i f d)"
  using assms update_msgs_ids [of f i d] by (simp add: db_keys_def) (simp add: update_msgs_def)

lemmas insert_defs = insert_user_def insert_conv_def insert_member_def insert_chat_def insert_msg_def

lemma db_keys_dml: "db_keys d \<Longrightarrow> dml fk l st d = Inr (d', l') \<Longrightarrow> db_keys d'"
  by (cases st)
    (auto simp: db_keys_delete_members db_keys_delete_convs db_keys_delete_chats
      db_keys_delete_msgs db_keys_update_msgs split: sum.splits dest: db_keys_delete_user,
     auto simp: db_keys_def insert_defs is_conv_member_def Let_def split: if_splits)

section \<open>References\<close>

definition refs_reply :: "db \<Rightarrow> bool" where
  "refs_reply d \<longleftrightarrow> (\<forall>m\<in>set (db_msgs d). opt_ref (msg_exists d) (ms_reply m))"

definition refs_chat :: "db \<Rightarrow> bool" where
  "refs_chat d \<longleftrightarrow> (\<forall>m\<in>set (db_msgs d). opt_ref (chat_exists d) (ms_chat m))"

definition refs_conv :: "db \<Rightarrow> bool" where
  "refs_conv d \<longleftrightarrow> (\<forall>m\<in>set (db_msgs d). opt_ref (conv_exists d) (ms_conv m)) \<and>
     (\<forall>m\<in>set (db_members d). conv_exists d (mb_conv m))"

definition refs_user :: "db \<Rightarrow> bool" where
  "refs_user d \<longleftrightarrow>
     (\<forall>h\<in>set (db_chats d). user_exists d (ch_member1 h) \<and> user_exists d (ch_member2 h)) \<and>
     (\<forall>v\<in>set (db_convs d). user_exists d (cv_admin v)) \<and>
     (\<forall>m\<in>set (db_members d). user_exists d (mb_user m)) \<and>
     (\<forall>m\<in>set (db_msgs d). user_exists d (ms_from m))"

definition db_refs :: "db \<Rightarrow> bool" where
  "db_refs d \<longleftrightarrow> refs_reply d \<and> refs_chat d \<and> refs_conv d \<and> refs_user d"

lemma exists_defs:
  "user_exists d = (\<lambda>i. i \<in> u_id ` set (db_users d))"
  "conv_exists d = (\<lambda>i. i \<in> cv_id ` set (db_convs d))"
  "chat_exists d = (\<lambda>i. i \<in> ch_id ` set (db_chats d))"
  "msg_exists d = (\<lambda>i. i \<in> ms_id ` set (db_msgs d))"
  by (simp_all add: user_exists_def conv_exists_def chat_exists_def msg_exists_def fun_eq_iff)

lemmas refs_defs = refs_reply_def refs_chat_def refs_conv_def refs_user_def

text \<open>
  The heart of the cascade: no message that is kept replies to one that was deleted, directly
  or through other replies.
\<close>

lemma cascade_closed:
  "m \<in> set (cascade_replies dead ms) \<Longrightarrow> ms_reply m = Some r \<Longrightarrow>
   r \<notin> set dead \<and> (r \<in> ms_id ` set ms \<longrightarrow> r \<in> ms_id ` set (cascade_replies dead ms))"
proof (induction dead ms rule: cascade_replies.induct)
  case (1 dead ms)
  show ?case
  proof (cases "\<exists>m\<in>set ms. replies_to dead m")
    case True
    let ?hit = "filter (replies_to dead) ms" and ?rest = "filter (\<lambda>m. \<not> replies_to dead m) ms"
    have eq: "cascade_replies dead ms = cascade_replies (map ms_id ?hit) ?rest"
      using True by (subst cascade_replies.simps) simp
    have IH: "r \<notin> set (map ms_id ?hit)"
      "r \<in> ms_id ` set ?rest \<Longrightarrow> r \<in> ms_id ` set (cascade_replies dead ms)"
      using "1.IH" [OF True] "1.prems" unfolding eq by blast+
    have "m \<in> set ?rest"
      using "1.prems"(1) cascade_filter [of "map ms_id ?hit" ?rest] unfolding eq by auto
    then have "r \<notin> set dead"
      using "1.prems"(2) by (auto simp: replies_to_def opt_holds_def)
    moreover have "r \<in> ms_id ` set ms \<Longrightarrow> r \<in> ms_id ` set ?rest"
      using IH(1) by auto
    ultimately show ?thesis using IH(2) by blast
  next
    case False
    with "1.prems" show ?thesis
      by (auto simp: cascade_replies.simps [of dead ms] replies_to_def opt_holds_def)
  qed
qed

lemma delete_msgs_subset: "set (db_msgs (delete_msgs fk P d)) \<subseteq> {m \<in> set (db_msgs d). \<not> P m}"
  using cascade_filter [of "msgs_where P d" "filter (\<lambda>m. \<not> P m) (db_msgs d)"]
  by (auto simp: delete_msgs_def Let_def)

lemma delete_msgs_other [simp]:
  "db_users (delete_msgs fk P d) = db_users d" "db_chats (delete_msgs fk P d) = db_chats d"
  "db_convs (delete_msgs fk P d) = db_convs d" "db_members (delete_msgs fk P d) = db_members d"
  by (simp_all add: delete_msgs_def Let_def)

lemma refs_reply_delete_msgs:
  assumes "refs_reply d"
  shows "refs_reply (delete_msgs True P d)"
  unfolding refs_reply_def
proof
  fix m assume m: "m \<in> set (db_msgs (delete_msgs True P d))"
  have kept: "m \<in> set (db_msgs d)"
    using m delete_msgs_subset by blast
  show "opt_ref (msg_exists (delete_msgs True P d)) (ms_reply m)"
  proof (cases "ms_reply m")
    case None
    then show ?thesis by (simp add: opt_ref_def)
  next
    case (Some r)
    have "r \<in> ms_id ` set (db_msgs d)"
      using assms kept Some by (fastforce simp: refs_reply_def opt_ref_def msg_exists_def)
    moreover have "r \<notin> set (msgs_where P d) \<and>
        (r \<in> ms_id ` set (filter (\<lambda>m. \<not> P m) (db_msgs d)) \<longrightarrow>
         r \<in> ms_id ` set (db_msgs (delete_msgs True P d)))"
      using cascade_closed [OF _ Some] m by (simp add: delete_msgs_def Let_def)
    ultimately show ?thesis
      by (auto simp: Some opt_ref_def msg_exists_def msgs_where_def)
  qed
qed

lemma refs_delete_msgs:
  "refs_chat d \<Longrightarrow> refs_chat (delete_msgs fk P d)"
  "refs_conv d \<Longrightarrow> refs_conv (delete_msgs fk P d)"
  "refs_user d \<Longrightarrow> refs_user (delete_msgs fk P d)"
  using delete_msgs_subset [of fk P d] by (auto simp: refs_defs exists_defs)

lemma db_refs_delete_msgs: "db_refs d \<Longrightarrow> db_refs (delete_msgs True P d)"
  by (simp add: db_refs_def refs_reply_delete_msgs refs_delete_msgs)

lemma delete_members_other [simp]:
  "db_users (delete_members P d) = db_users d" "db_chats (delete_members P d) = db_chats d"
  "db_convs (delete_members P d) = db_convs d" "db_msgs (delete_members P d) = db_msgs d"
  by (simp_all add: delete_members_def)

lemma refs_delete_members:
  "refs_reply d \<Longrightarrow> refs_reply (delete_members P d)"
  "refs_chat d \<Longrightarrow> refs_chat (delete_members P d)"
  "refs_conv d \<Longrightarrow> refs_conv (delete_members P d)"
  "refs_user d \<Longrightarrow> refs_user (delete_members P d)"
  by (auto simp: refs_defs exists_defs delete_members_def)

lemma db_refs_delete_members: "db_refs d \<Longrightarrow> db_refs (delete_members P d)"
  by (simp add: db_refs_def refs_delete_members)

lemma opt_ref_mono: "opt_ref P x \<Longrightarrow> (\<And>n. x = Some n \<Longrightarrow> P n \<Longrightarrow> Q n) \<Longrightarrow> opt_ref Q x"
  by (auto simp: opt_ref_def split: option.splits)

lemma refs_delete_chats:
  assumes "refs_reply d" "refs_chat d" "refs_conv d"
  shows "refs_reply (delete_chats True P d)" "refs_chat (delete_chats True P d)"
    "refs_conv (delete_chats True P d)"
proof -
  let ?dead = "map ch_id (filter P (db_chats d))"
  let ?d = "d\<lparr>db_chats := filter (\<lambda>h. \<not> P h) (db_chats d)\<rparr>"
  let ?X = "\<lambda>m. opt_holds (\<lambda>h. h \<in> set ?dead) (ms_chat m)"
  have eq: "delete_chats True P d = delete_msgs True ?X ?d"
    by (simp add: delete_chats_def Let_def)
  have r: "refs_reply ?d" "refs_conv ?d"
    using assms by (auto simp: refs_defs exists_defs)
  show "refs_reply (delete_chats True P d)" "refs_conv (delete_chats True P d)"
    unfolding eq using r by (simp_all add: refs_reply_delete_msgs refs_delete_msgs)
  show "refs_chat (delete_chats True P d)"
    unfolding refs_chat_def
  proof
    fix m assume "m \<in> set (db_msgs (delete_chats True P d))"
    then have m: "m \<in> set (db_msgs d)" "\<not> ?X m"
      using delete_msgs_subset [of True ?X ?d] unfolding eq by auto
    then have "opt_ref (chat_exists d) (ms_chat m)"
      using assms(2) by (simp add: refs_chat_def)
    then show "opt_ref (chat_exists (delete_chats True P d)) (ms_chat m)"
      by (rule opt_ref_mono) (use m(2) in \<open>auto simp: eq chat_exists_def opt_holds_def\<close>)
  qed
qed

lemma refs_delete_convs:
  assumes "refs_reply d" "refs_chat d" "refs_conv d"
  shows "refs_reply (delete_convs True P d)" "refs_chat (delete_convs True P d)"
    "refs_conv (delete_convs True P d)"
proof -
  let ?dead = "map cv_id (filter P (db_convs d))"
  let ?d = "delete_members (\<lambda>m. mb_conv m \<in> set ?dead)
    (d\<lparr>db_convs := filter (\<lambda>h. \<not> P h) (db_convs d)\<rparr>)"
  let ?X = "\<lambda>m. opt_holds (\<lambda>c. c \<in> set ?dead) (ms_conv m)"
  have eq: "delete_convs True P d = delete_msgs True ?X ?d"
    by (simp add: delete_convs_def Let_def)
  have r: "refs_reply ?d" "refs_chat ?d"
    using assms by (auto simp: refs_defs exists_defs)
  show "refs_reply (delete_convs True P d)" "refs_chat (delete_convs True P d)"
    unfolding eq using r by (simp_all add: refs_reply_delete_msgs refs_delete_msgs)
  have "opt_ref (conv_exists (delete_convs True P d)) (ms_conv m)"
    if "m \<in> set (db_msgs (delete_convs True P d))" for m
  proof -
    have m: "m \<in> set (db_msgs d)" "\<not> ?X m"
      using that delete_msgs_subset [of True ?X ?d] unfolding eq by auto
    then have "opt_ref (conv_exists d) (ms_conv m)"
      using assms(3) by (simp add: refs_conv_def)
    then show ?thesis
      by (rule opt_ref_mono) (use m(2) in \<open>auto simp: eq conv_exists_def opt_holds_def\<close>)
  qed
  moreover have "conv_exists (delete_convs True P d) (mb_conv m)"
    if "m \<in> set (db_members (delete_convs True P d))" for m
    using that assms(3)
    by (simp add: eq refs_conv_def conv_exists_def delete_members_def) blast
  ultimately show "refs_conv (delete_convs True P d)"
    by (simp add: refs_conv_def)
qed

text \<open>What the deletions leave of the other tables.\<close>

lemma delete_chats_other [simp]:
  "db_users (delete_chats fk P d) = db_users d" "db_convs (delete_chats fk P d) = db_convs d"
  "db_members (delete_chats fk P d) = db_members d"
  "db_chats (delete_chats fk P d) = filter (\<lambda>h. \<not> P h) (db_chats d)"
  by (simp_all add: delete_chats_def Let_def)

lemma delete_convs_other [simp]:
  "db_users (delete_convs fk P d) = db_users d" "db_chats (delete_convs fk P d) = db_chats d"
  "db_convs (delete_convs fk P d) = filter (\<lambda>v. \<not> P v) (db_convs d)"
  by (simp_all add: delete_convs_def Let_def)

lemma delete_chats_msgs: "set (db_msgs (delete_chats fk P d)) \<subseteq> set (db_msgs d)"
  by (auto simp: delete_chats_def Let_def dest!: subsetD [OF delete_msgs_subset])

lemma delete_convs_msgs: "set (db_msgs (delete_convs fk P d)) \<subseteq> set (db_msgs d)"
  by (auto simp: delete_convs_def Let_def dest!: subsetD [OF delete_msgs_subset])

lemma delete_convs_members: "set (db_members (delete_convs fk P d)) \<subseteq> set (db_members d)"
  by (auto simp: delete_convs_def Let_def delete_members_def)

lemma refs_user_delete:
  "refs_user d \<Longrightarrow> refs_user (delete_chats fk P d)"
  "refs_user d \<Longrightarrow> refs_user (delete_convs fk R d)"
  using delete_chats_msgs [of fk P d] delete_convs_msgs [of fk R d] delete_convs_members [of fk R d]
  by (auto simp: refs_user_def user_exists_def)

lemma db_refs_delete_user:
  assumes "db_refs d" and "delete_user True i d = Inr d'"
  shows "db_refs d'"
proof (cases "\<forall>u\<in>set (db_users d). u_id u \<noteq> i")
  case True
  then have "filter (\<lambda>u. u_id u \<noteq> i) (db_users d) = db_users d"
    by (intro filter_id_set) auto
  with True assms show ?thesis by (auto simp: delete_user_def)
next
  case False
  let ?d0 = "d\<lparr>db_users := filter (\<lambda>u. u_id u \<noteq> i) (db_users d)\<rparr>"
  let ?d1 = "delete_chats True (\<lambda>h. in_chat h i) ?d0"
  let ?d2 = "delete_convs True (\<lambda>v. cv_admin v = i) ?d1"
  let ?d3 = "delete_members (\<lambda>m. mb_user m = i) ?d2"
  have d': "d' = ?d3" and none: "\<forall>m\<in>set (db_msgs ?d3). ms_from m \<noteq> i"
    using assms(2) False by (auto simp: delete_user_def Let_def split: if_splits)
  have r0: "refs_reply ?d0" "refs_chat ?d0" "refs_conv ?d0" and user: "refs_user d"
    using assms(1) by (auto simp: db_refs_def refs_defs exists_defs)
  have r: "refs_reply d'" "refs_chat d'" "refs_conv d'"
    unfolding d' using refs_delete_convs [OF refs_delete_chats [OF r0]]
    by (simp_all add: refs_delete_members)
  have ex: "user_exists d' j" if "user_exists d j" "j \<noteq> i" for j
    using that by (auto simp: d' user_exists_def)
  have msgs: "set (db_msgs d') \<subseteq> set (db_msgs d)"
    using delete_convs_msgs [of True "\<lambda>v. cv_admin v = i" ?d1] delete_chats_msgs [of True "\<lambda>h. in_chat h i" ?d0]
    by (auto simp: d')
  have members: "set (db_members d') \<subseteq> {m \<in> set (db_members d). mb_user m \<noteq> i}"
    using delete_convs_members [of True "\<lambda>v. cv_admin v = i" ?d1]
    by (auto simp: d' delete_members_def)
  have "refs_user d'"
    unfolding refs_user_def
    using user none msgs members ex by (auto simp: d' refs_user_def in_chat_def)
  with r show ?thesis by (simp add: db_refs_def)
qed

lemma db_refs_update_msgs:
  assumes "db_refs d"
    and "\<And>m. ms_id (f m) = ms_id m \<and> ms_from (f m) = ms_from m \<and> ms_reply (f m) = ms_reply m \<and>
      ms_chat (f m) = ms_chat m \<and> ms_conv (f m) = ms_conv m"
  shows "db_refs (update_msgs i f d)"
proof -
  have "ms_id ` set (db_msgs (update_msgs i f d)) = ms_id ` set (db_msgs d)"
    using arg_cong [OF update_msgs_ids [of f i d], of set] assms(2) by simp
  then have "msg_exists (update_msgs i f d) = msg_exists d"
    by (simp add: msg_exists_def fun_eq_iff)
  with assms show ?thesis
    by (auto simp: db_refs_def refs_defs update_msgs_def exists_defs(1-3) split: if_splits)
qed

lemma db_refs_insert:
  "db_refs d \<Longrightarrow> insert_user un pw ph em d = Inr (d', l') \<Longrightarrow> db_refs d'"
  "db_refs d \<Longrightarrow> insert_conv True a g d = Inr (d', l') \<Longrightarrow> db_refs d'"
  "db_refs d \<Longrightarrow> insert_member True c u d = Inr (d', l') \<Longrightarrow> db_refs d'"
  "db_refs d \<Longrightarrow> insert_chat True a b d = Inr (d', l') \<Longrightarrow> db_refs d'"
  by (auto simp: db_refs_def refs_defs exists_defs insert_defs Let_def opt_ref_def
      split: if_splits option.splits)

lemma db_refs_insert_msg:
  assumes "db_refs d" and "insert_msg True u r ct cl s t h c d = Inr (d', l')"
  shows "db_refs d'"
proof -
  have "msg_exists d n \<Longrightarrow> msg_exists d' n" for n
    using assms(2) by (auto simp: insert_msg_def Let_def msg_exists_def split: if_splits)
  then have old: "opt_ref (msg_exists d) x \<Longrightarrow> opt_ref (msg_exists d') x" for x
    by (erule_tac opt_ref_mono)
  have new: "opt_ref (msg_exists d') r" and msgs: "set (db_msgs d') = insert (last (db_msgs d')) (set (db_msgs d))"
    "ms_reply (last (db_msgs d')) = r"
    using assms(2) by (auto simp: insert_msg_def Let_def split: if_splits)
  have "refs_reply d'"
    using assms(1) old new msgs(2) unfolding refs_reply_def msgs(1) db_refs_def by simp
  with assms show ?thesis
    by (auto simp: db_refs_def refs_chat_def refs_conv_def refs_user_def exists_defs(1-3)
        insert_msg_def Let_def split: if_splits)
qed

lemma db_refs_delete_chats: "db_refs d \<Longrightarrow> db_refs (delete_chats True P d)"
  by (simp add: db_refs_def refs_delete_chats refs_user_delete)

lemma db_refs_delete_convs: "db_refs d \<Longrightarrow> db_refs (delete_convs True P d)"
  by (simp add: db_refs_def refs_delete_convs refs_user_delete)

lemma db_refs_dml: "db_refs d \<Longrightarrow> dml True l st d = Inr (d', l') \<Longrightarrow> db_refs d'"
  by (cases st)
    (auto simp: db_refs_delete_members db_refs_delete_msgs db_refs_update_msgs
      db_refs_delete_chats db_refs_delete_convs split: sum.splits
      dest: db_refs_delete_user db_refs_insert db_refs_insert_msg)

section \<open>Invariants of the connection\<close>

text \<open>
  What is true of the tables is true of the connection when it also holds of the state a
  rollback would go back to. \<open>fkr\<close> says whether the invariant needs foreign keys on.
\<close>

definition conn_inv :: "(db \<Rightarrow> bool) \<Rightarrow> bool \<Rightarrow> conn \<Rightarrow> bool" where
  "conn_inv Inv fkr c \<longleftrightarrow>
     Inv (cn_db c) \<and> (\<forall>d. cn_tx c = Some d \<longrightarrow> Inv d) \<and> (fkr \<longrightarrow> cn_fk c)"

lemma conn_inv_frame [simp]:
  "conn_inv Inv fkr (c\<lparr>cn_script := es\<rparr>) = conn_inv Inv fkr c"
  "conn_inv Inv fkr (c\<lparr>cn_mutex := b\<rparr>) = conn_inv Inv fkr c"
  by (simp_all add: conn_inv_def)

locale db_invariant =
  fixes Inv :: "db \<Rightarrow> bool" and fkr :: bool
  assumes dml_keeps: "Inv d \<Longrightarrow> (fkr \<Longrightarrow> fk) \<Longrightarrow> dml fk l st d = Inr (d', l') \<Longrightarrow> Inv d'"
begin

lemma run_stmt_keeps:
  assumes "conn_inv Inv fkr c" and "run_stmt Q st c = (rc, rows, c')"
  shows "conn_inv Inv fkr c'"
proof -
  have "Inv d'" if "dml (cn_fk c) (cn_last c) st (cn_db c) = Inr (d', l')" for d' l'
    using dml_keeps that assms(1) by (auto simp: conn_inv_def)
  with assms show ?thesis
    by (cases st)
      (auto simp: run_stmt_def conn_inv_def split: if_splits option.splits sum.splits prod.splits)
qed

lemma next_ev_keeps:
  "conn_inv Inv fkr c \<Longrightarrow> next_ev c = (e, c') \<Longrightarrow> conn_inv Inv fkr c'"
  by (auto simp: next_ev_def split: list.splits)

lemma give_up_keeps: "conn_inv Inv fkr c \<Longrightarrow> conn_inv Inv fkr (give_up e c)"
  by (auto simp: give_up_def conn_inv_def split: option.splits)

lemma step_keeps:
  assumes "conn_inv Inv fkr c" and "step Q (Known st) c = (rc, rows, c')"
  shows "conn_inv Inv fkr c'"
  using assms
  by (auto simp: step_def run_query_def split: prod.splits option.splits
      dest: next_ev_keeps run_stmt_keeps intro: give_up_keeps)

lemma prepare_keeps:
  "conn_inv Inv fkr c \<Longrightarrow> prepare Q q c = (rc, c') \<Longrightarrow> conn_inv Inv fkr c'"
  by (auto simp: prepare_def split: prod.splits option.splits dest: next_ev_keeps)

lemma exec_keeps:
  "conn_inv Inv fkr c \<Longrightarrow> exec Q (map Known sts) c = (rc, c') \<Longrightarrow> conn_inv Inv fkr c'"
proof (induction sts arbitrary: c)
  case Nil
  then show ?case by simp
next
  case (Cons st sts)
  then show ?case
    by (auto split: prod.splits if_splits dest: step_keeps)
qed

lemma exec1_keeps:
  "conn_inv Inv fkr c \<Longrightarrow> exec Q [Known st] c = (rc, c') \<Longrightarrow> conn_inv Inv fkr c'"
  using exec_keeps [of c Q "[st]"] by simp

end

interpretation ks: db_invariant db_keys False
  by unfold_locales (rule db_keys_dml)

interpretation rf: db_invariant db_refs True
  by unfold_locales (auto intro: db_refs_dml)

section \<open>Properties\<close>

text \<open>
  The keys of the schema are unique for ever: no statement the server sends, with foreign
  keys on or off, gives two rows of a table the same identifier, two users the same name, two
  chats the same ordered pair of members, or a user two memberships of one conversation.
\<close>

theorem statements_keep_keys:
  assumes "db_keys d" and "dml fk l st d = Inr (d', l')"
  shows "db_keys d'"
  using ks.dml_keeps assms by blast

theorem statements_keep_keys_witness:
  "\<exists>d' l'. dml False 0 (Ins_user [97] [] [] []) empty_db = Inr (d', l') \<and> db_keys d'"
proof -
  obtain d' l' where run: "dml False 0 (Ins_user [97] [] [] []) empty_db = Inr (d', l')"
    by (simp add: insert_user_def empty_db_def Let_def)
  moreover have "db_keys empty_db"
    by (simp add: db_keys_def empty_db_def)
  ultimately show ?thesis
    using statements_keep_keys by blast
qed

text \<open>
  With foreign keys on, no statement leaves a dangling reference: deleting a user, a chat, a
  conversation or a message takes everything with it that refers to it, replies to replies
  included, and nothing can be inserted that refers to a missing row.
\<close>

theorem statements_keep_references:
  assumes "db_refs d" and "dml True l st d = Inr (d', l')"
  shows "db_refs d'"
  using rf.dml_keeps assms by blast

definition thread_db :: db where
  "thread_db = \<lparr>db_users = [\<lparr>u_id = 1, u_uname = [97], u_password = [], u_phone = [], u_email = []\<rparr>],
     db_chats = [], db_convs = [\<lparr>cv_id = 1, cv_admin = 1, cv_name = []\<rparr>],
     db_members = [\<lparr>mb_rowid = 1, mb_conv = 1, mb_user = 1\<rparr>],
     db_msgs = [\<lparr>ms_id = 1, ms_from = 1, ms_reply = None, ms_ctype = 0, ms_clen = 0, ms_content = [],
                  ms_created = 5, ms_chat = None, ms_conv = Some 1, ms_type = 0\<rparr>,
                 \<lparr>ms_id = 2, ms_from = 1, ms_reply = Some 1, ms_ctype = 0, ms_clen = 0, ms_content = [],
                  ms_created = 6, ms_chat = None, ms_conv = Some 1, ms_type = 0\<rparr>]\<rparr>"

theorem statements_keep_references_witness:
  "\<exists>d' l'. dml True 0 (Del_msg 1) thread_db = Inr (d', l') \<and> db_msgs d' = [] \<and> db_refs d'"
proof -
  obtain d' l' where run: "dml True 0 (Del_msg 1) thread_db = Inr (d', l')"
    by simp
  moreover have "db_msgs d' = []"
    using run by (auto simp: delete_msgs_def thread_db_def msgs_where_def cascade_replies.simps
        replies_to_def opt_holds_def)
  moreover have "db_refs thread_db"
    by (simp add: thread_db_def db_refs_def refs_defs exists_defs opt_ref_def)
  ultimately show ?thesis
    using statements_keep_references by blast
qed

end
