(* ===== verification/Sql.thy ===== *)
theory Sql
  imports Integrity
begin

text \<open>
  \<^verbatim>\<open>server/inc/sql.h\<close> and \<^verbatim>\<open>server/src/sql.c\<close>: the data access layer. Every function runs its
  statements on the shared connection and returns its result, the code it leaves in
  \<^verbatim>\<open>*lastrc\<close> and the connection. The mutex of the file is part of the connection: to lock it
  while it is locked waits for ever, the fault \<open>Deadlock\<close>, and some error paths return
  with it locked. A list is the list of its values, in the order of the nodes (theory
  \<open>Sll\<close> relates the two).
\<close>

section \<open>Data\<close>

record user_schema =
  us_id :: u32
  us_uname :: "bytes option"
  us_password :: "bytes option"
  us_phone :: "bytes option"
  us_email :: "bytes option"

record chat_schema =
  cs_id :: u32
  cs_member1 :: u32
  cs_member2 :: u32

record conv_schema =
  vs_id :: u32
  vs_admin_id :: u32
  vs_name :: "bytes option"

record msg_schema =
  mg_id :: u32
  mg_from_uid :: u32
  mg_reply_to :: u32
  mg_content_type :: u32
  mg_content_length :: u32
  mg_content :: "bytes option"
  mg_created_at :: u32
  mg_conv_id :: u32
  mg_chat_id :: u32
  mg_type :: u32

type_synonym 'a sqlres = "('a \<times> nat \<times> conn) res"

section \<open>The helpers\<close>

definition lock :: "conn \<Rightarrow> conn res" where
  "lock c = (if cn_mutex c then Inl Deadlock else Inr (c\<lparr>cn_mutex := True\<rparr>))"

definition unlock :: "conn \<Rightarrow> conn" where
  "unlock c = c\<lparr>cn_mutex := False\<rparr>"

text \<open>What the first call of \<^verbatim>\<open>sqlite3_step\<close> returns.\<close>

definition first_rc :: "nat \<Rightarrow> row list \<Rightarrow> nat" where
  "first_rc rc rows = (if rows = [] then rc else SQLITE_ROW)"

definition string_of :: "sqlval \<Rightarrow> bytes option res" where
  "string_of v = (case column_text v of None \<Rightarrow> Inl Null_Deref | Some s \<Rightarrow> Inr (Some s))"

definition cstring_arg :: "bytes option \<Rightarrow> bytes res" where
  "cstring_arg x = (case x of None \<Rightarrow> Inl Null_Deref | Some s \<Rightarrow> Inr s)"

definition sql_insert :: "sqlite \<Rightarrow> query \<Rightarrow> conn \<Rightarrow> u32 sqlres" where
  "sql_insert Q q c =
     (case prepare Q q c of (rc, c1) \<Rightarrow>
       if rc \<noteq> SQLITE_OK then Inr (0, rc, c1)
       else
         bindE (lock c1) (\<lambda>c2.
           case step Q q c2 of (rc', rows, c3) \<Rightarrow>
             if first_rc rc' rows \<noteq> SQLITE_DONE then Inr (0, first_rc rc' rows, unlock c3)
             else Inr (of_nat (cn_last c3), SQLITE_OK, unlock c3)))"

definition sql_get_list :: "sqlite \<Rightarrow> query \<Rightarrow> conn \<Rightarrow> u32 list sqlres" where
  "sql_get_list Q q c =
     (case prepare Q q c of (rc, c1) \<Rightarrow>
       if rc \<noteq> SQLITE_OK then Inr ([], rc, c1)
       else
         (case step Q q c1 of (rc', rows, c2) \<Rightarrow>
            Inr (foldl (\<lambda>list row. column_int (row ! 0) # list) [] rows, SQLITE_OK, c2)))"

text \<open>
  The pattern of the functions that read one row: prepare, step once, and take the row or
  report that there is none.
\<close>

definition get_row :: "sqlite \<Rightarrow> query \<Rightarrow> conn \<Rightarrow> row option \<times> nat \<times> conn" where
  "get_row Q q c =
     (case prepare Q q c of (rc, c1) \<Rightarrow>
       if rc \<noteq> SQLITE_OK then (None, rc, c1)
       else
         (case step Q q c1 of (rc', rows, c2) \<Rightarrow>
            case rows of
              [] \<Rightarrow> (None, if rc' = SQLITE_DONE then SQLITE_EMPTY else rc', c2)
            | row # _ \<Rightarrow> (Some row, SQLITE_OK, c2)))"

text \<open>The macro \<^verbatim>\<open>ROLLBACK\<close>: the code of the error is kept, that of the rollback is not.\<close>

definition rollback :: "sqlite \<Rightarrow> nat \<Rightarrow> conn \<Rightarrow> nat \<times> conn" where
  "rollback Q rc c = (rc, snd (exec Q [Known Rollback] c))"

section \<open>Users\<close>

definition user_get_by_id :: "sqlite \<Rightarrow> u32 \<Rightarrow> conn \<Rightarrow> user_schema option sqlres" where
  "user_get_by_id Q uid c =
     (case get_row Q (snprintf_query QUERY_SMALL (Sel_user_by_id (unat uid))) c of
        (None, rc, c') \<Rightarrow> Inr (None, rc, c')
      | (Some row, rc, c') \<Rightarrow>
          bindE (string_of (row ! 1)) (\<lambda>uname.
          bindE (string_of (row ! 2)) (\<lambda>password.
          bindE (string_of (row ! 3)) (\<lambda>phone.
          bindE (string_of (row ! 4)) (\<lambda>email.
            Inr (Some \<lparr>us_id = uid, us_uname = uname, us_password = password, us_phone = phone,
                 us_email = email\<rparr>, SQLITE_OK, c'))))))"

definition user_get_by_uname :: "sqlite \<Rightarrow> bytes option \<Rightarrow> conn \<Rightarrow> user_schema option sqlres" where
  "user_get_by_uname Q uname c =
     bindE (cstring_arg uname) (\<lambda>u.
       case get_row Q (snprintf_query QUERY_SMALL (Sel_user_by_uname u)) c of
         (None, rc, c') \<Rightarrow> Inr (None, rc, c')
       | (Some row, rc, c') \<Rightarrow>
           bindE (string_of (row ! 2)) (\<lambda>password.
             Inr (Some \<lparr>us_id = column_int (row ! 0), us_uname = Some u, us_password = password,
                  us_phone = None, us_email = None\<rparr>, SQLITE_OK, c')))"

definition user_search_by_uname ::
    "sqlite \<Rightarrow> bytes option \<Rightarrow> i32 \<Rightarrow> i32 \<Rightarrow> conn \<Rightarrow> u32 list sqlres" where
  "user_search_by_uname Q uname limit offset c =
     bindE (cstring_arg uname) (\<lambda>u.
       sql_get_list Q (snprintf_query QUERY_SMALL (Search_users u (sint limit) (sint offset))) c)"

definition user_create :: "sqlite \<Rightarrow> user_schema \<Rightarrow> conn \<Rightarrow> u32 sqlres" where
  "user_create Q info c =
     bindE (cstring_arg (us_uname info)) (\<lambda>uname.
     bindE (cstring_arg (us_password info)) (\<lambda>password.
     bindE (cstring_arg (us_phone info)) (\<lambda>phone.
     bindE (cstring_arg (us_email info)) (\<lambda>email.
       sql_insert Q (snprintf_query QUERY_SMALL (Ins_user uname password phone email)) c))))"

definition user_drop :: "sqlite \<Rightarrow> u32 \<Rightarrow> conn \<Rightarrow> unit sqlres" where
  "user_drop Q uid c =
     (let q = snprintf_query QUERY_SMALL (Del_user (unat uid))
      in case prepare Q q c of (rc, c1) \<Rightarrow>
           if rc \<noteq> SQLITE_OK then Inr ((), rc, c1)
           else
             (case step Q q c1 of (rc', rows, c2) \<Rightarrow>
                if first_rc rc' rows \<noteq> SQLITE_DONE then Inr ((), first_rc rc' rows, c2)
                else Inr ((), SQLITE_OK, c2)))"

definition user_get_conv_list :: "sqlite \<Rightarrow> u32 \<Rightarrow> i32 \<Rightarrow> i32 \<Rightarrow> conn \<Rightarrow> u32 list sqlres" where
  "user_get_conv_list Q uid limit offset c =
     sql_get_list Q (snprintf_query QUERY_SMALL
       (Sel_conv_list (unat uid) (sint limit) (sint offset))) c"

definition user_get_chat_list :: "sqlite \<Rightarrow> u32 \<Rightarrow> i32 \<Rightarrow> i32 \<Rightarrow> conn \<Rightarrow> u32 list sqlres" where
  "user_get_chat_list Q uid limit offset c =
     sql_get_list Q (snprintf_query QUERY_SMALL
       (Sel_chat_list (unat uid) (sint limit) (sint offset))) c"

section \<open>Conversations\<close>

text \<open>When the first insertion fails the function returns with the mutex locked.\<close>

definition conv_create :: "sqlite \<Rightarrow> u32 \<Rightarrow> bytes option \<Rightarrow> conn \<Rightarrow> u32 sqlres" where
  "conv_create Q admin_id name c =
     (case exec Q [Known Fk_on, Known Begin] c of (rc, c1) \<Rightarrow>
       if rc \<noteq> SQLITE_OK then Inr (0, rc, c1)
       else
         bindE (cstring_arg name) (\<lambda>g.
         bindE (lock c1) (\<lambda>c2.
           case exec Q [snprintf_query QUERY_SMALL (Ins_conv (unat admin_id) g)] c2 of (rc, c3) \<Rightarrow>
             let newid = of_nat (cn_last c3)
             in if rc \<noteq> SQLITE_OK then
                  (case rollback Q rc c3 of (rc', c4) \<Rightarrow> Inr (0, rc', c4))
                else
                  (case exec Q [snprintf_query QUERY_SMALL (Ins_member_last (unat admin_id))]
                          (unlock c3) of (rc, c4) \<Rightarrow>
                     if rc \<noteq> SQLITE_OK then
                       (case rollback Q rc c4 of (rc', c5) \<Rightarrow> Inr (0, rc', c5))
                     else
                       (case exec Q [Known Commit] c4 of (rc, c5) \<Rightarrow>
                          if rc \<noteq> SQLITE_OK then
                            (case rollback Q rc c5 of (rc', c6) \<Rightarrow> Inr (0, rc', c6))
                          else Inr (newid, SQLITE_OK, c5))))))"

definition row_exists :: "sqlite \<Rightarrow> query \<Rightarrow> conn \<Rightarrow> bool sqlres" where
  "row_exists Q q c =
     (case get_row Q q c of
        (None, rc, c') \<Rightarrow> Inr (False, rc, c')
      | (Some _, rc, c') \<Rightarrow> Inr (True, SQLITE_OK, c'))"

definition conv_is_admin :: "sqlite \<Rightarrow> u32 \<Rightarrow> u32 \<Rightarrow> conn \<Rightarrow> bool sqlres" where
  "conv_is_admin Q conv_id user_id c =
     row_exists Q (snprintf_query QUERY_SMALL (Is_admin (unat conv_id) (unat user_id))) c"

definition conv_is_member :: "sqlite \<Rightarrow> u32 \<Rightarrow> u32 \<Rightarrow> conn \<Rightarrow> bool sqlres" where
  "conv_is_member Q conv_id user_id c =
     row_exists Q (snprintf_query QUERY_SMALL (Is_member (unat conv_id) (unat user_id))) c"

text \<open>The statements of a transaction one by one; the first that fails ends in a rollback.\<close>

fun exec_all :: "sqlite \<Rightarrow> stmt list \<Rightarrow> conn \<Rightarrow> unit sqlres" where
  "exec_all Q [] c = Inr ((), SQLITE_OK, c)"
| "exec_all Q (st # sts) c =
     (case exec Q [snprintf_query QUERY_SMALL st] c of (rc, c') \<Rightarrow>
       if rc \<noteq> SQLITE_OK then (case rollback Q rc c' of (rc', c'') \<Rightarrow> Inr ((), rc', c''))
       else exec_all Q sts c')"

definition conv_drop :: "sqlite \<Rightarrow> u32 \<Rightarrow> conn \<Rightarrow> unit sqlres" where
  "conv_drop Q conv_id c =
     exec_all Q [Begin, Del_msgs_conv (unat conv_id), Del_members_conv (unat conv_id),
       Del_conv (unat conv_id), Commit] c"

definition conv_join :: "sqlite \<Rightarrow> u32 \<Rightarrow> u32 \<Rightarrow> conn \<Rightarrow> unit sqlres" where
  "conv_join Q user_id conv_id c =
     bindE (sql_insert Q (snprintf_query QUERY_SMALL (Ins_member (unat conv_id) (unat user_id))) c)
       (\<lambda>(_, rc, c'). Inr ((), rc, c'))"

definition exec_rc :: "sqlite \<Rightarrow> stmt \<Rightarrow> conn \<Rightarrow> unit sqlres" where
  "exec_rc Q st c =
     (case exec Q [snprintf_query QUERY_SMALL st] c of (rc, c') \<Rightarrow>
        if rc \<noteq> SQLITE_OK then Inr ((), rc, c') else Inr ((), SQLITE_OK, c'))"

definition conv_quit :: "sqlite \<Rightarrow> u32 \<Rightarrow> u32 \<Rightarrow> conn \<Rightarrow> unit sqlres" where
  "conv_quit Q user_id conv_id c = exec_rc Q (Del_member (unat conv_id) (unat user_id)) c"

definition conv_get_info :: "sqlite \<Rightarrow> u32 \<Rightarrow> conn \<Rightarrow> conv_schema option sqlres" where
  "conv_get_info Q conv_id c =
     (case get_row Q (snprintf_query QUERY_SMALL (Sel_conv (unat conv_id))) c of
        (None, rc, c') \<Rightarrow> Inr (None, rc, c')
      | (Some row, rc, c') \<Rightarrow>
          bindE (string_of (row ! 2)) (\<lambda>name.
            Inr (Some \<lparr>vs_id = conv_id, vs_admin_id = column_int (row ! 1), vs_name = name\<rparr>,
                 SQLITE_OK, c')))"

definition conv_get_members :: "sqlite \<Rightarrow> u32 \<Rightarrow> conn \<Rightarrow> u32 list sqlres" where
  "conv_get_members Q conv_id c =
     sql_get_list Q (snprintf_query QUERY_SMALL (Sel_members (unat conv_id))) c"

section \<open>Chats\<close>

definition chat_create :: "sqlite \<Rightarrow> u32 \<Rightarrow> u32 \<Rightarrow> conn \<Rightarrow> u32 sqlres" where
  "chat_create Q member1 member2 c =
     (case exec Q [snprintf_query QUERY_SMALL Fk_on] c of (rc, c1) \<Rightarrow>
        if rc \<noteq> SQLITE_OK then Inr (0, rc, c1)
        else sql_insert Q (snprintf_query QUERY_SMALL (Ins_chat (unat member1) (unat member2))) c1)"

definition chat_is_member :: "sqlite \<Rightarrow> u32 \<Rightarrow> u32 \<Rightarrow> conn \<Rightarrow> bool sqlres" where
  "chat_is_member Q chat_id user_id c =
     row_exists Q (snprintf_query QUERY_SMALL (Is_chat_member (unat chat_id) (unat user_id))) c"

definition chat_drop :: "sqlite \<Rightarrow> u32 \<Rightarrow> conn \<Rightarrow> unit sqlres" where
  "chat_drop Q chat_id c =
     exec_all Q [Begin, Del_msgs_chat (unat chat_id), Del_chat (unat chat_id), Commit] c"

definition chat_get_info :: "sqlite \<Rightarrow> u32 \<Rightarrow> conn \<Rightarrow> chat_schema option sqlres" where
  "chat_get_info Q chat_id c =
     (case get_row Q (snprintf_query QUERY_SMALL (Sel_chat (unat chat_id))) c of
        (None, rc, c') \<Rightarrow> Inr (None, rc, c')
      | (Some row, rc, c') \<Rightarrow>
          Inr (Some \<lparr>cs_id = chat_id, cs_member1 = column_int (row ! 1),
               cs_member2 = column_int (row ! 2)\<rparr>, SQLITE_OK, c'))"

section \<open>Messages\<close>

definition msg_conv_get_all :: "sqlite \<Rightarrow> u32 \<Rightarrow> i32 \<Rightarrow> i32 \<Rightarrow> conn \<Rightarrow> u32 list sqlres" where
  "msg_conv_get_all Q conv_id limit offset c =
     sql_get_list Q (snprintf_query QUERY_SMALL
       (Sel_msgs_conv (unat conv_id) (sint limit) (sint offset))) c"

definition msg_chat_get_all :: "sqlite \<Rightarrow> u32 \<Rightarrow> i32 \<Rightarrow> i32 \<Rightarrow> conn \<Rightarrow> u32 list sqlres" where
  "msg_chat_get_all Q chat_id limit offset c =
     sql_get_list Q (snprintf_query QUERY_SMALL
       (Sel_msgs_chat (unat chat_id) (sint limit) (sint offset))) c"

definition msg_get_detail :: "sqlite \<Rightarrow> u32 \<Rightarrow> conn \<Rightarrow> msg_schema option sqlres" where
  "msg_get_detail Q msg_id c =
     (case get_row Q (snprintf_query QUERY_SMALL (Sel_msg (unat msg_id))) c of
        (None, rc, c') \<Rightarrow> Inr (None, rc, c')
      | (Some row, rc, c') \<Rightarrow>
          bindE (string_of (row ! 5)) (\<lambda>content.
            Inr (Some \<lparr>mg_id = msg_id, mg_from_uid = column_int (row ! 1),
                 mg_reply_to = column_int (row ! 2), mg_content_type = column_int (row ! 3),
                 mg_content_length = column_int (row ! 4), mg_content = content,
                 mg_created_at = column_int (row ! 6), mg_conv_id = column_int (row ! 8),
                 mg_chat_id = column_int (row ! 7), mg_type = column_int (row ! 9)\<rparr>,
                 SQLITE_OK, c')))"

text \<open>An identifier of zero stands for \<^verbatim>\<open>NULL\<close>.\<close>

definition null_if_zero :: "u32 \<Rightarrow> nat option" where
  "null_if_zero w = (if w = 0 then None else Some (unat w))"

text \<open>When the insertion fails the function returns with the mutex locked.\<close>

definition msg_send :: "sqlite \<Rightarrow> u32 \<Rightarrow> msg_schema \<Rightarrow> conn \<Rightarrow> u32 sqlres" where
  "msg_send Q now msg c =
     (case exec Q [snprintf_query QUERY_SMALL Fk_on] c of (rc, c1) \<Rightarrow>
        if rc \<noteq> SQLITE_OK then Inr (0, rc, c1)
        else
          bindE (cstring_arg (mg_content msg)) (\<lambda>content.
          bindE (lock c1) (\<lambda>c2.
            case exec Q [snprintf_query QUERY_LARGE
                   (Ins_msg (unat (mg_from_uid msg)) (null_if_zero (mg_reply_to msg))
                      (unat (mg_content_type msg)) (unat (mg_content_length msg)) content
                      (unat now) (null_if_zero (mg_chat_id msg)) (null_if_zero (mg_conv_id msg)))] c2
            of (rc, c3) \<Rightarrow>
              let newmsg = of_nat (cn_last c3)
              in if rc \<noteq> SQLITE_OK then Inr (0, rc, c3)
                 else Inr (newmsg, SQLITE_OK, unlock c3))))"

text \<open>The three functions that change one message report success whatever happened.\<close>

definition exec_ok :: "sqlite \<Rightarrow> stmt \<Rightarrow> conn \<Rightarrow> unit sqlres" where
  "exec_ok Q st c =
     (case exec Q [snprintf_query QUERY_SMALL st] c of (rc, c') \<Rightarrow> Inr ((), SQLITE_OK, c'))"

definition msg_delivered :: "sqlite \<Rightarrow> u32 \<Rightarrow> conn \<Rightarrow> unit sqlres" where
  "msg_delivered Q msg_id c = exec_ok Q (Upd_delivered (unat msg_id)) c"

definition msg_delete :: "sqlite \<Rightarrow> u32 \<Rightarrow> conn \<Rightarrow> unit sqlres" where
  "msg_delete Q msg_id c = exec_ok Q (Upd_deleted (unat msg_id)) c"

definition msg_drop :: "sqlite \<Rightarrow> u32 \<Rightarrow> conn \<Rightarrow> unit sqlres" where
  "msg_drop Q msg_id c = exec_ok Q (Del_msg (unat msg_id)) c"

definition msg_get_msg_sent :: "sqlite \<Rightarrow> u32 \<Rightarrow> conn \<Rightarrow> u32 list sqlres" where
  "msg_get_msg_sent Q user_id c =
     sql_get_list Q (snprintf_query QUERY_SMALL (Sel_sent (unat user_id))) c"

text \<open>With both identifiers zero the text stays empty.\<close>

definition msg_get_msg_del :: "sqlite \<Rightarrow> u32 \<Rightarrow> u32 \<Rightarrow> u32 \<Rightarrow> conn \<Rightarrow> u32 list sqlres" where
  "msg_get_msg_del Q user_id conv_id chat_id c =
     sql_get_list Q (snprintf_query QUERY_SMALL
       (if conv_id \<noteq> 0 then Sel_del_conv (unat user_id) (unat conv_id)
        else if chat_id \<noteq> 0 then Sel_del_chat (unat user_id) (unat chat_id)
        else Empty_stmt)) c"

end
