(* ===== verification/Sql_Facts.thy ===== *)
theory Sql_Facts
  imports Sql "HOL-Library.Multiset"
begin

text \<open>
  What the functions of \<^verbatim>\<open>sql.c\<close> do to the tables when the engine reports no error of its own
  (\<open>quiet\<close>), the documented behaviour of the engine that some results rest on
  (\<open>engine_ok\<close>), and that every function keeps the integrity of the database whatever
  the engine does.
\<close>

section \<open>The engine\<close>

text \<open>
  A text that opens a string literal and never closes it, with no comment and no other
  statement before it.
\<close>

definition unterminated :: "bytes \<Rightarrow> bool" where
  "unterminated text \<longleftrightarrow>
     (let p = takeWhile (\<lambda>b. b \<noteq> QUOTE) text
      in length p < length text \<and> QUOTE \<notin> set (drop (length p + 1) text) \<and>
         list_all (\<lambda>b. b \<notin> {34, 45, 47, 59, 91, 96}) p)"

text \<open>
  The hypotheses on the engine: rows without an \<^verbatim>\<open>ORDER BY\<close> come in some order, each once,
  and a text with an open literal is an error without effect.
\<close>

definition engine_ok :: "sqlite \<Rightarrow> bool" where
  "engine_ok Q \<longleftrightarrow>
     (\<forall>st ids. mset (sq_order Q st ids) = mset ids) \<and>
     (\<forall>text c. unterminated text \<longrightarrow>
        sq_prep Q text = SQLITE_ERROR \<and> sq_raw Q text c = (SQLITE_ERROR, [], c))"

definition example_engine :: sqlite where
  "example_engine = \<lparr>sq_order = (\<lambda>_ ids. ids), sq_like = (\<lambda>_ _. True),
     sq_prep = (\<lambda>_. SQLITE_ERROR), sq_raw = (\<lambda>_ c. (SQLITE_ERROR, [], c))\<rparr>"

lemma example_engine_ok: "engine_ok example_engine"
  by (simp add: engine_ok_def example_engine_def)

definition quiet :: "conn \<Rightarrow> bool" where
  "quiet c \<longleftrightarrow> cn_script c = []"

definition start_conn :: "db \<Rightarrow> conn" where
  "start_conn d = \<lparr>cn_db = d, cn_fk = False, cn_tx = None, cn_last = 0, cn_mutex = False,
     cn_script = []\<rparr>"

lemma start_conn_sel [simp]:
  "cn_db (start_conn d) = d" "cn_fk (start_conn d) = False" "cn_tx (start_conn d) = None"
  "cn_mutex (start_conn d) = False" "quiet (start_conn d)"
  by (simp_all add: start_conn_def quiet_def)

section \<open>Quiet runs\<close>

fun is_select :: "stmt \<Rightarrow> bool" where
  "is_select (Sel_user_by_id _) = True"
| "is_select (Sel_user_by_uname _) = True"
| "is_select (Search_users _ _ _) = True"
| "is_select (Sel_conv_list _ _ _) = True"
| "is_select (Sel_chat_list _ _ _) = True"
| "is_select (Is_admin _ _) = True"
| "is_select (Is_member _ _) = True"
| "is_select (Sel_conv _) = True"
| "is_select (Sel_members _) = True"
| "is_select (Is_chat_member _ _) = True"
| "is_select (Sel_chat _) = True"
| "is_select (Sel_msgs_conv _ _ _) = True"
| "is_select (Sel_msgs_chat _ _ _) = True"
| "is_select (Sel_msg _) = True"
| "is_select (Sel_sent _) = True"
| "is_select (Sel_del_conv _ _) = True"
| "is_select (Sel_del_chat _ _) = True"
| "is_select _ = False"

lemma step_quiet [sql_simps]: "quiet c \<Longrightarrow> step Q (Known st) c = run_stmt Q st c"
  by (simp add: quiet_def step_def next_ev_def run_query_def)

lemma step_raw_quiet [sql_simps]: "quiet c \<Longrightarrow> step Q (Raw text) c = sq_raw Q text c"
  by (simp add: quiet_def step_def next_ev_def run_query_def)

lemma prepare_quiet [sql_simps]: "quiet c \<Longrightarrow> prepare Q (Known st) c = (SQLITE_OK, c)"
  by (simp add: quiet_def prepare_def next_ev_def)

lemma quiet_frame [simp]:
  "quiet (c\<lparr>cn_db := d\<rparr>) = quiet c" "quiet (c\<lparr>cn_fk := b\<rparr>) = quiet c"
  "quiet (c\<lparr>cn_tx := t\<rparr>) = quiet c" "quiet (c\<lparr>cn_last := i\<rparr>) = quiet c"
  "quiet (c\<lparr>cn_mutex := b\<rparr>) = quiet c"
  by (simp_all add: quiet_def)

lemma run_select:
  assumes "is_select st"
  shows "run_stmt Q st c = (SQLITE_DONE, select Q (cn_db c) st, c)"
  using assms by (cases st) (simp_all add: run_stmt_def)

lemma run_transaction [sql_simps]:
  "run_stmt Q Fk_on c = (SQLITE_DONE, [], if cn_tx c = None then c\<lparr>cn_fk := True\<rparr> else c)"
  "cn_tx c = None \<Longrightarrow> run_stmt Q Begin c = (SQLITE_DONE, [], c\<lparr>cn_tx := Some (cn_db c)\<rparr>)"
  "cn_tx c = Some d \<Longrightarrow> run_stmt Q Commit c = (SQLITE_DONE, [], c\<lparr>cn_tx := None\<rparr>)"
  "cn_tx c = Some d \<Longrightarrow> run_stmt Q Rollback c = (SQLITE_DONE, [], c\<lparr>cn_db := d, cn_tx := None\<rparr>)"
  by (simp_all add: run_stmt_def)

lemma run_stmt_quiet: "run_stmt Q st c = (rc, rows, c') \<Longrightarrow> quiet c' = quiet c"
  by (cases st)
    (auto simp: run_stmt_def split: if_splits option.splits sum.splits prod.splits)

lemma exec1_quiet [sql_simps]:
  "quiet c \<Longrightarrow> exec Q [Known st] c =
    (case run_stmt Q st c of (rc, _, c') \<Rightarrow> if rc = SQLITE_DONE then (SQLITE_OK, c') else (rc, c'))"
  by (auto simp: step_quiet split: prod.splits)

lemma get_row_quiet [sql_simps]:
  "quiet c \<Longrightarrow> is_select st \<Longrightarrow>
   get_row Q (Known st) c =
     (case select Q (cn_db c) st of [] \<Rightarrow> (None, SQLITE_EMPTY, c) | row # _ \<Rightarrow> (Some row, SQLITE_OK, c))"
  by (simp add: get_row_def prepare_quiet step_quiet run_select)

lemma foldl_rev: "foldl (\<lambda>xs x. f x # xs) ys zs = rev (map f zs) @ ys"
  by (induction zs arbitrary: ys) simp_all

lemma get_list_quiet [sql_simps]:
  "quiet c \<Longrightarrow> is_select st \<Longrightarrow>
   sql_get_list Q (Known st) c =
     Inr (rev (map (\<lambda>row. column_int (row ! 0)) (select Q (cn_db c) st)), SQLITE_OK, c)"
  by (simp add: sql_get_list_def prepare_quiet step_quiet run_select foldl_rev)

lemma row_exists_quiet [sql_simps]:
  "quiet c \<Longrightarrow> is_select st \<Longrightarrow>
   row_exists Q (Known st) c =
     Inr (if select Q (cn_db c) st = [] then (False, SQLITE_EMPTY, c) else (True, SQLITE_OK, c))"
  by (simp add: row_exists_def get_row_quiet split: list.splits)

lemma rollback_quiet [sql_simps]:
  "quiet c \<Longrightarrow> cn_tx c = Some d \<Longrightarrow> rollback Q rc c = (rc, c\<lparr>cn_db := d, cn_tx := None\<rparr>)"
  by (simp add: rollback_def exec1_quiet run_stmt_def del: exec.simps)

section \<open>The tests of membership\<close>

lemma conv_is_member_quiet [sql_simps]:
  assumes "quiet c"
  shows "conv_is_member Q cid uid c =
    Inr (if is_conv_member (cn_db c) (unat cid) (unat uid) then (True, SQLITE_OK, c)
         else (False, SQLITE_EMPTY, c))"
  using assms
  by (auto simp: conv_is_member_def sql_simps is_conv_member_def filter_empty_conv)

lemma chat_is_member_quiet [sql_simps]:
  assumes "quiet c"
  shows "chat_is_member Q hid uid c =
    Inr (if is_chat_party (cn_db c) (unat hid) (unat uid) then (True, SQLITE_OK, c)
         else (False, SQLITE_EMPTY, c))"
  using assms
  by (auto simp: chat_is_member_def sql_simps is_chat_party_def filter_empty_conv)

definition is_conv_admin :: "db \<Rightarrow> nat \<Rightarrow> nat \<Rightarrow> bool" where
  "is_conv_admin d c u \<longleftrightarrow> (\<exists>v\<in>set (db_convs d). cv_id v = c \<and> cv_admin v = u)"

lemma conv_is_admin_quiet [sql_simps]:
  assumes "quiet c"
  shows "conv_is_admin Q cid uid c =
    Inr (if is_conv_admin (cn_db c) (unat cid) (unat uid) then (True, SQLITE_OK, c)
         else (False, SQLITE_EMPTY, c))"
  using assms
  by (auto simp: conv_is_admin_def sql_simps is_conv_admin_def filter_empty_conv)

section \<open>Reading one row\<close>

definition msg_of :: "u32 \<Rightarrow> msg_row \<Rightarrow> msg_schema" where
  "msg_of mid m = \<lparr>mg_id = mid, mg_from_uid = of_nat (ms_from m),
     mg_reply_to = column_int (opt_int (ms_reply m)), mg_content_type = of_nat (ms_ctype m),
     mg_content_length = of_nat (ms_clen m), mg_content = Some (ms_content m),
     mg_created_at = of_nat (ms_created m), mg_conv_id = column_int (opt_int (ms_conv m)),
     mg_chat_id = column_int (opt_int (ms_chat m)), mg_type = of_nat (ms_type m)\<rparr>"

lemma msg_get_detail_quiet [sql_simps]:
  "quiet c \<Longrightarrow> msg_get_detail Q mid c =
     (case filter (\<lambda>m. ms_id m = unat mid) (db_msgs (cn_db c)) of
        [] \<Rightarrow> Inr (None, SQLITE_EMPTY, c)
      | m # _ \<Rightarrow> Inr (Some (msg_of mid m), SQLITE_OK, c))"
  by (simp add: msg_get_detail_def numeric_queries get_row_quiet msg_row_vals_def string_of_def
      msg_of_def split: list.splits)

lemma user_get_by_id_quiet [sql_simps]:
  "quiet c \<Longrightarrow> user_get_by_id Q uid c =
     (case filter (\<lambda>u. u_id u = unat uid) (db_users (cn_db c)) of
        [] \<Rightarrow> Inr (None, SQLITE_EMPTY, c)
      | u # _ \<Rightarrow> Inr (Some \<lparr>us_id = uid, us_uname = Some (u_uname u), us_password = Some (u_password u),
                    us_phone = Some (u_phone u), us_email = Some (u_email u)\<rparr>, SQLITE_OK, c))"
  by (simp add: user_get_by_id_def numeric_queries get_row_quiet user_row_vals_def string_of_def
      split: list.splits)

lemma conv_get_info_quiet [sql_simps]:
  "quiet c \<Longrightarrow> conv_get_info Q cid c =
     (case filter (\<lambda>v. cv_id v = unat cid) (db_convs (cn_db c)) of
        [] \<Rightarrow> Inr (None, SQLITE_EMPTY, c)
      | v # _ \<Rightarrow> Inr (Some \<lparr>vs_id = cid, vs_admin_id = of_nat (cv_admin v),
                    vs_name = Some (cv_name v)\<rparr>, SQLITE_OK, c))"
  by (simp add: conv_get_info_def numeric_queries get_row_quiet string_of_def split: list.splits)

lemma chat_get_info_quiet [sql_simps]:
  "quiet c \<Longrightarrow> chat_get_info Q hid c =
     (case filter (\<lambda>h. ch_id h = unat hid) (db_chats (cn_db c)) of
        [] \<Rightarrow> Inr (None, SQLITE_EMPTY, c)
      | h # _ \<Rightarrow> Inr (Some \<lparr>cs_id = hid, cs_member1 = of_nat (ch_member1 h),
                    cs_member2 = of_nat (ch_member2 h)\<rparr>, SQLITE_OK, c))"
  by (simp add: chat_get_info_def numeric_queries get_row_quiet split: list.splits)

section \<open>Insertion\<close>

lemma rc_distinct [simp]:
  "SQLITE_CONSTRAINT \<noteq> SQLITE_DONE" "SQLITE_CONSTRAINT \<noteq> SQLITE_OK" "SQLITE_ERROR \<noteq> SQLITE_DONE"
  "SQLITE_ERROR \<noteq> SQLITE_OK" "SQLITE_EMPTY \<noteq> SQLITE_OK" "SQLITE_DONE \<noteq> SQLITE_OK"
  "SQLITE_OK \<noteq> SQLITE_DONE" "SQLITE_ROW \<noteq> SQLITE_DONE" "SQLITE_MISUSE \<noteq> SQLITE_DONE"
  "SQLITE_OK \<noteq> SQLITE_EMPTY" "SQLITE_MISUSE \<noteq> SQLITE_OK" "SQLITE_DONE \<noteq> SQLITE_ERROR"
  by (simp_all add: rc_defs)

fun is_dml :: "stmt \<Rightarrow> bool" where
  "is_dml Begin = False"
| "is_dml Commit = False"
| "is_dml Rollback = False"
| "is_dml Fk_on = False"
| "is_dml Empty_stmt = False"
| "is_dml st = (\<not> is_select st)"

lemma run_dml:
  assumes "is_dml st"
  shows "run_stmt Q st c =
    (case dml (cn_fk c) (cn_last c) st (cn_db c) of
       Inl e \<Rightarrow> (e, [], c)
     | Inr (d, i) \<Rightarrow> (SQLITE_DONE, [], c\<lparr>cn_db := d, cn_last := i\<rparr>))"
  using assms by (cases st) (simp_all add: run_stmt_def split: sum.splits prod.splits)

lemma dml_error: "dml fk l st d = Inl e \<Longrightarrow> e = SQLITE_CONSTRAINT"
  by (cases st) (auto simp: insert_defs delete_user_def Let_def split: if_splits sum.splits)

lemma sql_insert_quiet [sql_simps]:
  assumes "quiet c" and "\<not> cn_mutex c" and "is_dml st"
  shows "sql_insert Q (Known st) c =
    (case dml (cn_fk c) (cn_last c) st (cn_db c) of
       Inl e \<Rightarrow> Inr (0, SQLITE_CONSTRAINT, c)
     | Inr (d, i) \<Rightarrow> Inr (of_nat i, SQLITE_OK, c\<lparr>cn_db := d, cn_last := i\<rparr>))"
proof (cases "dml (cn_fk c) (cn_last c) st (cn_db c)")
  case (Inl e)
  with assms dml_error [OF Inl] show ?thesis
    by (simp add: sql_insert_def prepare_quiet lock_def unlock_def step_quiet run_dml first_rc_def)
next
  case (Inr r)
  with assms show ?thesis
    by (cases r)
      (simp add: sql_insert_def prepare_quiet lock_def unlock_def step_quiet run_dml first_rc_def)
qed

text \<open>Once the mutex is left locked no insertion returns.\<close>

lemma sql_insert_deadlock:
  "quiet c \<Longrightarrow> cn_mutex c \<Longrightarrow> sql_insert Q (Known st) c = Inl Deadlock"
  by (simp add: sql_insert_def prepare_quiet lock_def)

section \<open>Every function keeps the integrity\<close>

lemma lock_conn_inv: "lock c = Inr c' \<Longrightarrow> conn_inv Inv fkr c' = conn_inv Inv fkr c"
  by (auto simp: lock_def split: if_splits)

lemma unlock_conn_inv [simp]: "conn_inv Inv fkr (unlock c) = conn_inv Inv fkr c"
  by (simp add: unlock_def)

context db_invariant
begin

lemma sql_insert_keeps:
  assumes "conn_inv Inv fkr c" and "sql_insert Q (Known st) c = Inr (v, rc, c')"
  shows "conn_inv Inv fkr c'"
proof -
  obtain rc1 c1 where pr: "prepare Q (Known st) c = (rc1, c1)" by fastforce
  have c1: "conn_inv Inv fkr c1"
    using assms(1) pr by (rule prepare_keeps)
  show ?thesis
  proof (cases "rc1 = SQLITE_OK")
    case True
    then obtain c2 where c2: "lock c1 = Inr c2"
      using assms(2) by (auto simp: sql_insert_def pr bindE_eq_Inr_iff)
    obtain rc2 rows c3 where st: "step Q (Known st) c2 = (rc2, rows, c3)"
      by (metis prod_cases3)
    have "conn_inv Inv fkr c3"
      using step_keeps [OF _ st] lock_conn_inv [OF c2] c1 by blast
    then show ?thesis
      using assms(2) True by (auto simp: sql_insert_def pr c2 st split: if_splits)
  next
    case False
    then show ?thesis using assms(2) c1 by (simp add: sql_insert_def pr)
  qed
qed

lemma sql_get_list_keeps:
  assumes "conn_inv Inv fkr c" and "sql_get_list Q (Known st) c = Inr (v, rc, c')"
  shows "conn_inv Inv fkr c'"
  using assms
  by (auto simp: sql_get_list_def split: prod.splits if_splits dest: prepare_keeps [rotated] step_keeps [rotated])

lemma get_row_keeps:
  assumes "conn_inv Inv fkr c" and "get_row Q (Known st) c = (v, rc, c')"
  shows "conn_inv Inv fkr c'"
  using assms
  by (auto simp: get_row_def split: prod.splits if_splits list.splits
      dest: prepare_keeps [rotated] step_keeps [rotated])

lemma row_exists_keeps:
  assumes "conn_inv Inv fkr c" and "row_exists Q (Known st) c = Inr (v, rc, c')"
  shows "conn_inv Inv fkr c'"
  using assms by (auto simp: row_exists_def split: prod.splits option.splits dest: get_row_keeps [rotated])

lemma rollback_keeps:
  assumes "conn_inv Inv fkr c" and "rollback Q rc c = (rc', c')"
  shows "conn_inv Inv fkr c'"
  using assms exec1_keeps [of c Q Rollback "fst (exec Q [Known Rollback] c)" c']
  by (auto simp: rollback_def simp del: exec.simps)

lemma exec_all_keeps:
  assumes "\<And>st. st \<in> set sts \<Longrightarrow> snprintf_query QUERY_SMALL st = Known st"
    and "conn_inv Inv fkr c" and "exec_all Q sts c = Inr (v, rc, c')"
  shows "conn_inv Inv fkr c'"
  using assms
proof (induction sts arbitrary: c)
  case Nil
  then show ?case by simp
next
  case (Cons st sts)
  have known: "snprintf_query QUERY_SMALL st = Known st"
    using Cons.prems(1) by simp
  obtain rc1 c1 where run: "exec Q [Known st] c = (rc1, c1)" by fastforce
  then have "conn_inv Inv fkr c1"
    using Cons.prems(2) by (rule exec1_keeps [rotated])
  then show ?case
    using Cons.IH [of c1] Cons.prems run
    by (auto simp: known simp del: exec.simps split: if_splits prod.splits dest: rollback_keeps [rotated])
qed

lemma exec_rc_keeps:
  assumes "snprintf_query QUERY_SMALL st = Known st"
    and "conn_inv Inv fkr c" and "exec_rc Q st c = Inr (v, rc, c')"
  shows "conn_inv Inv fkr c'"
  using assms
  by (auto simp: exec_rc_def simp del: exec.simps split: prod.splits if_splits dest: exec1_keeps [rotated])

lemma exec_ok_keeps:
  assumes "snprintf_query QUERY_SMALL st = Known st"
    and "conn_inv Inv fkr c" and "exec_ok Q st c = Inr (v, rc, c')"
  shows "conn_inv Inv fkr c'"
  using assms
  by (auto simp: exec_ok_def simp del: exec.simps split: prod.splits if_splits dest: exec1_keeps [rotated])

lemma user_get_by_id_keeps:
  "conn_inv Inv fkr c \<Longrightarrow> user_get_by_id Q i c = Inr (v, rc, c') \<Longrightarrow> conn_inv Inv fkr c'"
  by (auto simp: user_get_by_id_def sql_simps bindE_eq_Inr_iff split: prod.splits option.splits
      dest: get_row_keeps [rotated])

lemma user_get_by_uname_keeps:
  assumes "uname = Some u" and "snprintf_query QUERY_SMALL (Sel_user_by_uname u) = Known (Sel_user_by_uname u)"
    and "conn_inv Inv fkr c" and "user_get_by_uname Q uname c = Inr (v, rc, c')"
  shows "conn_inv Inv fkr c'"
  using assms
  by (auto simp: user_get_by_uname_def cstring_arg_def bindE_eq_Inr_iff
      split: prod.splits option.splits dest: get_row_keeps [rotated])

lemma list_functions_keep:
  assumes "conn_inv Inv fkr c"
  shows "user_get_conv_list Q u l f c = Inr (v, rc, c') \<Longrightarrow> conn_inv Inv fkr c'"
    and "user_get_chat_list Q u l f c = Inr (v, rc, c') \<Longrightarrow> conn_inv Inv fkr c'"
    and "conv_get_members Q u c = Inr (v, rc, c') \<Longrightarrow> conn_inv Inv fkr c'"
    and "msg_conv_get_all Q u l f c = Inr (v, rc, c') \<Longrightarrow> conn_inv Inv fkr c'"
    and "msg_chat_get_all Q u l f c = Inr (v, rc, c') \<Longrightarrow> conn_inv Inv fkr c'"
    and "msg_get_msg_sent Q u c = Inr (v, rc, c') \<Longrightarrow> conn_inv Inv fkr c'"
    and "msg_get_msg_del Q u a b c = Inr (v, rc, c') \<Longrightarrow> conn_inv Inv fkr c'"
  using assms
  by (auto simp: user_get_conv_list_def user_get_chat_list_def conv_get_members_def
      msg_conv_get_all_def msg_chat_get_all_def msg_get_msg_sent_def msg_get_msg_del_def sql_simps
      split: if_splits dest: sql_get_list_keeps [rotated])

lemma test_functions_keep:
  assumes "conn_inv Inv fkr c"
  shows "conv_is_admin Q a u c = Inr (v, rc, c') \<Longrightarrow> conn_inv Inv fkr c'"
    and "conv_is_member Q a u c = Inr (v, rc, c') \<Longrightarrow> conn_inv Inv fkr c'"
    and "chat_is_member Q a u c = Inr (v, rc, c') \<Longrightarrow> conn_inv Inv fkr c'"
  using assms
  by (auto simp: conv_is_admin_def conv_is_member_def chat_is_member_def numeric_queries
      dest: row_exists_keeps [rotated])

lemma info_functions_keep:
  assumes "conn_inv Inv fkr c"
  shows "conv_get_info Q a c = Inr (w, rc, c') \<Longrightarrow> conn_inv Inv fkr c'"
    and "chat_get_info Q a c = Inr (x, rc, c') \<Longrightarrow> conn_inv Inv fkr c'"
    and "msg_get_detail Q a c = Inr (y, rc, c') \<Longrightarrow> conn_inv Inv fkr c'"
  using assms
  by (auto simp: conv_get_info_def chat_get_info_def msg_get_detail_def numeric_queries
      bindE_eq_Inr_iff split: prod.splits option.splits dest: get_row_keeps [rotated])

lemma write_functions_keep:
  assumes "conn_inv Inv fkr c"
  shows "conv_drop Q a c = Inr (v, rc, c') \<Longrightarrow> conn_inv Inv fkr c'"
    and "chat_drop Q a c = Inr (v, rc, c') \<Longrightarrow> conn_inv Inv fkr c'"
    and "conv_join Q u a c = Inr (v, rc, c') \<Longrightarrow> conn_inv Inv fkr c'"
    and "conv_quit Q u a c = Inr (v, rc, c') \<Longrightarrow> conn_inv Inv fkr c'"
    and "msg_delivered Q a c = Inr (v, rc, c') \<Longrightarrow> conn_inv Inv fkr c'"
    and "msg_delete Q a c = Inr (v, rc, c') \<Longrightarrow> conn_inv Inv fkr c'"
    and "msg_drop Q a c = Inr (v, rc, c') \<Longrightarrow> conn_inv Inv fkr c'"
  using assms
  by (auto simp: conv_join_def conv_quit_def msg_delivered_def msg_delete_def msg_drop_def
      numeric_queries bindE_eq_Inr_iff dest: sql_insert_keeps [rotated] exec_rc_keeps [rotated]
        exec_ok_keeps [rotated],
    auto simp: conv_drop_def chat_drop_def simp del: exec_all.simps
      elim!: exec_all_keeps [rotated 2] simp: numeric_queries)

lemma exec_pair_keeps:
  "conn_inv Inv fkr c \<Longrightarrow> exec Q [Known st, Known st'] c = (rc, c') \<Longrightarrow> conn_inv Inv fkr c'"
  using exec_keeps [of c Q "[st, st']"] by simp

text \<open>The functions that insert text, under the condition that it does not break the statement.\<close>

lemma user_create_keeps:
  assumes "info = \<lparr>us_id = i, us_uname = Some u, us_password = Some p, us_phone = Some ph,
      us_email = Some e\<rparr>"
    and "snprintf_query QUERY_SMALL (Ins_user u p ph e) = Known (Ins_user u p ph e)"
    and "conn_inv Inv fkr c" and "user_create Q info c = Inr (v, rc, c')"
  shows "conn_inv Inv fkr c'"
  using assms by (auto simp: user_create_def cstring_arg_def dest: sql_insert_keeps [rotated])

lemma user_search_keeps:
  assumes "uname = Some u" and "snprintf_query QUERY_SMALL (Search_users u (sint l) (sint f)) =
      Known (Search_users u (sint l) (sint f))"
    and "conn_inv Inv fkr c" and "user_search_by_uname Q uname l f c = Inr (v, rc, c')"
  shows "conn_inv Inv fkr c'"
  using assms
  by (auto simp: user_search_by_uname_def cstring_arg_def dest: sql_get_list_keeps [rotated])

lemma chat_create_keeps:
  assumes "conn_inv Inv fkr c" and "chat_create Q a b c = Inr (v, rc, c')"
  shows "conn_inv Inv fkr c'"
proof -
  obtain rc1 c1 where run: "exec Q [Known Fk_on] c = (rc1, c1)" by fastforce
  have "conn_inv Inv fkr c1" using assms(1) run by (rule exec1_keeps)
  then show ?thesis
    using assms(2) run
    by (auto simp: chat_create_def numeric_queries simp del: exec.simps split: if_splits
        dest: sql_insert_keeps [rotated])
qed

lemma msg_send_keeps:
  assumes "mg_content msg = Some s"
    and known: "\<And>u r ct cl t h k. opt_ref (\<lambda>n. n < 4294967296) r \<Longrightarrow> opt_ref (\<lambda>n. n < 4294967296) h \<Longrightarrow>
      opt_ref (\<lambda>n. n < 4294967296) k \<Longrightarrow> u < 4294967296 \<Longrightarrow> ct < 4294967296 \<Longrightarrow> cl < 4294967296 \<Longrightarrow>
      t < 4294967296 \<Longrightarrow>
      snprintf_query QUERY_LARGE (Ins_msg u r ct cl s t h k) = Known (Ins_msg u r ct cl s t h k)"
    and "conn_inv Inv fkr c" and "msg_send Q now msg c = Inr (v, rc, c')"
  shows "conn_inv Inv fkr c'"
proof -
  have bound: "opt_ref (\<lambda>n. n < 4294967296) (null_if_zero w)" for w
    using unat_u32_bound [of w] by (simp add: null_if_zero_def opt_ref_def)
  let ?st = "Ins_msg (unat (mg_from_uid msg)) (null_if_zero (mg_reply_to msg))
    (unat (mg_content_type msg)) (unat (mg_content_length msg)) s (unat now)
    (null_if_zero (mg_chat_id msg)) (null_if_zero (mg_conv_id msg))"
  have q: "snprintf_query QUERY_LARGE ?st = Known ?st"
    by (intro known bound unat_u32_bound)
  obtain rc1 c1 where run: "exec Q [Known Fk_on] c = (rc1, c1)" by fastforce
  have c1: "conn_inv Inv fkr c1" using assms(3) run by (rule exec1_keeps)
  obtain rc2 c2 where run2: "exec Q [Known ?st] (c1\<lparr>cn_mutex := True\<rparr>) = (rc2, c2)" by fastforce
  have "conn_inv Inv fkr c2"
    using exec1_keeps [OF _ run2] c1 by simp
  then show ?thesis
    using assms(1,4) run c1 q run2
    by (auto simp: msg_send_def numeric_queries cstring_arg_def lock_def Let_def
        simp del: exec.simps split: if_splits)
qed

lemma conv_create_keeps:
  assumes "name = Some g"
    and known: "snprintf_query QUERY_SMALL (Ins_conv (unat a) g) = Known (Ins_conv (unat a) g)"
    and "conn_inv Inv fkr c" and "conv_create Q a name c = Inr (v, rc, c')"
  shows "conn_inv Inv fkr c'"
proof -
  obtain rc1 c1 where r1: "exec Q [Known Fk_on, Known Begin] c = (rc1, c1)" by fastforce
  have c1: "conn_inv Inv fkr c1" using assms(3) r1 by (rule exec_pair_keeps)
  obtain rc2 c2 where r2: "exec Q [Known (Ins_conv (unat a) g)] (c1\<lparr>cn_mutex := True\<rparr>) = (rc2, c2)"
    by fastforce
  have c2: "conn_inv Inv fkr c2" using exec1_keeps [OF _ r2] c1 by simp
  obtain rc3 c3 where r3: "exec Q [Known (Ins_member_last (unat a))] (unlock c2) = (rc3, c3)"
    by fastforce
  have c3: "conn_inv Inv fkr c3" using exec1_keeps [OF _ r3] c2 by simp
  obtain rc4 c4 where r4: "exec Q [Known Commit] c3 = (rc4, c4)" by fastforce
  have c4: "conn_inv Inv fkr c4" using c3 r4 by (rule exec1_keeps)
  show ?thesis
    using assms(1,4) known r1 r2 r3 r4 c1 c2 c3 c4
    by (auto simp: conv_create_def numeric_queries cstring_arg_def lock_def Let_def
        simp del: exec.simps split: if_splits prod.splits dest: rollback_keeps [rotated])
qed

end

end
