(* ===== verification/Token.thy ===== *)
theory Token
  imports Database
begin

unbundle bit_operations_syntax

text \<open>
  The helpers of \<^verbatim>\<open>server/src/handler.c\<close> above the handlers: the session token, the hash of a
  password and the name an uploaded file is stored under. Blowfish and MD5 are library code
  and stay parameters: a function on blocks of eight bytes each way, and a function from
  strings to digests that may fail. The clock is the argument \<open>now\<close>.
\<close>

section \<open>Tokens\<close>

definition EXPIRY_TIME :: time_t where
  "EXPIRY_TIME = 108000"

definition store64 :: "time_t \<Rightarrow> bytes" where
  "store64 w = [ucast w, ucast (drop_bit 8 w), ucast (drop_bit 16 w), ucast (drop_bit 24 w),
     ucast (drop_bit 32 w), ucast (drop_bit 40 w), ucast (drop_bit 48 w), ucast (drop_bit 56 w)]"

definition load64 :: "bytes \<Rightarrow> time_t" where
  "load64 bs = ucast (bs ! 0) OR push_bit 8 (ucast (bs ! 1)) OR push_bit 16 (ucast (bs ! 2)) OR
     push_bit 24 (ucast (bs ! 3)) OR push_bit 32 (ucast (bs ! 4)) OR push_bit 40 (ucast (bs ! 5)) OR
     push_bit 48 (ucast (bs ! 6)) OR push_bit 56 (ucast (bs ! 7))"

definition make_token :: "(bytes \<Rightarrow> bytes) \<Rightarrow> time_t \<Rightarrow> u32 \<Rightarrow> u32 \<Rightarrow> bytes" where
  "make_token encrypt now addr user_id =
     (let msg = store32 addr @ store32 user_id @ store64 (now + EXPIRY_TIME)
      in encrypt (take 8 msg) @ encrypt (take 8 (drop 8 msg)))"

definition verify_token :: "(bytes \<Rightarrow> bytes) \<Rightarrow> time_t \<Rightarrow> u32 \<Rightarrow> u32 \<Rightarrow> bytes \<Rightarrow> int" where
  "verify_token decrypt now addr user_id token =
     (let plaintext = decrypt (take 8 token) @ decrypt (take 8 (drop 8 token))
      in if take 4 plaintext \<noteq> store32 addr then -1
         else if take 4 (drop 4 plaintext) \<noteq> store32 user_id then -1
         else if sint (load64 (take 8 (drop 8 plaintext)) - now) > sint EXPIRY_TIME then 0
         else 1)"

text \<open>What is relied on of the cipher: it maps blocks to blocks and decryption undoes encryption.\<close>

definition cipher_ok :: "(bytes \<Rightarrow> bytes) \<Rightarrow> (bytes \<Rightarrow> bytes) \<Rightarrow> bool" where
  "cipher_ok encrypt decrypt \<longleftrightarrow>
     (\<forall>b. length b = 8 \<longrightarrow> length (encrypt b) = 8 \<and> length (decrypt b) = 8 \<and>
        decrypt (encrypt b) = b \<and> encrypt (decrypt b) = b)"

lemma length_store64 [simp]: "length (store64 w) = 8"
  by (simp add: store64_def)

lemma load64_store64 [simp]: "load64 (store64 w) = w"
proof (rule bit_word_eqI)
  fix n assume n: "n < LENGTH(64)"
  consider "n < 8" | "8 \<le> n" "n < 16" | "16 \<le> n" "n < 24" | "24 \<le> n" "n < 32" | "32 \<le> n" "n < 40"
    | "40 \<le> n" "n < 48" | "48 \<le> n" "n < 56" | "56 \<le> n" by linarith
  then show "bit (load64 (store64 w)) n = bit w n"
    using n by cases (auto simp: load64_def store64_def bit_simps)
qed

lemma store32_inject [simp]: "store32 v = store32 w \<longleftrightarrow> v = w"
  by (metis load32_store32)

lemma length_make_token:
  "cipher_ok enc decr \<Longrightarrow> length (make_token enc now addr uid) = TOKEN_LEN"
  by (simp add: cipher_ok_def make_token_def Let_def TOKEN_LEN_def)

lemma verify_made_token:
  assumes "cipher_ok enc decr"
  shows "verify_token decr now' addr' uid' (make_token enc now addr uid) =
    (if addr' \<noteq> addr \<or> uid' \<noteq> uid then -1
     else if sint (now + EXPIRY_TIME - now') > sint EXPIRY_TIME then 0 else 1)"
proof -
  let ?m1 = "store32 addr @ store32 uid" and ?m2 = "store64 (now + EXPIRY_TIME)"
  have "length (enc ?m1) = 8" "length (enc ?m2) = 8" "decr (enc ?m1) = ?m1" "decr (enc ?m2) = ?m2"
    using assms by (simp_all add: cipher_ok_def)
  then show ?thesis
    by (simp add: verify_token_def make_token_def Let_def)
qed

section \<open>Hashes\<close>

definition HASHED_LEN :: nat where
  "HASHED_LEN = 16"

definition hex_digit :: "nat \<Rightarrow> byte" where
  "hex_digit n = (if n < 10 then of_nat (48 + n) else of_nat (87 + n))"

definition hex_byte :: "byte \<Rightarrow> bytes" where
  "hex_byte b = [hex_digit (unat b div 16), hex_digit (unat b mod 16)]"

text \<open>\<open>None\<close> is the result \<open>-1\<close>; otherwise the string that is left in \<^verbatim>\<open>res\<close>.\<close>

definition hash_str :: "(bytes \<Rightarrow> bytes option) \<Rightarrow> bytes \<Rightarrow> bytes option" where
  "hash_str md5 str = map_option (\<lambda>hashed. concat (map hex_byte (take HASHED_LEN hashed))) (md5 str)"

definition md5_ok :: "(bytes \<Rightarrow> bytes option) \<Rightarrow> bool" where
  "md5_ok md5 \<longleftrightarrow> (\<forall>s h. md5 s = Some h \<longrightarrow> length h = HASHED_LEN)"

lemma length_concat_hex: "length (concat (map hex_byte bs)) = 2 * length bs"
  by (induction bs) (simp_all add: hex_byte_def)

lemma length_hash_str: "md5_ok md5 \<Longrightarrow> hash_str md5 s = Some h \<Longrightarrow> length h = 32"
  by (auto simp: hash_str_def md5_ok_def length_concat_hex HASHED_LEN_def)

text \<open>A hash is a word of hexadecimal digits.\<close>

definition is_hex :: "byte \<Rightarrow> bool" where
  "is_hex b \<longleftrightarrow> (48 \<le> b \<and> b \<le> 57) \<or> (97 \<le> b \<and> b \<le> 102)"

lemma hex_digit_is_hex: "n < 16 \<Longrightarrow> is_hex (hex_digit n)"
proof -
  have "\<forall>k\<in>set [0..<16]. is_hex (hex_digit k)"
    by (simp add: upt_rec hex_digit_def is_hex_def)
  then show "n < 16 \<Longrightarrow> ?thesis" by simp
qed

lemma hash_str_hex: "hash_str md5 s = Some h \<Longrightarrow> list_all is_hex h"
proof -
  have "unat (b :: byte) < 256" for b
    using unsigned_less [of b] by simp
  then have byte: "unat (b :: byte) div 16 < 16" for b
    by (simp add: less_mult_imp_div_less)
  have "list_all is_hex (concat (map hex_byte bs))" for bs
    by (induction bs) (simp_all add: hex_byte_def hex_digit_is_hex byte)
  moreover assume "hash_str md5 s = Some h"
  ultimately show ?thesis by (auto simp: hash_str_def)
qed

section \<open>Names of stored files\<close>

definition DOT :: byte where
  "DOT = 46"

text \<open>The loop from the end: the place of the last dot.\<close>

fun last_dot :: "bytes \<Rightarrow> nat \<Rightarrow> nat option" where
  "last_dot fname 0 = None"
| "last_dot fname (Suc i) = (if fname ! i = DOT then Some i else last_dot fname i)"

text \<open>
  The local array has 1024 bytes and \<^verbatim>\<open>memcpy\<close> does not look at it. The second
  \<^verbatim>\<open>snprintf\<close> may print at most 19 characters of the time, which is not before 1970. What is
  left in \<^verbatim>\<open>res\<close> is the hash of the name up to the last dot with the time behind it, and then
  the part from the last dot on, unless that is the whole name.
\<close>

definition process_fname ::
    "(bytes \<Rightarrow> bytes option) \<Rightarrow> time_t \<Rightarrow> bytes \<Rightarrow> bytes \<Rightarrow> bytes res" where
  "process_fname md5 now fname res =
     (if length fname + 1 > 1024 then Inl Out_Of_Bounds
      else
        let i = (case last_dot fname (length fname) of None \<Rightarrow> 0 | Some j \<Rightarrow> j);
            stamp = take 19 (dec (unat now))
        in if i + length stamp + 1 > 1024 then Inl Out_Of_Bounds
           else
             case hash_str md5 (take i fname @ stamp) of
               None \<Rightarrow> Inl Uninitialised
             | Some h \<Rightarrow>
                 writes [(0, h @ [0]), (2 * HASHED_LEN, (if i = 0 then [] else drop i fname) @ [0])] res)"

lemma last_dot_spec:
  "last_dot fname n = None \<longleftrightarrow> (\<forall>j<n. fname ! j \<noteq> DOT)"
  "last_dot fname n = Some i \<Longrightarrow> i < n \<and> fname ! i = DOT \<and> (\<forall>j. i < j \<and> j < n \<longrightarrow> fname ! j \<noteq> DOT)"
proof (induction n)
  case 0
  { case 1 show ?case by simp next case 2 then show ?case by simp }
next
  case (Suc n)
  { case 1 show ?case using Suc(1) by (auto simp: less_Suc_eq)
  next
    case 2
    show ?case
    proof (cases "fname ! n = DOT")
      case True
      with 2 show ?thesis by auto
    next
      case False
      with 2 Suc(2) show ?thesis by (auto simp: less_Suc_eq)
    qed }
qed

definition stored_ext :: "bytes \<Rightarrow> bytes" where
  "stored_ext fname =
     (let i = (case last_dot fname (length fname) of None \<Rightarrow> 0 | Some j \<Rightarrow> j)
      in if i = 0 then [] else drop i fname)"

lemma stored_ext_dots: "stored_ext fname = [] \<or> (\<exists>e. stored_ext fname = DOT # e \<and> DOT \<notin> set e)"
proof (cases "last_dot fname (length fname)")
  case None
  then show ?thesis by (simp add: stored_ext_def)
next
  case (Some i)
  note i = last_dot_spec(2) [OF Some]
  show ?thesis
  proof (cases "i = 0")
    case True
    then show ?thesis using Some by (simp add: stored_ext_def)
  next
    case False
    have "drop i fname = DOT # drop (Suc i) fname"
      using i by (metis Cons_nth_drop_Suc)
    moreover have "DOT \<notin> set (drop (Suc i) fname)"
    proof
      assume "DOT \<in> set (drop (Suc i) fname)"
      then obtain k where "k < length fname - Suc i" "drop (Suc i) fname ! k = DOT"
        by (auto simp: in_set_conv_nth)
      then show False using i by (auto dest!: spec [of _ "Suc (i + k)"])
    qed
    ultimately show ?thesis
      using Some False by (simp add: stored_ext_def)
  qed
qed

section \<open>Properties\<close>

text \<open>
  C29: A token is accepted exactly for the address and the user it was made for, and then at every
  later time: the code compares the time left with the life time of a token, which only a clock
  that was set back can exceed, so a token never expires.
\<close>

theorem token_never_expires:
  assumes "cipher_ok encrypt decrypt" and "0 \<le> sint now" "sint now \<le> sint now'" "sint now' < 2 ^ 62"
  shows "verify_token decrypt now' addr' uid' (make_token encrypt now addr uid) =
    (if addr' = addr \<and> uid' = uid then 1 else -1)"
proof -
  have eq: "now + EXPIRY_TIME - now' = of_int (sint now + 108000 - sint now')"
    by (simp add: EXPIRY_TIME_def)
  have "signed_take_bit 63 (sint now + 108000 - sint now') = sint now + 108000 - sint now'"
    using assms(2-4) by (intro signed_take_bit_int_eq_self) simp_all
  then have "sint (now + EXPIRY_TIME - now') = sint now + 108000 - sint now'"
    unfolding eq signed_of_int by simp
  moreover have "sint EXPIRY_TIME = 108000"
    by (simp add: EXPIRY_TIME_def)
  ultimately show ?thesis
    using assms(3) by (simp add: verify_made_token [OF assms(1)])
qed

theorem token_never_expires_witness:
  "verify_token (map (\<lambda>b. b XOR 255)) 2000000000 7 3
     (make_token (map (\<lambda>b. b XOR 255)) 1600000000 7 3) = 1"
proof -
  have "cipher_ok (map (\<lambda>b. b XOR 255)) (map (\<lambda>b. b XOR 255))"
    by (simp add: cipher_ok_def comp_def xor.assoc)
  then show ?thesis
    using token_never_expires [of "map (\<lambda>b. b XOR 255)" "map (\<lambda>b. b XOR 255)" 1600000000 2000000000 7 3 7 3]
    by simp
qed

text \<open>
  C30: The name a file is stored under is a hash of 32 hexadecimal digits, followed by nothing or by
  one dot and characters without a dot. No name a client sends can therefore lead out of the
  storage directory, and the name is written inside the buffer.
\<close>

theorem stored_name_is_safe:
  assumes "md5_ok md5" and "\<And>s. md5 s \<noteq> None" and "length fname \<le> 900" and "length res = BUFSIZ + 1"
  shows "\<exists>b h ext rest. process_fname md5 now fname res = Inr b \<and> b = h @ ext @ 0 # rest \<and>
    length b = length res \<and> length h = 32 \<and> list_all is_hex h \<and>
    (ext = [] \<or> (\<exists>e. ext = DOT # e \<and> DOT \<notin> set e))"
proof -
  define i where "i = (case last_dot fname (length fname) of None \<Rightarrow> 0 | Some j \<Rightarrow> j)"
  let ?stamp = "take 19 (dec (unat now))"
  have "i \<le> length fname"
    using last_dot_spec(2) [of fname "length fname"] by (auto simp: i_def split: option.splits)
  then have fits: "\<not> i + length ?stamp + 1 > 1024" "\<not> length fname + 1 > 1024"
    using assms(3) by auto
  obtain h where h: "hash_str md5 (take i fname @ ?stamp) = Some h"
    using assms(2) [of "take i fname @ ?stamp"] by (auto simp: hash_str_def)
  have ext: "stored_ext fname = (if i = 0 then [] else drop i fname)"
    by (simp add: stored_ext_def i_def Let_def)
  have len: "length h = 32" "length (stored_ext fname) \<le> 900"
    using length_hash_str [OF assms(1) h] assms(3) by (auto simp: ext)
  have run: "process_fname md5 now fname res =
      writes [(0, h @ [0]), (2 * HASHED_LEN, stored_ext fname @ [0])] res"
    unfolding process_fname_def i_def [symmetric] Let_def if_not_P [OF fits(1)] if_not_P [OF fits(2)] h
      option.case ext ..
  also have "\<dots> = Inr (h @ stored_ext fname @ 0 # drop (length (stored_ext fname) + 33) res)"
    using len assms(4) by (simp add: mem_write_def HASHED_LEN_def BUFSIZ_def)
  finally show ?thesis
    using len assms(4) hash_str_hex [OF h] stored_ext_dots [of fname]
    by (intro exI [of _ "h @ stored_ext fname @ 0 # drop (length (stored_ext fname) + 33) res"]
        exI [of _ h] exI [of _ "stored_ext fname"]
        exI [of _ "drop (length (stored_ext fname) + 33) res"])
      (simp add: BUFSIZ_def)
qed

theorem stored_name_is_safe_witness:
  "\<exists>b h ext rest. process_fname (\<lambda>s. Some (replicate 16 171)) 5 [46, 46, 47, 97, 46, 99]
      (zeros (BUFSIZ + 1)) = Inr b \<and> b = h @ ext @ 0 # rest \<and> length h = 32 \<and> list_all is_hex h \<and>
    (ext = [] \<or> (\<exists>e. ext = DOT # e \<and> DOT \<notin> set e))"
proof -
  have ok: "md5_ok (\<lambda>s. Some (replicate 16 171))"
    by (simp add: md5_ok_def HASHED_LEN_def)
  show ?thesis
    using stored_name_is_safe [OF ok, of "[46, 46, 47, 97, 46, 99]" "zeros (BUFSIZ + 1)" 5] by auto
qed

end
