(* ===== verification/Handler.thy ===== *)
theory Handler
  imports Request Response Sql_Facts Token
begin

text \<open>
  \<^verbatim>\<open>server/src/handler.c\<close>: the request handlers. The state of a handler is the buffer of the
  connection, the database connection, the stored files, and what has been done to the client's
  socket: the blocks written to it, how often it was closed, whether it is still in the server's
  set of open sockets, whether the flag \<^verbatim>\<open>close_conn\<close> is
  set and whether the socket was rearmed. The world around the server is in two places: an
  environment record with the clock, the peer's address, the engine, the cipher and the digest,
  and scripts in the state with the results of the system calls, one entry per call or per round
  of a loop. The macros \<^verbatim>\<open>SEND_RESPONSE\<close> and \<^verbatim>\<open>RESPONSE_ERR\<close> are the functions
  \<open>send_response\<close> and \<open>response_err\<close>; the resources they free are not part of the model.
\<close>

section \<open>The state of a handler\<close>

record env =
  e_sql :: sqlite
  e_encrypt :: "bytes \<Rightarrow> bytes"
  e_decrypt :: "bytes \<Rightarrow> bytes"
  e_md5 :: "bytes \<Rightarrow> bytes option"
  e_now :: time_t
  e_addr :: u32
  e_open_ok :: bool
  e_fstat_ok :: bool
  e_fclose_ok :: bool
  e_epoll_ok :: bool

text \<open>
  One round of the loop that receives a file: the result of \<^verbatim>\<open>poll\<close> and whether the events are
  exactly \<^verbatim>\<open>POLLIN\<close>, then the result of \<^verbatim>\<open>read\<close>, and whether the file system took the bytes.
\<close>

datatype read_result = Read_error | Read_would_block | Read_bytes bytes

record upload_ev =
  up_poll :: int
  up_pollin :: bool
  up_read :: read_result
  up_fs_ok :: bool

record download_ev =
  dl_fs_ok :: bool
  dl_poll :: int
  dl_pollout :: bool
  dl_write_ok :: bool

record hstate =
  h_buf :: bytes
  h_conn :: conn
  h_files :: "bytes \<rightharpoonup> bytes"
  h_out :: "bytes list"
  h_closes :: nat
  h_tracked :: bool
  h_close_conn :: bool
  h_rearmed :: bool
  h_writes :: "int list"
  h_uploads :: "upload_ev list"
  h_downloads :: "download_ev list"

text \<open>\<^verbatim>\<open>write(cfd, buf, BUFSIZ)\<close>: the next result of the script, or all bytes.\<close>

definition write_client :: "hstate \<Rightarrow> int \<times> hstate" where
  "write_client s =
     (case h_writes s of
        [] \<Rightarrow> (int BUFSIZ, s\<lparr>h_out := h_out s @ [take BUFSIZ (h_buf s)]\<rparr>)
      | n # ns \<Rightarrow>
          (n, s\<lparr>h_writes := ns,
                h_out := if n < 0 then h_out s else h_out s @ [take (min (nat n) BUFSIZ) (h_buf s)]\<rparr>))"

text \<open>
  The function \<^verbatim>\<open>close_sock\<close> that \<^verbatim>\<open>main.c\<close> passes in closes the socket and takes it out of the
  set of open sockets; \<^verbatim>\<open>close\<close> alone leaves it in the set.
\<close>

definition close_fd :: "hstate \<Rightarrow> hstate" where
  "close_fd s = s\<lparr>h_closes := h_closes s + 1\<rparr>"

definition close_sock :: "hstate \<Rightarrow> hstate" where
  "close_sock s = (close_fd s)\<lparr>h_tracked := False\<rparr>"

definition send_response :: "hstate \<Rightarrow> hstate" where
  "send_response s =
     (case write_client s of (n, s') \<Rightarrow>
        if n \<noteq> int BUFSIZ then (close_sock s')\<lparr>h_close_conn := True\<rparr> else s')"

definition into_buf :: "(bytes \<Rightarrow> bytes res) \<Rightarrow> hstate \<Rightarrow> hstate res" where
  "into_buf f s = bindE (f (h_buf s)) (\<lambda>b. Inr (s\<lparr>h_buf := b\<rparr>))"

definition respond :: "(bytes \<Rightarrow> bytes res) \<Rightarrow> hstate \<Rightarrow> hstate res" where
  "respond f s = bindE (into_buf f s) (\<lambda>s'. Inr (send_response s'))"

definition response_err :: "u32 \<Rightarrow> byte \<Rightarrow> byte \<Rightarrow> hstate \<Rightarrow> hstate res" where
  "response_err status grp action s = respond (make_err_response status grp action) s"

definition sql :: "(conn \<Rightarrow> 'a sqlres) \<Rightarrow> hstate \<Rightarrow> ('a \<times> nat \<times> hstate) res" where
  "sql f s = bindE (f (h_conn s)) (\<lambda>(v, rc, c). Inr (v, rc, s\<lparr>h_conn := c\<rparr>))"

definition deref :: "'a option \<Rightarrow> 'a res" where
  "deref p = (case p of None \<Rightarrow> Inl Null_Deref | Some x \<Rightarrow> Inr x)"

definition at_least_0 :: "i32 \<Rightarrow> i32" where
  "at_least_0 n = (if sint n > 0 then n else 0)"

section \<open>Registration and login\<close>

definition handle_auth_register :: "env \<Rightarrow> request_auth \<Rightarrow> hstate \<Rightarrow> hstate res" where
  "handle_auth_register E ra s =
     bindE (deref (ra_password ra)) (\<lambda>password.
       case hash_str (e_md5 E) password of
         None \<Rightarrow> response_err 500 0 0 s
       | Some hashed_password \<Rightarrow>
           bindE (sql (user_create (e_sql E) \<lparr>us_id = 0, us_uname = ra_uname ra,
               us_password = Some hashed_password, us_phone = ra_phone ra,
               us_email = ra_email ra\<rparr>) s) (\<lambda>(uid, rc, s1).
             if sql_is_err rc then
               if rc = SQLITE_CONSTRAINT then response_err 409 0 0 s1 else response_err 500 0 0 s1
             else
               respond (make_response_auth_register 201
                 (make_token (e_encrypt E) (e_now E) (e_addr E) uid) uid) s1))"

definition handle_auth_login :: "env \<Rightarrow> request_auth \<Rightarrow> hstate \<Rightarrow> hstate res" where
  "handle_auth_login E ra s =
     bindE (sql (user_get_by_uname (e_sql E) (ra_uname ra)) s) (\<lambda>(user, rc, s1).
       if sql_is_err rc then response_err 500 0 1 s1
       else if rc = SQLITE_EMPTY then response_err 404 0 1 s1
       else
         bindE (deref (ra_password ra)) (\<lambda>password.
         bindE (deref user) (\<lambda>u.
         bindE (deref (us_password u)) (\<lambda>stored.
           case hash_str (e_md5 E) password of
             None \<Rightarrow> Inl Uninitialised
           | Some hashed_password \<Rightarrow>
               if hashed_password \<noteq> stored then response_err 403 0 1 s1
               else respond (make_response_auth_login 200
                      (make_token (e_encrypt E) (e_now E) (e_addr E) (us_id u)) (us_id u)) s1))))"

section \<open>Users\<close>

definition handle_user_get_info :: "env \<Rightarrow> request_user \<Rightarrow> hstate \<Rightarrow> hstate res" where
  "handle_user_get_info E ru s =
     bindE (sql (user_get_by_id (e_sql E) (ru_user_id ru)) s) (\<lambda>(user, rc, s1).
       if sql_is_err rc then response_err 500 1 1 s1
       else if rc = SQLITE_EMPTY then response_err 404 1 1 s1
       else
         bindE (deref user) (\<lambda>u.
         bindE (deref (us_uname u)) (\<lambda>uname.
         bindE (deref (us_phone u)) (\<lambda>phone.
         bindE (deref (us_email u)) (\<lambda>email.
           respond (make_response_user_get_info 200 uname phone email) s1)))))"

definition handle_user_search :: "env \<Rightarrow> request_header \<Rightarrow> request_user \<Rightarrow> hstate \<Rightarrow> hstate res" where
  "handle_user_search E header ru s =
     bindE (sql (user_search_by_uname (e_sql E) (ru_uname ru) (at_least_0 (rq_limit header))
         (at_least_0 (rq_offset header))) s) (\<lambda>(ls, rc, s1).
       if sql_is_err rc then response_err 500 1 2 s1
       else respond (make_response_user_search 200 (of_nat (length ls)) ls) s1)"

section \<open>Conversations\<close>

definition handle_conv_create :: "env \<Rightarrow> request_header \<Rightarrow> request_conv \<Rightarrow> hstate \<Rightarrow> hstate res" where
  "handle_conv_create E header rconv s =
     bindE (sql (conv_create (e_sql E) (rq_user_id header) (rc_gname rconv)) s) (\<lambda>(cid, rc, s1).
       if sql_is_err rc then response_err 500 2 0 s1
       else respond (make_response_conv_create 201 cid) s1)"

definition handle_conv_drop :: "env \<Rightarrow> request_header \<Rightarrow> request_conv \<Rightarrow> hstate \<Rightarrow> hstate res" where
  "handle_conv_drop E header rconv s =
     bindE (sql (conv_is_admin (e_sql E) (rc_conv_id rconv) (rq_user_id header)) s)
       (\<lambda>(is_admin, rc, s1).
       if sql_is_err rc then response_err 500 2 4 s1
       else if \<not> is_admin then response_err 403 2 4 s1
       else
         bindE (sql (conv_drop (e_sql E) (rc_conv_id rconv)) s1) (\<lambda>(_, rc, s2).
           if sql_is_err rc then response_err 500 2 1 s2
           else respond (make_response_conv_drop 200) s2))"

definition handle_conv_join :: "env \<Rightarrow> request_header \<Rightarrow> request_conv \<Rightarrow> hstate \<Rightarrow> hstate res" where
  "handle_conv_join E header rconv s =
     bindE (sql (conv_is_member (e_sql E) (rc_conv_id rconv) (rq_user_id header)) s)
       (\<lambda>(is_member, rc, s1).
       if sql_is_err rc then response_err 500 2 4 s1
       else if \<not> is_member then response_err 403 2 4 s1
       else
         bindE (sql (conv_join (e_sql E) (rc_user_id rconv) (rc_conv_id rconv)) s1) (\<lambda>(_, rc, s2).
           if sql_is_err rc then response_err 500 2 2 s2
           else respond (make_response_conv_join 200) s2))"

text \<open>The membership that is removed is the requester's, also when an administrator names another user.\<close>

definition handle_conv_quit :: "env \<Rightarrow> request_header \<Rightarrow> request_conv \<Rightarrow> hstate \<Rightarrow> hstate res" where
  "handle_conv_quit E header rconv s =
     bindE (sql (conv_is_member (e_sql E) (rc_conv_id rconv) (rq_user_id header)) s)
       (\<lambda>(is_member, rc, s1).
       if sql_is_err rc then response_err 500 2 3 s1
       else if \<not> is_member then response_err 403 2 3 s1
       else
         bindE (sql (conv_is_admin (e_sql E) (rc_conv_id rconv) (rq_user_id header)) s1)
           (\<lambda>(is_admin, rc, s2).
           if sql_is_err rc then response_err 500 2 3 s2
           else if rc_user_id rconv \<noteq> rq_user_id header \<and> \<not> is_admin then response_err 403 2 3 s2
           else if rc_user_id rconv = rq_user_id header \<and> is_admin then response_err 204 2 3 s2
           else
             bindE (sql (conv_quit (e_sql E) (rq_user_id header) (rc_conv_id rconv)) s2)
               (\<lambda>(_, rc, s3).
               if sql_is_err rc then response_err 500 2 3 s3
               else respond (make_response_conv_quit 200) s3)))"

definition handle_conv_get_info :: "env \<Rightarrow> request_conv \<Rightarrow> hstate \<Rightarrow> hstate res" where
  "handle_conv_get_info E rconv s =
     bindE (sql (conv_get_info (e_sql E) (rc_conv_id rconv)) s) (\<lambda>(conv, rc, s1).
       if sql_is_err rc then response_err 500 2 4 s1
       else if rc = SQLITE_EMPTY then response_err 404 2 4 s1
       else
         bindE (deref conv) (\<lambda>v.
         bindE (deref (vs_name v)) (\<lambda>name.
           respond (make_response_conv_get_info 200 (vs_admin_id v) name) s1)))"

definition handle_conv_get_members ::
    "env \<Rightarrow> request_header \<Rightarrow> request_conv \<Rightarrow> hstate \<Rightarrow> hstate res" where
  "handle_conv_get_members E header rconv s =
     bindE (sql (conv_is_member (e_sql E) (rc_conv_id rconv) (rq_user_id header)) s)
       (\<lambda>(is_member, rc, s1).
       if sql_is_err rc then response_err 500 2 5 s1
       else if \<not> is_member then response_err 403 2 5 s1
       else
         bindE (sql (conv_get_members (e_sql E) (rc_conv_id rconv)) s1) (\<lambda>(ls, rc, s2).
           if sql_is_err rc then response_err 500 2 5 s2
           else respond (make_response_conv_get_members 200 (of_nat (length ls)) ls) s2))"

definition handle_conv_get_list :: "env \<Rightarrow> request_header \<Rightarrow> hstate \<Rightarrow> hstate res" where
  "handle_conv_get_list E header s =
     bindE (sql (user_get_conv_list (e_sql E) (rq_user_id header) (at_least_0 (rq_limit header))
         (at_least_0 (rq_offset header))) s) (\<lambda>(ls, rc, s1).
       if sql_is_err rc then response_err 500 2 6 s1
       else respond (make_response_conv_get_list 200 (of_nat (length ls)) ls) s1)"

section \<open>Chats\<close>

definition handle_chat_create :: "env \<Rightarrow> request_header \<Rightarrow> request_chat \<Rightarrow> hstate \<Rightarrow> hstate res" where
  "handle_chat_create E header rchat s =
     (if rq_user_id header = rh_user_id2 rchat then response_err 403 3 0 s
      else
        bindE (sql (chat_create (e_sql E) (rq_user_id header) (rh_user_id2 rchat)) s) (\<lambda>(hid, rc, s1).
          if sql_is_err rc then
            if rc = SQLITE_CONSTRAINT then response_err 409 3 0 s1 else response_err 500 3 0 s1
          else respond (make_response_chat_create 201 hid) s1))"

definition handle_chat_drop :: "env \<Rightarrow> request_header \<Rightarrow> request_chat \<Rightarrow> hstate \<Rightarrow> hstate res" where
  "handle_chat_drop E header rchat s =
     bindE (sql (chat_is_member (e_sql E) (rh_chat_id rchat) (rq_user_id header)) s)
       (\<lambda>(is_member, rc, s1).
       if sql_is_err rc then response_err 500 3 1 s1
       else if \<not> is_member then response_err 403 3 1 s1
       else
         bindE (sql (chat_drop (e_sql E) (rh_chat_id rchat)) s1) (\<lambda>(_, rc, s2).
           if sql_is_err rc then response_err 500 3 1 s2
           else respond (make_response_chat_delete 200) s2))"

definition handle_chat_get_list :: "env \<Rightarrow> request_header \<Rightarrow> hstate \<Rightarrow> hstate res" where
  "handle_chat_get_list E header s =
     bindE (sql (user_get_chat_list (e_sql E) (rq_user_id header) (at_least_0 (rq_limit header))
         (at_least_0 (rq_offset header))) s) (\<lambda>(ls, rc, s1).
       if sql_is_err rc then response_err 500 3 2 s1
       else respond (make_response_chat_get_list 200 (of_nat (length ls)) ls) s1)"

text \<open>A chat that does not exist is not an error code, and its null pointer is followed.\<close>

definition handle_chat_get_info :: "env \<Rightarrow> request_header \<Rightarrow> request_chat \<Rightarrow> hstate \<Rightarrow> hstate res" where
  "handle_chat_get_info E header rchat s =
     bindE (sql (chat_get_info (e_sql E) (rh_chat_id rchat)) s) (\<lambda>(chat, rc, s1).
       if sql_is_err rc then response_err 500 3 3 s1
       else
         bindE (deref chat) (\<lambda>h.
           if cs_member1 h \<noteq> rq_user_id header \<and> cs_member2 h \<noteq> rq_user_id header
           then response_err 403 3 3 s1
           else respond (make_response_chat_get_info 200 (cs_member1 h) (cs_member2 h)) s1))"

section \<open>Messages\<close>

text \<open>
  The test before an operation on messages: the requester is a member of the conversation or,
  failing that, of the chat. The two are tested independently of each other.
\<close>

definition require_member ::
    "env \<Rightarrow> request_header \<Rightarrow> u32 \<Rightarrow> u32 \<Rightarrow> byte \<Rightarrow> (hstate \<Rightarrow> hstate res) \<Rightarrow> hstate \<Rightarrow> hstate res" where
  "require_member E header conv_id chat_id action k s =
     bindE (sql (conv_is_member (e_sql E) conv_id (rq_user_id header)) s) (\<lambda>(is_member, rc, s1).
       if sql_is_err rc then response_err 500 4 action s1
       else if is_member then k s1
       else
         bindE (sql (chat_is_member (e_sql E) chat_id (rq_user_id header)) s1)
           (\<lambda>(is_member, rc, s2).
           if sql_is_err rc then response_err 500 4 action s2
           else if \<not> is_member then response_err 403 4 action s2
           else k s2))"

definition handle_msg_get_all :: "env \<Rightarrow> request_header \<Rightarrow> request_msg \<Rightarrow> hstate \<Rightarrow> hstate res" where
  "handle_msg_get_all E header rm s =
     (let limit = at_least_0 (rq_limit header); offset = at_least_0 (rq_offset header);
          chat_id = rm_chat_id rm; conv_id = rm_conv_id rm
      in require_member E header conv_id chat_id 0 (\<lambda>s1.
           bindE (sql (if 0 < chat_id then msg_chat_get_all (e_sql E) chat_id limit offset
                       else msg_conv_get_all (e_sql E) conv_id limit offset) s1) (\<lambda>(ls, rc, s2).
             if sql_is_err rc then response_err 500 4 0 s2
             else if rc = SQLITE_EMPTY then response_err 404 4 0 s2
             else respond (make_response_msg_get_all 200 (of_nat (length ls)) ls) s2)) s)"

text \<open>The common beginning of the handlers that name a message.\<close>

definition with_msg ::
    "env \<Rightarrow> request_header \<Rightarrow> u32 \<Rightarrow> byte \<Rightarrow> (msg_schema \<Rightarrow> hstate \<Rightarrow> hstate res) \<Rightarrow> hstate \<Rightarrow> hstate res" where
  "with_msg E header msg_id action k s =
     bindE (sql (msg_get_detail (e_sql E) msg_id) s) (\<lambda>(msg, rc, s1).
       if sql_is_err rc then response_err 500 4 action s1
       else if rc = SQLITE_EMPTY then response_err 404 4 action s1
       else
         bindE (deref msg) (\<lambda>m.
           require_member E header (mg_conv_id m) (mg_chat_id m) action (k m) s1))"

definition detail_of :: "msg_schema \<Rightarrow> response_msg" where
  "detail_of m = \<lparr>sm_idls = None, sm_msg_id = mg_id m, sm_conv_id = mg_conv_id m,
     sm_chat_id = mg_chat_id m, sm_from_uid = mg_from_uid m, sm_reply_to = mg_reply_to m,
     sm_created_at = mg_created_at m, sm_msg_type = ucast (mg_type m),
     sm_content_type = ucast (mg_content_type m), sm_content_length = mg_content_length m,
     sm_msg_content = mg_content m\<rparr>"

definition handle_msg_get_detail :: "env \<Rightarrow> request_header \<Rightarrow> request_msg \<Rightarrow> hstate \<Rightarrow> hstate res" where
  "handle_msg_get_detail E header rm s =
     with_msg E header (rm_msg_id rm) 1 (\<lambda>m s1.
       bindE (respond (make_response_msg_get_detail 200 (detail_of m)) s1) (\<lambda>s2.
       bindE (sql (msg_delivered (e_sql E) (rm_msg_id rm)) s2) (\<lambda>(_, _, s3). Inr s3))) s"

definition handle_msg_delete :: "env \<Rightarrow> request_header \<Rightarrow> request_msg \<Rightarrow> hstate \<Rightarrow> hstate res" where
  "handle_msg_delete E header rm s =
     with_msg E header (rm_msg_id rm) 3 (\<lambda>m s1.
       bindE (sql (msg_delete (e_sql E) (mg_id m)) s1) (\<lambda>(_, rc, s2).
         if sql_is_err rc then response_err 500 4 3 s2
         else respond (make_response_msg_delete 200) s2)) s"

subsection \<open>Receiving a file\<close>

definition remove_file :: "bytes \<Rightarrow> hstate \<Rightarrow> hstate" where
  "remove_file path s = s\<lparr>h_files := (h_files s)(path := None)\<rparr>"

text \<open>The macro \<^verbatim>\<open>FILE_ERROR_HANDLING\<close>.\<close>

definition file_error :: "bytes \<Rightarrow> hstate \<Rightarrow> hstate" where
  "file_error path s = (close_sock (remove_file path s))\<lparr>h_close_conn := True\<rparr>"

definition append_file :: "bytes \<Rightarrow> bytes \<Rightarrow> hstate \<Rightarrow> hstate" where
  "append_file path bs s =
     s\<lparr>h_files := (h_files s)(path := map_option (\<lambda>old. old @ bs) (h_files s path))\<rparr>"

text \<open>
  The loop; \<open>True\<close> is its normal end, \<open>False\<close> a return of the handler out of it. A script
  that has run out is a \<^verbatim>\<open>poll\<close> that times out, which leaves \<^verbatim>\<open>revents\<close> zero and so takes the
  branch of a failed \<^verbatim>\<open>poll\<close>. The \<^verbatim>\<open>continue\<close> after \<^verbatim>\<open>EWOULDBLOCK\<close> goes to the condition of the
  loop, which is false then.
\<close>

fun upload_loop :: "bytes \<Rightarrow> upload_ev list \<Rightarrow> int \<Rightarrow> hstate \<Rightarrow> (bool \<times> hstate) res" where
  "upload_loop path [] fsize s = bindE (response_err 500 4 2 s) (\<lambda>s'. Inr (False, s'))"
| "upload_loop path (e # es) fsize s =
     (if up_poll e < 0 \<or> \<not> up_pollin e then
        bindE (response_err 500 4 2 s) (\<lambda>s'. Inr (False, s'))
      else if up_poll e = 0 then Inr (False, file_error path s)
      else
        case up_read e of
          Read_error \<Rightarrow> Inr (False, file_error path s)
        | Read_would_block \<Rightarrow> Inr (True, s)
        | Read_bytes bs \<Rightarrow>
            (let chunk = take BUFSIZ bs
             in bindE (into_buf (\<lambda>b. mem_write b 0 chunk) s) (\<lambda>s1.
                  if chunk = [] \<and> fsize > 0 then Inr (False, file_error path s1)
                  else if \<not> up_fs_ok e then Inr (False, file_error path s1)
                  else
                    let s2 = append_file path chunk s1; fsize' = fsize - int (length chunk)
                    in if fsize' \<le> 0 then Inr (True, s2)
                       else if chunk \<noteq> [] then upload_loop path es fsize' s2
                       else Inr (True, s2))))"

definition STORAGE :: bytes where
  "STORAGE = lit ''./storage/''"

text \<open>The path is built in an array of 1024 bytes, with the bound of a larger one.\<close>

definition storage_path :: "bytes \<Rightarrow> bytes res" where
  "storage_path buf =
     bindE (cstr buf 0) (\<lambda>name.
       let path = take (BUFSIZ - 1) (STORAGE @ name)
       in if length path + 1 > 1024 then Inl Out_Of_Bounds else Inr path)"

definition MSG_TEXT :: byte where "MSG_TEXT = 0"
definition MSG_FILE :: byte where "MSG_FILE = 1"

definition new_msg :: "request_header \<Rightarrow> request_msg \<Rightarrow> u32 \<Rightarrow> bytes option \<Rightarrow> msg_schema" where
  "new_msg header rm len content =
     \<lparr>mg_id = 0, mg_from_uid = rq_user_id header, mg_reply_to = rm_reply_id rm,
      mg_content_type = ucast (rq_content_type header), mg_content_length = len,
      mg_content = content, mg_created_at = 0, mg_conv_id = rm_conv_id rm,
      mg_chat_id = rm_chat_id rm, mg_type = 0\<rparr>"

definition send_text :: "env \<Rightarrow> request_header \<Rightarrow> request_msg \<Rightarrow> hstate \<Rightarrow> hstate res" where
  "send_text E header rm s =
     bindE (sql (msg_send (e_sql E) (ucast (e_now E))
         (new_msg header rm (rq_content_len header - 12) (rm_msg_content rm))) s) (\<lambda>(mid, rc, s1).
       if sql_is_err rc then
         if rc = SQLITE_CONSTRAINT then response_err 409 4 2 s1 else response_err 500 4 2 s1
       else respond (make_responses_msg_send 201 mid) s1)"

definition save_file :: "env \<Rightarrow> request_header \<Rightarrow> request_msg \<Rightarrow> bytes \<Rightarrow> hstate \<Rightarrow> hstate res" where
  "save_file E header rm path s =
     (if \<not> e_fclose_ok E then response_err 500 4 2 (remove_file path s)
      else
        bindE (sql (msg_send (e_sql E) (ucast (e_now E))
            (new_msg header rm (rq_content_len header) (Some path))) s) (\<lambda>(mid, rc, s1).
          if sql_is_err rc then
            let s2 = remove_file path s1
            in if rc = SQLITE_CONSTRAINT then response_err 409 4 2 s2 else response_err 500 4 2 s2
          else respond (make_responses_msg_send 201 mid) s1))"

definition send_file :: "env \<Rightarrow> request_header \<Rightarrow> request_msg \<Rightarrow> hstate \<Rightarrow> hstate res" where
  "send_file E header rm s =
     bindE (deref (rm_msg_content rm)) (\<lambda>name.
     bindE (into_buf (process_fname (e_md5 E) (e_now E) name) s) (\<lambda>s1.
     bindE (storage_path (h_buf s1)) (\<lambda>path.
       if \<not> e_open_ok E \<or> h_files s1 path \<noteq> None then response_err 500 4 2 (close_sock s1)
       else
         bindE (upload_loop path (h_uploads s1) (int (unat (rq_content_len header)))
             (s1\<lparr>h_files := (h_files s1)(path \<mapsto> [])\<rparr>)) (\<lambda>(finished, s2).
           if \<not> finished then Inr s2 else save_file E header rm path s2))))"

definition handle_msg_send :: "env \<Rightarrow> request_header \<Rightarrow> request_msg \<Rightarrow> hstate \<Rightarrow> hstate res" where
  "handle_msg_send E header rm s =
     require_member E header (rm_conv_id rm) (rm_chat_id rm) 3 (\<lambda>s1.
       if rq_content_type header = MSG_TEXT then send_text E header rm s1
       else if rq_content_type header = MSG_FILE then send_file E header rm s1
       else response_err 400 4 2 s1) s"

subsection \<open>Notifications\<close>

definition handle_notify_new_msg :: "env \<Rightarrow> request_header \<Rightarrow> hstate \<Rightarrow> hstate res" where
  "handle_notify_new_msg E header s =
     bindE (sql (msg_get_msg_sent (e_sql E) (rq_user_id header)) s) (\<lambda>(ls, rc, s1).
       if sql_is_err rc then response_err 500 4 4 s1
       else respond (make_response_msg_notify_new 200 (of_nat (length ls)) ls) s1)"

definition handle_notify_del_msg :: "env \<Rightarrow> request_header \<Rightarrow> request_msg \<Rightarrow> hstate \<Rightarrow> hstate res" where
  "handle_notify_del_msg E header rm s =
     bindE (sql (msg_get_msg_del (e_sql E) (rq_user_id header) (rm_conv_id rm) (rm_chat_id rm)) s)
       (\<lambda>(ls, rc, s1).
       if sql_is_err rc then response_err 500 4 4 s1
       else respond (make_response_msg_notify_del 200 (of_nat (length ls)) ls) s1)"

subsection \<open>Sending a file\<close>

fun download_loop :: "download_ev list \<Rightarrow> bytes \<Rightarrow> int \<Rightarrow> hstate \<Rightarrow> hstate res" where
  "download_loop [] rest fsize s = into_buf (\<lambda>b. mem_write b 0 (take BUFSIZ rest)) s"
| "download_loop (e # es) rest fsize s =
     (if \<not> dl_fs_ok e then Inr s
      else
        let chunk = take BUFSIZ rest
        in bindE (into_buf (\<lambda>b. mem_write b 0 chunk) s) (\<lambda>s1.
             if dl_poll e < 0 \<or> \<not> dl_pollout e then Inr s1
             else if dl_poll e = 0 then Inr s1
             else if \<not> dl_write_ok e then Inr s1
             else
               let s2 = s1\<lparr>h_out := h_out s1 @ [chunk]\<rparr>; fsize' = fsize - int (length chunk)
               in if fsize' \<le> 0 then Inr s2
                  else if chunk \<noteq> [] then download_loop es (drop BUFSIZ rest) fsize' s2
                  else Inr s2))"

text \<open>
  The name in the reply is the stored path without the directory, found by skipping ten
  characters of it.
\<close>

definition send_stored_file :: "env \<Rightarrow> msg_schema \<Rightarrow> hstate \<Rightarrow> hstate res" where
  "send_stored_file E m s =
     bindE (deref (mg_content m)) (\<lambda>path.
     bindE (cstr (path @ [0]) (length STORAGE)) (\<lambda>name.
     bindE (into_buf (make_response_msg_download_file 200 (mg_content_length m) name) s) (\<lambda>s1.
       case write_client s1 of (n, s2) \<Rightarrow>
         if n \<noteq> int BUFSIZ then Inr ((close_sock s2)\<lparr>h_close_conn := True\<rparr>)
         else
           case h_files s2 path of
             None \<Rightarrow> Inr s2
           | Some content \<Rightarrow>
               if \<not> e_fstat_ok E then Inr s2
               else download_loop (h_downloads s2) content (int (length content)) s2)))"

definition handle_msg_download_file :: "env \<Rightarrow> request_header \<Rightarrow> request_msg \<Rightarrow> hstate \<Rightarrow> hstate res" where
  "handle_msg_download_file E header rm s =
     with_msg E header (rm_msg_id rm) 6 (\<lambda>m s1.
       if mg_content_type m \<noteq> 1 then response_err 400 4 6 s1
       else send_stored_file E m s1) s"

section \<open>Dispatch\<close>

datatype recv_ev = Recv_error | Recv_data bytes

text \<open>
  The loop that fills the buffer. Every call of \<^verbatim>\<open>recv\<close> may deliver \<^verbatim>\<open>BUFSIZ\<close> bytes, wherever in
  the buffer it starts. \<open>None\<close> in the result is a return of the function.
\<close>

fun recv_loop :: "recv_ev list \<Rightarrow> nat \<Rightarrow> bytes \<Rightarrow> (nat option \<times> bytes) res" where
  "recv_loop [] n buf = Inr (if n > 0 then Some n else None, buf)"
| "recv_loop (Recv_error # evs) n buf = Inr (if n > 0 then Some n else None, buf)"
| "recv_loop (Recv_data bs # evs) n buf =
     (let chunk = take BUFSIZ bs
      in if chunk = [] then Inr (None, buf)
         else
           bindE (mem_write buf n chunk) (\<lambda>b.
             if n + length chunk < BUFSIZ then recv_loop evs (n + length chunk) b
             else Inr (Some (n + length chunk), b)))"

text \<open>A reply outside the handlers: only a negative result of \<^verbatim>\<open>write\<close> closes the socket.\<close>

definition reply_plain :: "(bytes \<Rightarrow> bytes res) \<Rightarrow> hstate \<Rightarrow> hstate res" where
  "reply_plain f s =
     bindE (into_buf f s) (\<lambda>s1.
       case write_client s1 of (n, s2) \<Rightarrow> Inr (if n < 0 then close_sock s2 else s2))"

definition handle_logout :: "hstate \<Rightarrow> hstate res" where
  "handle_logout s =
     bindE (into_buf (make_response_user_logout 200) s) (\<lambda>s1.
       case write_client s1 of (n, s2) \<Rightarrow> Inr ((close_fd s2)\<lparr>h_close_conn := True\<rparr>))"

definition dispatch_user :: "env \<Rightarrow> request_header \<Rightarrow> request_user \<Rightarrow> hstate \<Rightarrow> hstate res" where
  "dispatch_user E header ru s =
     (if rq_action header = 0 then handle_logout s
      else if rq_action header = 1 then handle_user_get_info E ru s
      else if rq_action header = 2 then handle_user_search E header ru s
      else Inr s)"

definition dispatch_conv :: "env \<Rightarrow> request_header \<Rightarrow> request_conv \<Rightarrow> hstate \<Rightarrow> hstate res" where
  "dispatch_conv E header rconv s =
     (if rq_action header = 0 then handle_conv_create E header rconv s
      else if rq_action header = 1 then handle_conv_drop E header rconv s
      else if rq_action header = 2 then handle_conv_join E header rconv s
      else if rq_action header = 3 then handle_conv_quit E header rconv s
      else if rq_action header = 4 then handle_conv_get_info E rconv s
      else if rq_action header = 5 then handle_conv_get_members E header rconv s
      else if rq_action header = 6 then handle_conv_get_list E header s
      else Inr s)"

definition dispatch_chat :: "env \<Rightarrow> request_header \<Rightarrow> request_chat \<Rightarrow> hstate \<Rightarrow> hstate res" where
  "dispatch_chat E header rchat s =
     (if rq_action header = 0 then handle_chat_create E header rchat s
      else if rq_action header = 1 then handle_chat_drop E header rchat s
      else if rq_action header = 2 then handle_chat_get_list E header s
      else if rq_action header = 3 then handle_chat_get_info E header rchat s
      else Inr s)"

definition dispatch_msg :: "env \<Rightarrow> request_header \<Rightarrow> request_msg \<Rightarrow> hstate \<Rightarrow> hstate res" where
  "dispatch_msg E header rm s =
     (if rq_action header = 0 then handle_msg_get_all E header rm s
      else if rq_action header = 1 then handle_msg_get_detail E header rm s
      else if rq_action header = 2 then handle_msg_send E header rm s
      else if rq_action header = 3 then handle_msg_delete E header rm s
      else if rq_action header = 4 then handle_notify_new_msg E header s
      else if rq_action header = 5 then handle_notify_del_msg E header rm s
      else if rq_action header = 6 then handle_msg_download_file E header rm s
      else Inr s)"

text \<open>The member of the union is the one of the group, as \<^verbatim>\<open>request_parse\<close> has set it.\<close>

definition dispatch_body :: "env \<Rightarrow> request_header \<Rightarrow> request_body \<Rightarrow> hstate \<Rightarrow> hstate res" where
  "dispatch_body E header body s =
     (case body of
        R_auth ra \<Rightarrow>
          if rq_action header = 0 then handle_auth_register E ra s
          else if rq_action header = 1 then handle_auth_login E ra s
          else Inr s
      | R_user ru \<Rightarrow> dispatch_user E header ru s
      | R_conv rconv \<Rightarrow> dispatch_conv E header rconv s
      | R_chat rchat \<Rightarrow> dispatch_chat E header rchat s
      | R_msg rm \<Rightarrow> dispatch_msg E header rm s)"

definition handle_request :: "env \<Rightarrow> request option \<Rightarrow> hstate \<Rightarrow> hstate res" where
  "handle_request E req s =
     (case req of
        None \<Rightarrow> reply_plain (make_err_response 400 0xFF 0xFF) s
      | Some r \<Rightarrow>
          let header = rq_header r
          in if rq_group header = 0 then dispatch_body E header (rq_body r) s
             else if verify_token (e_decrypt E) (e_now E) (e_addr E) (rq_user_id header)
                       (rq_token header) \<le> 0
             then reply_plain (make_err_response 403 (rq_group header) (rq_action header)) s
             else dispatch_body E header (rq_body r) s)"

definition rearm :: "env \<Rightarrow> hstate \<Rightarrow> hstate" where
  "rearm E s =
     (if h_close_conn s then s
      else if e_epoll_ok E then s\<lparr>h_rearmed := True\<rparr>
      else close_sock s)"

definition handle_req :: "env \<Rightarrow> recv_ev list \<Rightarrow> hstate \<Rightarrow> hstate res" where
  "handle_req E evs s =
     bindE (recv_loop evs 0 (h_buf s)) (\<lambda>(n, b).
       let s0 = s\<lparr>h_buf := b\<rparr>
       in case n of
            None \<Rightarrow> Inr (close_sock s0)
          | Some _ \<Rightarrow>
              bindE (request_parse b) (\<lambda>req.
              bindE (handle_request E req s0) (\<lambda>s1. Inr (rearm E s1))))"

end
