(* ===== verification/Sql_Props.thy ===== *)
theory Sql_Props
  imports Sql_Facts
begin

text \<open>
  The contracts of the data access layer: what a caller finds after a function has succeeded,
  what is left after one has failed, and which failures stop the server for good.
\<close>

section \<open>Users\<close>

definition new_user :: "bytes \<Rightarrow> bytes \<Rightarrow> bytes \<Rightarrow> bytes \<Rightarrow> user_schema" where
  "new_user u p ph e =
     \<lparr>us_id = 0, us_uname = Some u, us_password = Some p, us_phone = Some ph, us_email = Some e\<rparr>"

lemma known_ins_user:
  assumes "plain u" "plain p" "plain ph" "plain e"
    and "length u + length p + length ph + length e \<le> 430"
  shows "snprintf_query QUERY_SMALL (Ins_user u p ph e) = Known (Ins_user u p ph e)"
  using assms by (simp add: snprintf_query_def QUERY_SMALL_def)

lemma known_sel_uname:
  assumes "plain u" and "length u \<le> 430"
  shows "snprintf_query QUERY_SMALL (Sel_user_by_uname u) = Known (Sel_user_by_uname u)"
  using assms by (simp add: snprintf_query_def QUERY_SMALL_def)

text \<open>
  Registering a user: a name that is taken is refused with a constraint error and leaves the
  connection as it was; a new one gets the next identifier, and looking the name up returns the
  new identifier with the stored password.
\<close>

theorem user_create_then_lookup:
  assumes "quiet c" and "\<not> cn_mutex c" and "plain u" "plain p" "plain ph" "plain e"
    and "length u + length p + length ph + length e \<le> 430"
  shows "if u \<in> u_uname ` set (db_users (cn_db c))
    then user_create Q (new_user u p ph e) c = Inr (0, SQLITE_CONSTRAINT, c)
    else \<exists>c'. let i = of_nat (new_id (map u_id (db_users (cn_db c)))) in
      user_create Q (new_user u p ph e) c = Inr (i, SQLITE_OK, c') \<and>
      user_get_by_uname Q (Some u) c' =
        Inr (Some \<lparr>us_id = i, us_uname = Some u, us_password = Some p, us_phone = None,
             us_email = None\<rparr>, SQLITE_OK, c')"
proof -
  have ins: "snprintf_query QUERY_SMALL (Ins_user u p ph e) = Known (Ins_user u p ph e)"
    using assms by (intro known_ins_user)
  have sel: "snprintf_query QUERY_SMALL (Sel_user_by_uname u) = Known (Sel_user_by_uname u)"
    using assms by (intro known_sel_uname) simp_all
  have none: "filter (\<lambda>x. u_uname x = u) (db_users (cn_db c)) = []"
    if "u \<notin> u_uname ` set (db_users (cn_db c))"
    using that by (auto simp: filter_empty_conv)
  show ?thesis
    using assms(1,2) ins sel none
    by (auto simp: user_create_def user_get_by_uname_def new_user_def cstring_arg_def sql_simps
        insert_user_def string_of_def Let_def)
qed

theorem user_create_then_lookup_witness:
  "\<exists>c'. user_create example_engine (new_user [97] [98] [] []) (start_conn empty_db) =
      Inr (1, SQLITE_OK, c') \<and>
    user_get_by_uname example_engine (Some [97]) c' =
      Inr (Some \<lparr>us_id = 1, us_uname = Some [97], us_password = Some [98], us_phone = None,
           us_email = None\<rparr>, SQLITE_OK, c')"
  using user_create_then_lookup [of "start_conn empty_db" "[97]" "[98]" "[]" "[]" example_engine]
  by (simp add: plain_def QUOTE_def empty_db_def new_id_def)

section \<open>Conversations\<close>

lemma known_ins_conv:
  assumes "plain g" and "length g \<le> 430"
  shows "snprintf_query QUERY_SMALL (Ins_conv (unat (a :: u32)) g) = Known (Ins_conv (unat a) g)"
  using assms length_dec_u32 [of a] by (simp add: snprintf_query_def QUERY_SMALL_def)

lemma exec_fk_begin [sql_simps]:
  "quiet c \<Longrightarrow> cn_tx c = None \<Longrightarrow>
   exec Q [Known Fk_on, Known Begin] c = (SQLITE_OK, c\<lparr>cn_fk := True, cn_tx := Some (cn_db c)\<rparr>)"
  by (simp add: step_quiet run_stmt_def)

text \<open>
  Creating a conversation for a user that exists succeeds, outside a transaction: exactly one
  conversation and one membership are added, the creator is its administrator and its first
  member, and the transaction is closed and the mutex free afterwards.
\<close>

theorem conv_create_succeeds:
  assumes "quiet c" "\<not> cn_mutex c" "cn_tx c = None" "refs_conv (cn_db c)"
    and "user_exists (cn_db c) (unat a)" and "plain g" "length g \<le> 430"
  shows "\<exists>c'. let i = new_id (map cv_id (db_convs (cn_db c))) in
    conv_create Q a (Some g) c = Inr (of_nat i, SQLITE_OK, c') \<and>
    db_convs (cn_db c') = db_convs (cn_db c) @ [\<lparr>cv_id = i, cv_admin = unat a, cv_name = g\<rparr>] \<and>
    is_conv_admin (cn_db c') i (unat a) \<and> is_conv_member (cn_db c') i (unat a) \<and>
    length (db_members (cn_db c')) = length (db_members (cn_db c)) + 1 \<and>
    db_users (cn_db c') = db_users (cn_db c) \<and> db_msgs (cn_db c') = db_msgs (cn_db c) \<and>
    cn_tx c' = None \<and> \<not> cn_mutex c'"
proof -
  let ?i = "new_id (map cv_id (db_convs (cn_db c)))"
  let ?d = "(cn_db c)\<lparr>db_convs := db_convs (cn_db c) @ [\<lparr>cv_id = ?i, cv_admin = unat a, cv_name = g\<rparr>]\<rparr>"
  have "mb_conv m \<noteq> ?i" if "m \<in> set (db_members (cn_db c))" for m
    using assms(4) that by (auto simp: refs_conv_def conv_exists_def dest!: bspec)
  then have fresh: "\<not> is_conv_member ?d ?i (unat a)"
    by (simp add: is_conv_member_def)
  have ex: "conv_exists ?d ?i" "user_exists ?d (unat a)"
    using assms(5) by (auto simp: conv_exists_def user_exists_def)
  show ?thesis
    using assms fresh ex known_ins_conv [OF assms(6,7), of a]
    by (simp add: conv_create_def sql_simps cstring_arg_def lock_def unlock_def run_dml
        insert_conv_def insert_member_def Let_def run_stmt_def del: exec.simps)
      (simp add: is_conv_admin_def is_conv_member_def)
qed

definition two_users :: db where
  "two_users = empty_db\<lparr>db_users :=
     [\<lparr>u_id = 1, u_uname = [97], u_password = [], u_phone = [], u_email = []\<rparr>,
      \<lparr>u_id = 2, u_uname = [98], u_password = [], u_phone = [], u_email = []\<rparr>]\<rparr>"

theorem conv_create_succeeds_witness:
  "\<exists>c'. conv_create example_engine 2 (Some [103]) (start_conn two_users) = Inr (1, SQLITE_OK, c') \<and>
    is_conv_admin (cn_db c') 1 2 \<and> is_conv_member (cn_db c') 1 2 \<and> cn_tx c' = None \<and> \<not> cn_mutex c'"
  using conv_create_succeeds [of "start_conn two_users" 2 "[103]" example_engine]
  by (auto simp: two_users_def empty_db_def refs_conv_def user_exists_def plain_def QUOTE_def
      new_id_def)

text \<open>
  Creating a conversation for a user that does not exist leaves the tables as they were, but
  the function returns with the mutex locked, and from then on registering a user, adding a
  member or creating a chat waits for ever.
\<close>

theorem conv_create_failure_deadlocks:
  assumes "quiet c" "\<not> cn_mutex c" "cn_tx c = None" and "\<not> user_exists (cn_db c) (unat a)"
    and "plain g" "length g \<le> 430"
  shows "\<exists>c'. conv_create Q a (Some g) c = Inr (0, SQLITE_CONSTRAINT, c') \<and>
    cn_db c' = cn_db c \<and> cn_tx c' = None \<and> cn_mutex c' \<and>
    conv_join Q u v c' = Inl Deadlock \<and> chat_create Q u v c' = Inl Deadlock \<and>
    conv_create Q u (Some g) c' = Inl Deadlock"
proof -
  let ?c' = "c\<lparr>cn_fk := True, cn_tx := None, cn_mutex := True\<rparr>"
  have "conv_create Q a (Some g) c = Inr (0, SQLITE_CONSTRAINT, ?c')"
    using assms known_ins_conv [OF assms(5,6), of a]
    by (simp add: conv_create_def sql_simps cstring_arg_def lock_def run_dml insert_conv_def
        Let_def run_stmt_def del: exec.simps)
  moreover have "conv_join Q u v ?c' = Inl Deadlock" "chat_create Q u v ?c' = Inl Deadlock"
    "conv_create Q u (Some g) ?c' = Inl Deadlock"
    using assms(1,3)
    by (simp_all add: conv_join_def chat_create_def conv_create_def sql_simps sql_insert_deadlock
        cstring_arg_def lock_def run_stmt_def del: exec.simps)
  ultimately show ?thesis by (intro exI [of _ ?c']) simp
qed

theorem conv_create_failure_deadlocks_witness:
  "\<exists>c'. conv_create example_engine 9 (Some [103]) (start_conn two_users) =
      Inr (0, SQLITE_CONSTRAINT, c') \<and> cn_db c' = two_users \<and>
    conv_create example_engine 1 (Some [103]) c' = Inl Deadlock"
  using conv_create_failure_deadlocks [of "start_conn two_users" 9 "[103]" example_engine 1 1]
  by (auto simp: two_users_def empty_db_def user_exists_def plain_def QUOTE_def)

lemma conv_drop_effect:
  assumes "quiet c" "cn_tx c = None"
  shows "\<exists>c'. conv_drop Q cid c = Inr ((), SQLITE_OK, c') \<and> cn_tx c' = None \<and>
    db_users (cn_db c') = db_users (cn_db c) \<and> db_chats (cn_db c') = db_chats (cn_db c) \<and>
    db_convs (cn_db c') = filter (\<lambda>v. cv_id v \<noteq> unat cid) (db_convs (cn_db c)) \<and>
    db_members (cn_db c') = filter (\<lambda>m. mb_conv m \<noteq> unat cid) (db_members (cn_db c)) \<and>
    set (db_msgs (cn_db c')) \<subseteq> {m \<in> set (db_msgs (cn_db c)). ms_conv m \<noteq> Some (unat cid)} \<and>
    (\<not> cn_fk c \<longrightarrow>
       db_msgs (cn_db c') = filter (\<lambda>m. ms_conv m \<noteq> Some (unat cid)) (db_msgs (cn_db c)))"
proof -
  let ?d1 = "delete_msgs (cn_fk c) (\<lambda>m. ms_conv m = Some (unat cid)) (cn_db c)"
  let ?d2 = "delete_members (\<lambda>m. mb_conv m = unat cid) ?d1"
  let ?d3 = "delete_convs (cn_fk c) (\<lambda>v. cv_id v = unat cid) ?d2"
  have drop: "conv_drop Q cid c = Inr ((), SQLITE_OK, c\<lparr>cn_db := ?d3\<rparr>)"
    using assms
    by (simp add: conv_drop_def sql_simps run_dml run_stmt_def del: exec.simps)
  have members: "db_members ?d3 = filter (\<lambda>m. mb_conv m \<noteq> unat cid) (db_members (cn_db c))"
    by (auto simp: delete_convs_def delete_members_def Let_def intro!: filter_cong)
  have msgs: "set (db_msgs ?d3) \<subseteq> {m \<in> set (db_msgs (cn_db c)). ms_conv m \<noteq> Some (unat cid)}"
    using delete_convs_msgs [of "cn_fk c" "\<lambda>v. cv_id v = unat cid" ?d2]
      delete_msgs_subset [of "cn_fk c" "\<lambda>m. ms_conv m = Some (unat cid)" "cn_db c"]
    by auto
  have off: "db_msgs ?d3 = filter (\<lambda>m. ms_conv m \<noteq> Some (unat cid)) (db_msgs (cn_db c))"
    if "\<not> cn_fk c"
    using that by (simp add: delete_convs_def delete_members_def delete_msgs_def Let_def)
  show ?thesis
    by (intro exI [of _ "c\<lparr>cn_db := ?d3\<rparr>"])
      (use drop members msgs off assms in \<open>simp add: delete_members_def\<close>)
qed

text \<open>
  Dropping a conversation, outside a transaction, always succeeds: the conversation, its
  memberships and its messages are gone, every other conversation, membership, chat and user is
  untouched, and no message is kept that was not there before. With foreign keys off, the
  messages of other conversations are all kept.
\<close>

theorem conv_drop_removes_all:
  assumes "quiet c" "cn_tx c = None"
  shows "\<exists>c'. conv_drop Q cid c = Inr ((), SQLITE_OK, c') \<and> cn_tx c' = None \<and>
    db_users (cn_db c') = db_users (cn_db c) \<and> db_chats (cn_db c') = db_chats (cn_db c) \<and>
    db_convs (cn_db c') = filter (\<lambda>v. cv_id v \<noteq> unat cid) (db_convs (cn_db c)) \<and>
    db_members (cn_db c') = filter (\<lambda>m. mb_conv m \<noteq> unat cid) (db_members (cn_db c)) \<and>
    set (db_msgs (cn_db c')) \<subseteq> {m \<in> set (db_msgs (cn_db c)). ms_conv m \<noteq> Some (unat cid)} \<and>
    (\<not> cn_fk c \<longrightarrow>
       db_msgs (cn_db c') = filter (\<lambda>m. ms_conv m \<noteq> Some (unat cid)) (db_msgs (cn_db c)))"
  using assms by (rule conv_drop_effect)

theorem conv_drop_removes_all_witness:
  "\<exists>c'. conv_drop example_engine 1 (start_conn thread_db) = Inr ((), SQLITE_OK, c') \<and>
    db_convs (cn_db c') = [] \<and> db_members (cn_db c') = [] \<and> db_msgs (cn_db c') = [] \<and>
    db_users (cn_db c') = db_users thread_db"
  using conv_drop_removes_all [of "start_conn thread_db" example_engine 1]
  by (auto simp: thread_db_def)

section \<open>Messages\<close>

lemma known_ins_msg:
  assumes "plain s" and "length s \<le> 7900"
    and "opt_ref (\<lambda>n. n < 4294967296) r" "opt_ref (\<lambda>n. n < 4294967296) h"
    "opt_ref (\<lambda>n. n < 4294967296) k"
    and "u < 4294967296" "ct < 4294967296" "cl < 4294967296" "t < 4294967296"
  shows "snprintf_query QUERY_LARGE (Ins_msg u r ct cl s t h k) = Known (Ins_msg u r ct cl s t h k)"
proof -
  have num: "length (dec n) \<le> 10" if "n < 4294967296" for n
    using that by (intro length_dec) simp_all
  have zero: "length (dec 0) \<le> 10"
    by (rule num) simp
  show ?thesis
    using num [OF assms(6)] num [OF assms(7)] num [OF assms(8)] num [OF assms(9)] zero
      length_dec_opt [OF assms(3)] length_dec_opt [OF assms(4)] length_dec_opt [OF assms(5)] assms(1,2)
    by (simp add: snprintf_query_def QUERY_LARGE_def BUFSIZ_def)
qed

lemma null_if_zero_bound: "opt_ref (\<lambda>n. n < 4294967296) (null_if_zero w)"
  using unat_u32_bound [of w] by (simp add: null_if_zero_def opt_ref_def)

lemma column_null_if_zero [simp]: "column_int (opt_int (null_if_zero w)) = w"
  by (simp add: null_if_zero_def opt_int_def)

definition msg_refs_ok :: "db \<Rightarrow> msg_schema \<Rightarrow> bool" where
  "msg_refs_ok d msg \<longleftrightarrow>
     user_exists d (unat (mg_from_uid msg)) \<and>
     opt_ref (msg_exists d) (null_if_zero (mg_reply_to msg)) \<and>
     opt_ref (chat_exists d) (null_if_zero (mg_chat_id msg)) \<and>
     opt_ref (conv_exists d) (null_if_zero (mg_conv_id msg))"

definition row_of :: "nat \<Rightarrow> bytes \<Rightarrow> u32 \<Rightarrow> msg_schema \<Rightarrow> msg_row" where
  "row_of i s now msg = \<lparr>ms_id = i, ms_from = unat (mg_from_uid msg),
     ms_reply = null_if_zero (mg_reply_to msg), ms_ctype = unat (mg_content_type msg),
     ms_clen = unat (mg_content_length msg), ms_content = s, ms_created = unat now,
     ms_chat = null_if_zero (mg_chat_id msg), ms_conv = null_if_zero (mg_conv_id msg), ms_type = 0\<rparr>"

lemma msg_of_row_of:
  "mg_content msg = Some s \<Longrightarrow>
   msg_of i (row_of j s now msg) = msg\<lparr>mg_id := i, mg_created_at := now, mg_type := 0\<rparr>"
  by (simp add: msg_of_def row_of_def)

lemma msg_send_quiet:
  assumes "quiet c" "\<not> cn_mutex c" "cn_tx c = None" and "msg_refs_ok (cn_db c) msg"
    and "mg_content msg = Some s" "plain s" "length s \<le> 7900"
  shows "msg_send Q now msg c =
    (let i = new_id (map ms_id (db_msgs (cn_db c))) in
     Inr (of_nat i, SQLITE_OK, c\<lparr>cn_db := (cn_db c)\<lparr>db_msgs := db_msgs (cn_db c) @ [row_of i s now msg]\<rparr>,
       cn_fk := True, cn_last := i, cn_mutex := False\<rparr>))"
proof -
  let ?i = "new_id (map ms_id (db_msgs (cn_db c)))"
  let ?st = "Ins_msg (unat (mg_from_uid msg)) (null_if_zero (mg_reply_to msg))
    (unat (mg_content_type msg)) (unat (mg_content_length msg)) s (unat now)
    (null_if_zero (mg_chat_id msg)) (null_if_zero (mg_conv_id msg))"
  let ?d = "(cn_db c)\<lparr>db_msgs := db_msgs (cn_db c) @ [row_of ?i s now msg]\<rparr>"
  have q: "snprintf_query QUERY_LARGE ?st = Known ?st"
    by (intro known_ins_msg assms null_if_zero_bound unat_u32_bound)
  have "opt_ref (msg_exists ?d) (null_if_zero (mg_reply_to msg))"
    using assms(4) by (auto simp: msg_refs_ok_def msg_exists_def elim!: opt_ref_mono)
  then have run: "insert_msg True (unat (mg_from_uid msg)) (null_if_zero (mg_reply_to msg))
      (unat (mg_content_type msg)) (unat (mg_content_length msg)) s (unat now)
      (null_if_zero (mg_chat_id msg)) (null_if_zero (mg_conv_id msg)) (cn_db c) = Inr (?d, ?i)"
    using assms(4) by (simp add: insert_msg_def Let_def msg_refs_ok_def row_of_def)
  show ?thesis
    using assms(1-3,5) q run
    by (simp add: msg_send_def sql_simps cstring_arg_def lock_def unlock_def run_dml Let_def del: exec.simps)
qed

text \<open>
  C18: A message that is sent can be read back: sending a text without quotes to places that exist
  succeeds with the next identifier and frees the mutex, and reading that identifier returns
  the sender, the conversation, the chat, the message replied to, the type, the length, the text
  and the time of the message, marked as sent.
\<close>

theorem msg_send_then_read:
  assumes "quiet c" "\<not> cn_mutex c" "cn_tx c = None" and "msg_refs_ok (cn_db c) msg"
    and "mg_content msg = Some s" "plain s" "length s \<le> 7900"
    and "new_id (map ms_id (db_msgs (cn_db c))) < 4294967296"
  shows "\<exists>c'. let i = of_nat (new_id (map ms_id (db_msgs (cn_db c)))) in
    msg_send Q now msg c = Inr (i, SQLITE_OK, c') \<and> \<not> cn_mutex c' \<and>
    msg_get_detail Q i c' =
      Inr (Some (msg\<lparr>mg_id := i, mg_created_at := now, mg_type := 0\<rparr>), SQLITE_OK, c')"
proof -
  let ?i = "new_id (map ms_id (db_msgs (cn_db c)))"
  let ?c = "c\<lparr>cn_db := (cn_db c)\<lparr>db_msgs := db_msgs (cn_db c) @ [row_of ?i s now msg]\<rparr>,
    cn_fk := True, cn_last := ?i, cn_mutex := False\<rparr>"
  have "msg_get_detail Q (of_nat ?i) ?c =
      Inr (Some (msg\<lparr>mg_id := of_nat ?i, mg_created_at := now, mg_type := 0\<rparr>), SQLITE_OK, ?c)"
    using assms(1,5,8)
    by (simp add: msg_get_detail_quiet msg_of_row_of) (simp add: row_of_def)
  then show ?thesis
    using msg_send_quiet [OF assms(1-7)] by (simp add: Let_def)
qed

definition hello :: msg_schema where
  "hello = \<lparr>mg_id = 0, mg_from_uid = 1, mg_reply_to = 2, mg_content_type = 0,
     mg_content_length = 2, mg_content = Some [104, 105], mg_created_at = 0, mg_conv_id = 1,
     mg_chat_id = 0, mg_type = 0\<rparr>"

theorem msg_send_then_read_witness:
  "\<exists>c'. msg_send example_engine 99 hello (start_conn thread_db) = Inr (3, SQLITE_OK, c') \<and>
    \<not> cn_mutex c' \<and>
    msg_get_detail example_engine 3 c' =
      Inr (Some (hello\<lparr>mg_id := 3, mg_created_at := 99, mg_type := 0\<rparr>), SQLITE_OK, c')"
  using msg_send_then_read [of "start_conn thread_db" hello "[104, 105]" example_engine 99]
  by (auto simp: thread_db_def hello_def msg_refs_ok_def exists_defs opt_ref_def null_if_zero_def
      plain_def QUOTE_def new_id_def)

subsection \<open>Messages that are too long\<close>

definition calm :: "byte \<Rightarrow> bool" where
  "calm b \<longleftrightarrow> b \<notin> {34, 39, 45, 47, 59, 91, 96}"

lemma calm_digit: "n < 10 \<Longrightarrow> calm (48 + of_nat n)"
proof -
  have "\<forall>k\<in>set [0..<10]. calm (48 + of_nat k)"
    by (simp add: upt_rec calm_def)
  then show "n < 10 \<Longrightarrow> ?thesis" by simp
qed

lemma calm_dec: "list_all calm (dec n)"
proof (induction n rule: dec.induct)
  case (1 n)
  then show ?case by (subst dec.simps) (simp add: calm_digit)
qed

lemma calm_dec_opt: "list_all calm (dec_opt x)"
  by (cases x) (simp_all add: dec_opt_def calm_dec, simp add: calm_def)

lemma dec_nonempty: "1 \<le> length (dec n)"
  by (subst dec.simps) simp

lemma dec_opt_nonempty: "1 \<le> length (dec_opt x)"
  using dec_nonempty by (cases x) (simp_all add: dec_opt_def)

lemma unterminated_cut:
  assumes "list_all calm p" and "plain s" and "length p + 1 \<le> n" "n \<le> length p + 1 + length s"
  shows "unterminated (take n (p @ [QUOTE] @ s @ x))"
proof -
  have p: "\<forall>b\<in>set p. b \<noteq> QUOTE"
    using assms(1) by (auto simp: list_all_iff calm_def QUOTE_def)
  obtain k where k: "n - length p = Suc k"
    using assms(3) by (cases "n - length p") auto
  have "take n (p @ [QUOTE] @ s @ x) = p @ [QUOTE] @ take k s"
    using assms(4) k by simp
  moreover have "takeWhile (\<lambda>b. b \<noteq> QUOTE) (p @ [QUOTE] @ take k s) = p"
    using p by (simp add: takeWhile_append_stop)
  moreover have "QUOTE \<notin> set (take k s)"
    using assms(2) by (auto simp: plain_def dest: in_set_takeD)
  moreover have "list_all (\<lambda>b. b \<notin> {34, 45, 47, 59, 91, 96}) p"
    using assms(1) by (auto simp: list_all_iff calm_def)
  ultimately show ?thesis by (simp add: unterminated_def)
qed

definition ins_msg_prefix :: "nat \<Rightarrow> nat option \<Rightarrow> nat \<Rightarrow> nat \<Rightarrow> bytes" where
  "ins_msg_prefix u r ct cl =
     lit ''INSERT INTO messages(from_uid, reply_to, content_type, content_length, content, '' @
     lit ''created_at, chat_id, conv_id, type) VALUES ('' @ dec u @ lit '', '' @ dec_opt r @ lit '', '' @
     dec ct @ lit '', '' @ dec cl @ lit '', ''"

lemma ins_msg_text:
  "\<exists>x. stmt_text (Ins_msg u r ct cl s t h k) = ins_msg_prefix u r ct cl @ [QUOTE] @ s @ x"
  by (simp add: ins_msg_prefix_def quoted_def)

lemma calm_ins_msg_prefix: "list_all calm (ins_msg_prefix u r ct cl)"
  by (simp add: ins_msg_prefix_def calm_dec calm_dec_opt) (simp add: lit_def calm_def)

lemma length_ins_msg_prefix:
  assumes "u < 4294967296" "ct < 4294967296" "cl < 4294967296" "opt_ref (\<lambda>n. n < 4294967296) r"
  shows "131 \<le> length (ins_msg_prefix u r ct cl)" "length (ins_msg_prefix u r ct cl) \<le> 200"
proof -
  have num: "length (dec n) \<le> 10" if "n < 4294967296" for n
    using that by (intro length_dec) simp_all
  show "131 \<le> length (ins_msg_prefix u r ct cl)"
    using dec_nonempty [of u] dec_nonempty [of ct] dec_nonempty [of cl] dec_opt_nonempty [of r]
    by (simp add: ins_msg_prefix_def)
  show "length (ins_msg_prefix u r ct cl) \<le> 200"
    using num [OF assms(1)] num [OF assms(2)] num [OF assms(3)] length_dec_opt [OF assms(4)]
    by (simp add: ins_msg_prefix_def)
qed

text \<open>
  A text of 8060 characters or more, which still fits into a request, does not fit into the
  statement: the engine rejects the cut-off statement, and \<^verbatim>\<open>msg_send\<close> returns with the mutex
  locked, so no message can be sent again and no conversation, chat or user be created.
\<close>

theorem msg_send_long_text_deadlocks:
  assumes "engine_ok Q" "quiet c" "\<not> cn_mutex c"
    and "mg_content msg = Some s" "plain s" "8060 \<le> length s"
  shows "\<exists>c'. msg_send Q now msg c = Inr (0, SQLITE_ERROR, c') \<and> cn_db c' = cn_db c \<and>
    msg_send Q now' (msg'\<lparr>mg_content := Some s'\<rparr>) c' = Inl Deadlock \<and>
    chat_create Q u v c' = Inl Deadlock"
proof -
  let ?u = "unat (mg_from_uid msg)" and ?r = "null_if_zero (mg_reply_to msg)"
  let ?ct = "unat (mg_content_type msg)" and ?cl = "unat (mg_content_length msg)"
  let ?st = "Ins_msg ?u ?r ?ct ?cl s (unat now) (null_if_zero (mg_chat_id msg))
    (null_if_zero (mg_conv_id msg))"
  let ?p = "ins_msg_prefix ?u ?r ?ct ?cl"
  obtain x where split: "stmt_text ?st = ?p @ [QUOTE] @ s @ x"
    using ins_msg_text by blast
  have len: "131 \<le> length ?p" "length ?p \<le> 200"
    by (intro length_ins_msg_prefix unat_u32_bound null_if_zero_bound)+
  define cut where "cut = take 8191 (stmt_text ?st)"
  have raw: "snprintf_query QUERY_LARGE ?st = Raw cut"
    unfolding cut_def
    using len assms(6) split by (simp add: snprintf_query_def QUERY_LARGE_def BUFSIZ_def)
  have "unterminated cut"
    unfolding cut_def split using len assms(5,6) calm_ins_msg_prefix
    by (intro unterminated_cut) simp_all
  then have err: "sq_raw Q cut d = (SQLITE_ERROR, [], d)" for d
    using assms(1) by (simp add: engine_ok_def)
  let ?c = "(if cn_tx c = None then c\<lparr>cn_fk := True\<rparr> else c)\<lparr>cn_mutex := True\<rparr>"
  have "exec Q [Raw cut] ?c = (SQLITE_ERROR, ?c)"
    using assms(2) by (simp add: step_raw_quiet err)
  then have "msg_send Q now msg c = Inr (0, SQLITE_ERROR, ?c)"
    using assms(2-4) raw
    by (simp add: msg_send_def sql_simps cstring_arg_def lock_def del: exec.simps stmt_text.simps)
  moreover have "msg_send Q now' (msg'\<lparr>mg_content := Some s'\<rparr>) ?c = Inl Deadlock"
    "chat_create Q u v ?c = Inl Deadlock"
    using assms(2)
    by (simp_all add: msg_send_def chat_create_def sql_simps cstring_arg_def lock_def
        sql_insert_deadlock del: exec.simps)
  ultimately show ?thesis by (intro exI [of _ ?c]) simp
qed

theorem msg_send_long_text_deadlocks_witness:
  "\<exists>c'. msg_send example_engine 5 (hello\<lparr>mg_content := Some (replicate 8060 97)\<rparr>) (start_conn thread_db) =
      Inr (0, SQLITE_ERROR, c') \<and> cn_db c' = thread_db \<and>
    msg_send example_engine 6 (hello\<lparr>mg_content := Some [104]\<rparr>) c' = Inl Deadlock"
  using msg_send_long_text_deadlocks [OF example_engine_ok, where c = "start_conn thread_db" and
      msg = "hello\<lparr>mg_content := Some (replicate 8060 97)\<rparr>" and s = "replicate 8060 97" and
      now = 5 and now' = 6 and msg' = hello and s' = "[104]" and u = 1 and v = 2]
  by (auto simp: plain_def QUOTE_def)

section \<open>Lists\<close>



section \<open>Errors that get lost\<close>

text \<open>
  Errors of the engine get lost in the functions that return lists: when the statement was
  prepared and the engine then fails in the middle, \<^verbatim>\<open>conv_get_members\<close> returns the members it
  had read so far and reports success.
\<close>

theorem list_errors_are_masked:
  assumes "cn_script c = e1 # e2 # es" and "sql_is_ok (ev_rc e1)" "sql_is_err (ev_rc e2)"
  shows "\<exists>c'. conv_get_members Q cid c =
    Inr (rev (map (\<lambda>row. column_int (row ! 0))
           (take (ev_after e2) (select Q (cn_db c) (Sel_members (unat cid))))), SQLITE_OK, c')"
  using assms
  by (simp add: conv_get_members_def numeric_queries sql_get_list_def prepare_def step_def next_ev_def
      sql_is_err_def run_query_def run_select foldl_rev)

theorem list_errors_are_masked_witness:
  "\<exists>c'. conv_get_members example_engine 1 ((start_conn thread_db)\<lparr>cn_script :=
      [\<lparr>ev_rc = 0, ev_after = 0, ev_rollback = False\<rparr>, \<lparr>ev_rc = 10, ev_after = 0, ev_rollback = False\<rparr>]\<rparr>) =
    Inr ([], SQLITE_OK, c')"
  using list_errors_are_masked [of "(start_conn thread_db)\<lparr>cn_script :=
      [\<lparr>ev_rc = 0, ev_after = 0, ev_rollback = False\<rparr>, \<lparr>ev_rc = 10, ev_after = 0, ev_rollback = False\<rparr>]\<rparr>"
      "\<lparr>ev_rc = 0, ev_after = 0, ev_rollback = False\<rparr>" "\<lparr>ev_rc = 10, ev_after = 0, ev_rollback = False\<rparr>"
      "[]" example_engine 1]
  by (simp add: sql_is_err_def sql_is_ok_def rc_defs)

end
