(* ===== verification/Handler_Facts.thy ===== *)
theory Handler_Facts
  imports Handler Sql_Props
begin

text \<open>
  A small calculus for the handlers: \<open>post P m\<close> says that \<open>P\<close> holds of the state in which
  \<open>m\<close> ends, if it ends without a fault. Its rules follow the statements of the handlers, so
  that a property of every handler is one application of the rules each.
\<close>

named_theorems post_rules \<open>rules for the statements of the handlers\<close>

definition post :: "(hstate \<Rightarrow> bool) \<Rightarrow> hstate res \<Rightarrow> bool" where
  "post P m \<longleftrightarrow> (\<forall>s'. m = Inr s' \<longrightarrow> P s')"

lemma postD: "post P m \<Longrightarrow> m = Inr s' \<Longrightarrow> P s'"
  by (simp add: post_def)

lemma post_Inr [post_rules]: "P s \<Longrightarrow> post P (Inr s)"
  by (simp add: post_def)

lemma post_Inl [post_rules]: "post P (Inl f)"
  by (simp add: post_def)

lemma post_if [post_rules]:
  "(b \<Longrightarrow> post P x) \<Longrightarrow> (\<not> b \<Longrightarrow> post P y) \<Longrightarrow> post P (if b then x else y)"
  by simp

lemma post_option [post_rules]:
  "(x = None \<Longrightarrow> post P m) \<Longrightarrow> (\<And>y. x = Some y \<Longrightarrow> post P (k y)) \<Longrightarrow>
   post P (case x of None \<Rightarrow> m | Some y \<Rightarrow> k y)"
  by (cases x) simp_all

lemma post_sql [post_rules]:
  "(\<And>v rc c. f (h_conn s) = Inr (v, rc, c) \<Longrightarrow> post P (k v rc (s\<lparr>h_conn := c\<rparr>))) \<Longrightarrow>
   post P (bindE (sql f s) (\<lambda>(v, rc, s'). k v rc s'))"
  by (cases "f (h_conn s)") (auto simp: sql_def post_def)

lemma post_deref [post_rules]:
  "(\<And>x. p = Some x \<Longrightarrow> post P (k x)) \<Longrightarrow> post P (bindE (deref p) k)"
  by (cases p) (simp_all add: deref_def post_def)

lemma post_into_buf [post_rules]:
  "(\<And>b. f (h_buf s) = Inr b \<Longrightarrow> post P (k (s\<lparr>h_buf := b\<rparr>))) \<Longrightarrow> post P (bindE (into_buf f s) k)"
  by (cases "f (h_buf s)") (simp_all add: into_buf_def post_def)

lemma post_respond [post_rules]:
  "(\<And>b. f (h_buf s) = Inr b \<Longrightarrow> P (send_response (s\<lparr>h_buf := b\<rparr>))) \<Longrightarrow> post P (respond f s)"
  by (cases "f (h_buf s)") (simp_all add: respond_def into_buf_def post_def)

lemma post_respond_bind [post_rules]:
  "(\<And>b. f (h_buf s) = Inr b \<Longrightarrow> post P (k (send_response (s\<lparr>h_buf := b\<rparr>)))) \<Longrightarrow>
   post P (bindE (respond f s) k)"
  by (cases "f (h_buf s)") (simp_all add: respond_def into_buf_def post_def)

lemma post_response_err [post_rules]:
  "(\<And>b. make_err_response st g a (h_buf s) = Inr b \<Longrightarrow> P (send_response (s\<lparr>h_buf := b\<rparr>))) \<Longrightarrow>
   post P (response_err st g a s)"
  unfolding response_err_def by (rule post_respond)

lemma post_write [post_rules]:
  "(\<And>n s'. write_client s = (n, s') \<Longrightarrow> post P (k n s')) \<Longrightarrow>
   post P (case write_client s of (n, s') \<Rightarrow> k n s')"
  by (cases "write_client s") simp

lemma post_bind: "(\<And>x. m = Inr x \<Longrightarrow> post P (k x)) \<Longrightarrow> post P (bindE m k)"
  by (cases m) (simp_all add: post_def)

lemma post_bind_pair:
  "(\<And>x y. m = Inr (x, y) \<Longrightarrow> post P (k x y)) \<Longrightarrow> post P (bindE m (\<lambda>(x, y). k x y))"
  by (cases m) (auto simp: post_def)

text \<open>What an answer leaves alone.\<close>

lemma write_client_frame:
  assumes "write_client s = (n, s')"
  shows "h_conn s' = h_conn s" "h_files s' = h_files s" "h_buf s' = h_buf s"
    "h_close_conn s' = h_close_conn s"
  using assms by (auto simp: write_client_def split: list.splits)

lemma close_sock_frame [simp]:
  "h_conn (close_sock s) = h_conn s" "h_files (close_sock s) = h_files s"
  "h_buf (close_sock s) = h_buf s" "h_out (close_sock s) = h_out s"
  "h_conn (close_fd s) = h_conn s" "h_files (close_fd s) = h_files s"
  "h_buf (close_fd s) = h_buf s" "h_out (close_fd s) = h_out s"
  by (simp_all add: close_sock_def close_fd_def)

lemma send_response_frame [simp]:
  "h_conn (send_response s) = h_conn s" "h_files (send_response s) = h_files s"
  "h_buf (send_response s) = h_buf s"
  by (cases "write_client s"; simp add: send_response_def write_client_frame)+

lemma file_frame [simp]:
  "h_conn (remove_file p s) = h_conn s" "h_conn (file_error p s) = h_conn s"
  "h_conn (append_file p bs s) = h_conn s"
  by (simp_all add: remove_file_def file_error_def append_file_def)

lemma rearm_frame [simp]: "h_conn (rearm E s) = h_conn s" "h_out (rearm E s) = h_out s"
  "h_files (rearm E s) = h_files s"
  by (simp_all add: rearm_def)

lemma response_err_conn: "response_err st g a s = Inr s' \<Longrightarrow> h_conn s' = h_conn s \<and> h_files s' = h_files s"
  by (auto simp: response_err_def respond_def into_buf_def bindE_eq_Inr_iff)

lemma upload_loop_conn: "upload_loop p es n s = Inr (b, s') \<Longrightarrow> h_conn s' = h_conn s"
proof (induction p es n s rule: upload_loop.induct)
  case (1 path fsize s)
  then show ?case by (auto simp: bindE_eq_Inr_iff dest: response_err_conn)
next
  case (2 path e es fsize s)
  then show ?case
    by (auto simp: bindE_eq_Inr_iff into_buf_def Let_def split: if_splits read_result.splits
        dest!: response_err_conn) 
qed

lemma download_loop_conn: "download_loop es rest n s = Inr s' \<Longrightarrow> h_conn s' = h_conn s"
proof (induction es rest n s rule: download_loop.induct)
  case (1 rest fsize s)
  then show ?case by (auto simp: bindE_eq_Inr_iff into_buf_def)
next
  case (2 e es rest fsize s)
  then show ?case
    by (auto simp: bindE_eq_Inr_iff into_buf_def Let_def split: if_splits)
qed

section \<open>Requests whose strings the statements can carry\<close>

lemma is_hex_not_quote: "is_hex b \<Longrightarrow> b \<noteq> QUOTE"
  by (auto simp: is_hex_def QUOTE_def)

lemma plain_hash: "hash_str md5 p = Some h \<Longrightarrow> plain h"
  using hash_str_hex [of md5 p h] is_hex_not_quote by (auto simp: plain_def list_all_iff)

definition tame_body :: "request_body \<Rightarrow> bool" where
  "tame_body body =
     (case body of
        R_auth ra \<Rightarrow>
          (\<forall>u. ra_uname ra = Some u \<longrightarrow> plain u \<and> length u \<le> 100) \<and>
          (\<forall>p. ra_phone ra = Some p \<longrightarrow> plain p \<and> length p \<le> 100) \<and>
          (\<forall>e. ra_email ra = Some e \<longrightarrow> plain e \<and> length e \<le> 100)
      | R_user ru \<Rightarrow> (\<forall>u. ru_uname ru = Some u \<longrightarrow> plain u \<and> length u \<le> 400)
      | R_conv rconv \<Rightarrow> (\<forall>g. rc_gname rconv = Some g \<longrightarrow> plain g \<and> length g \<le> 430)
      | R_chat _ \<Rightarrow> True
      | R_msg rm \<Rightarrow> (\<forall>t. rm_msg_content rm = Some t \<longrightarrow> plain t \<and> length t \<le> 7900))"

definition tame :: "request option \<Rightarrow> bool" where
  "tame req = (case req of None \<Rightarrow> True | Some r \<Rightarrow> tame_body (rq_body r))"

end
