(* ===== verification/Handler_Props.thy ===== *)
theory Handler_Props
  imports Handler_Facts
begin

text \<open>
  What the server answers, and to whom: authentication, the rights of members and
  administrators, and the way a request is put together from what the socket delivers. The
  engine is quiet here, that is, every system call of it succeeds, and the client's socket takes
  every block; the faults that remain are those of the code.
\<close>

section \<open>Answers\<close>

definition ready :: "hstate \<Rightarrow> bool" where
  "ready s \<longleftrightarrow> quiet (h_conn s) \<and> length (h_buf s) = BUFSIZ + 1 \<and> h_writes s = []"

text \<open>
  The answer is one more block of \<^verbatim>\<open>BUFSIZ\<close> bytes that begins with these bytes, and nothing else
  has happened to the socket.
\<close>

definition answered :: "bytes \<Rightarrow> hstate \<Rightarrow> hstate \<Rightarrow> bool" where
  "answered wire s s' \<longleftrightarrow>
     (\<exists>rest. h_out s' = h_out s @ [wire @ rest] \<and> length (wire @ rest) = BUFSIZ) \<and>
     h_closes s' = h_closes s \<and> h_close_conn s' = h_close_conn s \<and> h_tracked s' = h_tracked s"

definition replied :: "u32 \<Rightarrow> reply \<Rightarrow> hstate \<Rightarrow> hstate \<Rightarrow> bool" where
  "replied status r s s' \<longleftrightarrow>
     answered (response_header_wire (reply_header status r) @ reply_payload r) s s'"

definition refused :: "u32 \<Rightarrow> byte \<Rightarrow> byte \<Rightarrow> hstate \<Rightarrow> hstate \<Rightarrow> bool" where
  "refused status g a s s' \<longleftrightarrow>
     answered (response_header_wire (mk_resp g a 0 status 0 0 0)) s s' \<and>
     h_conn s' = h_conn s \<and> h_files s' = h_files s"

definition sent :: "bytes \<Rightarrow> hstate \<Rightarrow> hstate" where
  "sent b s = s\<lparr>h_buf := b, h_out := h_out s @ [take BUFSIZ b]\<rparr>"

lemma sent_sel [simp]:
  "h_conn (sent b s) = h_conn s" "h_files (sent b s) = h_files s" "h_buf (sent b s) = b"
  "h_out (sent b s) = h_out s @ [take BUFSIZ b]" "h_writes (sent b s) = h_writes s"
  "h_closes (sent b s) = h_closes s" "h_close_conn (sent b s) = h_close_conn s"
  "h_tracked (sent b s) = h_tracked s"
  by (simp_all add: sent_def)

lemma write_client_ready:
  "h_writes s = [] \<Longrightarrow> write_client s = (int BUFSIZ, s\<lparr>h_out := h_out s @ [take BUFSIZ (h_buf s)]\<rparr>)"
  by (simp add: write_client_def)

lemma respond_ready: "h_writes s = [] \<Longrightarrow> f (h_buf s) = Inr b \<Longrightarrow> respond f s = Inr (sent b s)"
  by (simp add: respond_def into_buf_def send_response_def write_client_ready sent_def)

lemma answered_sent:
  assumes "b = wire @ rest" and "length b = BUFSIZ + 1" and "length wire \<le> BUFSIZ"
    and "h_out s0 = h_out s" "h_closes s0 = h_closes s" "h_close_conn s0 = h_close_conn s"
    "h_tracked s0 = h_tracked s"
  shows "answered wire s (sent b s0)"
  using assms by (auto simp: answered_def intro!: exI [of _ "take (BUFSIZ - length wire) rest"])

lemma reply_payload_length: "reply_ok r \<Longrightarrow> length (reply_payload r) \<le> RESPONSE_BODY_LEN"
  by (cases r) (auto simp: response_sizes MAX_IDS_def detail_pieces_def split: option.splits)

lemma encode_reply_sent:
  assumes "reply_ok r" and "length (h_buf s) = BUFSIZ + 1" and "h_writes s = []"
  shows "\<exists>b. respond (encode_reply (st, r)) s = Inr (sent b s) \<and> length b = BUFSIZ + 1 \<and>
    replied st r s (sent b s)"
proof -
  let ?w = "response_header_wire (reply_header st r) @ reply_payload r"
  obtain rest where b: "encode_reply (st, r) (h_buf s) = Inr (?w @ rest)"
    using encode_reply_wire [OF assms(1), of "h_buf s" st] assms(2) by (auto simp: response_sizes)
  have "length ?w \<le> BUFSIZ"
    using reply_payload_length [OF assms(1)] by (simp add: response_sizes)
  moreover have "length (?w @ rest) = BUFSIZ + 1"
    using encode_reply_length [OF b] assms(2) by simp
  ultimately show ?thesis
    using respond_ready [where f = "encode_reply (st, r)", OF assms(3) b] answered_sent [of "?w @ rest" ?w rest s s]
    unfolding replied_def by blast
qed

lemma refusal:
  assumes "length (h_buf s) = BUFSIZ + 1" and "h_writes s = []"
  shows "\<exists>s'. response_err st g a s = Inr s' \<and> refused st g a s s'"
proof -
  have h: "RESPONSE_HEADER_LEN \<le> length (h_buf s)"
    using assms(1) by (simp add: response_sizes)
  let ?w = "response_header_wire (mk_resp g a 0 st 0 0 0)"
  let ?r = "drop RESPONSE_HEADER_LEN (h_buf s)"
  have "answered ?w s (sent (?w @ ?r) s)"
    using assms(1) by (intro answered_sent [where rest = ?r]) (simp_all add: response_sizes)
  then show ?thesis
    unfolding response_err_def refused_def
    using respond_ready [where f = "make_err_response st g a", OF assms(2) make_err_response_eq [OF h]]
    by simp
qed

text \<open>Outside the handlers the block is the same, whatever the check of the result of \<^verbatim>\<open>write\<close>.\<close>

lemma reply_plain_ready:
  assumes "h_writes s = []"
  shows "reply_plain f s = respond f s"
  using assms
  by (cases "f (h_buf s)")
    (simp_all add: reply_plain_def respond_def into_buf_def send_response_def write_client_ready)

lemma ready_frame:
  "ready s \<Longrightarrow> quiet (h_conn s)" "ready s \<Longrightarrow> length (h_buf s) = BUFSIZ + 1"
  "ready s \<Longrightarrow> h_writes s = []"
  by (simp_all add: ready_def)

lemma reply_after:
  assumes "ready s" and "reply_ok r"
  shows "\<exists>b. respond (encode_reply (st, r)) (s\<lparr>h_conn := c\<rparr>) = Inr (sent b (s\<lparr>h_conn := c\<rparr>)) \<and>
    length b = BUFSIZ + 1 \<and> replied st r s (sent b (s\<lparr>h_conn := c\<rparr>))"
proof -
  have "length (h_buf (s\<lparr>h_conn := c\<rparr>)) = BUFSIZ + 1" "h_writes (s\<lparr>h_conn := c\<rparr>) = []"
    using assms(1) by (simp_all add: ready_def)
  then show ?thesis
    using encode_reply_sent [OF assms(2)] by (fastforce simp: replied_def answered_def)
qed

section \<open>Authentication\<close>

text \<open>
  C6: A request of any group but registration and login whose token does not verify for the
  peer's address and the user it names is answered with one block of status 403 that repeats
  its group and action; no table, no file and nothing else changes.
\<close>

theorem unauthenticated_refused:
  assumes "ready s" and "rq_group (rq_header r) \<noteq> 0"
    and "verify_token (e_decrypt E) (e_now E) (e_addr E) (rq_user_id (rq_header r))
           (rq_token (rq_header r)) \<le> 0"
  shows "\<exists>s'. handle_request E (Some r) s = Inr s' \<and>
    refused 403 (rq_group (rq_header r)) (rq_action (rq_header r)) s s'"
  using assms refusal [OF ready_frame(2,3) [OF assms(1)]]
  by (simp add: handle_request_def Let_def reply_plain_ready ready_frame response_err_def)

definition example_env :: env where
  "example_env = \<lparr>e_sql = example_engine, e_encrypt = map (\<lambda>b. b XOR 255),
     e_decrypt = map (\<lambda>b. b XOR 255), e_md5 = (\<lambda>s. Some (replicate 16 171)), e_now = 1600000000,
     e_addr = 7, e_open_ok = True, e_fstat_ok = True, e_fclose_ok = True, e_epoll_ok = True\<rparr>"

definition example_state :: "db \<Rightarrow> hstate" where
  "example_state d = \<lparr>h_buf = zeros (BUFSIZ + 1), h_conn = start_conn d, h_files = (\<lambda>_. None),
     h_out = [], h_closes = 0, h_tracked = True, h_close_conn = False, h_rearmed = False,
     h_writes = [], h_uploads = [], h_downloads = []\<rparr>"

lemma example_ready [simp]:
  "ready (example_state d)" "h_conn (example_state d) = start_conn d"
  "h_files (example_state d) p = None" "h_out (example_state d) = []"
  "h_writes (example_state d) = []" "length (h_buf (example_state d)) = BUFSIZ + 1"
  by (simp_all add: example_state_def ready_def)

definition example_header :: "byte \<Rightarrow> byte \<Rightarrow> u32 \<Rightarrow> request_header" where
  "example_header g a uid = mk_header g a 0 0 0 (zeros 16) uid 10 0"

lemma example_header_sel [simp]:
  "rq_group (example_header g a uid) = g" "rq_action (example_header g a uid) = a"
  "rq_user_id (example_header g a uid) = uid" "rq_token (example_header g a uid) = zeros 16"
  by (simp_all add: example_header_def mk_header_def)

theorem unauthenticated_refused_witness:
  "\<exists>s'. handle_request example_env (Some \<lparr>rq_header = example_header 2 1 3,
      rq_body = R_chat \<lparr>rh_chat_id = 0, rh_user_id2 = 0\<rparr>\<rparr>) (example_state two_users) = Inr s' \<and>
    refused 403 2 1 (example_state two_users) s'"
  using unauthenticated_refused [of "example_state two_users"
    "\<lparr>rq_header = example_header 2 1 3, rq_body = R_chat \<lparr>rh_chat_id = 0, rh_user_id2 = 0\<rparr>\<rparr>" example_env]
  by (simp add: verify_token_def example_env_def Let_def store32_def)

section \<open>The rights of members and administrators\<close>

lemmas handler_simps = sql_def sql_simps sql_is_err_def sql_is_ok_def deref_def

lemma conv_drop_ready:
  assumes "ready s" and "is_conv_admin (cn_db (h_conn s)) (unat (rc_conv_id rconv)) (unat (rq_user_id header))"
    and "conv_drop (e_sql E) (rc_conv_id rconv) (h_conn s) = Inr ((), SQLITE_OK, c')"
  shows "\<exists>s'. handle_conv_drop E header rconv s = Inr s' \<and> replied 200 Rp_conv_drop s s' \<and> h_conn s' = c'"
proof -
  obtain b where "respond (encode_reply (200, Rp_conv_drop)) (s\<lparr>h_conn := c'\<rparr>) =
      Inr (sent b (s\<lparr>h_conn := c'\<rparr>))" "replied 200 Rp_conv_drop s (sent b (s\<lparr>h_conn := c'\<rparr>))"
    using reply_after [OF assms(1), of Rp_conv_drop] by auto
  then show ?thesis
    using assms(2,3) ready_frame(1) [OF assms(1)] by (simp add: handle_conv_drop_def handler_simps)
qed




text \<open>The rows a handler that names a message works on.\<close>

definition msg_place :: "msg_row \<Rightarrow> nat \<times> nat" where
  "msg_place m = (unat (column_int (opt_int (ms_conv m))), unat (column_int (opt_int (ms_chat m))))"

definition may_see :: "db \<Rightarrow> nat \<Rightarrow> nat \<times> nat \<Rightarrow> bool" where
  "may_see d u place \<longleftrightarrow> is_conv_member d (fst place) u \<or> is_chat_party d (snd place) u"

lemma require_member_ready:
  assumes "ready s"
  shows "require_member E header cid hid a k s =
    (if may_see (cn_db (h_conn s)) (unat (rq_user_id header)) (unat cid, unat hid) then k s
     else response_err 403 4 a s)"
  using ready_frame(1) [OF assms]
  by (simp add: require_member_def handler_simps may_see_def)

lemma with_msg_ready:
  assumes "ready s"
  shows "with_msg E header mid a k s =
    (case filter (\<lambda>m. ms_id m = unat mid) (db_msgs (cn_db (h_conn s))) of
       [] \<Rightarrow> response_err 404 4 a s
     | m # _ \<Rightarrow>
         if may_see (cn_db (h_conn s)) (unat (rq_user_id header)) (msg_place m) then k (msg_of mid m) s
         else response_err 403 4 a s)"
  using ready_frame(1) [OF assms]
  by (simp add: with_msg_def handler_simps require_member_ready [OF assms] msg_of_def msg_place_def
      split: list.splits)

lemma distinct_filter: "distinct (map f xs) \<Longrightarrow> x \<in> set xs \<Longrightarrow> filter (\<lambda>y. f y = f x) xs = [x]"
proof (induction xs)
  case (Cons a xs)
  then have "f a \<notin> f ` set xs" by simp
  then have "filter (\<lambda>y. f y = f a) xs = []"
    unfolding filter_empty_conv by (metis image_eqI)
  with Cons show ?case by auto
qed simp

lemma keys_filter_msg:
  "db_keys d \<Longrightarrow> m \<in> set (db_msgs d) \<Longrightarrow> filter (\<lambda>x. ms_id x = ms_id m) (db_msgs d) = [m]"
  by (simp add: db_keys_def distinct_filter)

text \<open>
  C9: Reading, deleting or downloading a message: an identifier that no message has is answered
  with 404, and a requester who is neither a member of the message's conversation nor a party of
  its chat with 403; in both cases no table and no file changes.
\<close>

theorem foreign_message_refused:
  assumes "ready s" and "rq_action header \<in> {1, 3, 6}"
    and "\<forall>m\<in>set (db_msgs (cn_db (h_conn s))). ms_id m = unat (rm_msg_id rm) \<longrightarrow>
      \<not> may_see (cn_db (h_conn s)) (unat (rq_user_id header)) (msg_place m)"
  shows "\<exists>s'. dispatch_msg E header rm s = Inr s' \<and>
    refused (if unat (rm_msg_id rm) \<in> ms_id ` set (db_msgs (cn_db (h_conn s))) then 403 else 404)
      4 (rq_action header) s s'"
proof -
  let ?fs = "filter (\<lambda>m. ms_id m = unat (rm_msg_id rm)) (db_msgs (cn_db (h_conn s)))"
  have empty: "?fs = [] \<longleftrightarrow> unat (rm_msg_id rm) \<notin> ms_id ` set (db_msgs (cn_db (h_conn s)))"
    by (force simp: filter_empty_conv)
  have head: "\<not> may_see (cn_db (h_conn s)) (unat (rq_user_id header)) (msg_place m)"
    if "?fs = m # ms" for m ms
  proof -
    have "m \<in> set ?fs" using that by simp
    then show ?thesis using assms(3) by auto
  qed
  have "with_msg E header (rm_msg_id rm) a k s =
      response_err (if ?fs = [] then 404 else 403) 4 a s" for a k
    using head by (simp add: with_msg_ready [OF assms(1)] split: list.splits)
  then have "dispatch_msg E header rm s = response_err (if ?fs = [] then 404 else 403) 4 (rq_action header) s"
    using assms(2)
    by (auto simp: dispatch_msg_def handle_msg_get_detail_def handle_msg_delete_def
        handle_msg_download_file_def)
  then show ?thesis
    using refusal [OF ready_frame(2,3) [OF assms(1)]] empty by simp
qed

theorem foreign_message_refused_witness:
  "\<exists>s'. dispatch_msg example_env (example_header 4 3 2)
      \<lparr>rm_conv_id = 0, rm_chat_id = 0, rm_msg_id = 2, rm_reply_id = 0, rm_msg_content = None\<rparr>
      (example_state thread_db) = Inr s' \<and>
    refused 403 4 3 (example_state thread_db) s'"
  using foreign_message_refused [of "example_state thread_db" "example_header 4 3 2"
      "\<lparr>rm_conv_id = 0, rm_chat_id = 0, rm_msg_id = 2, rm_reply_id = 0, rm_msg_content = None\<rparr>"
      example_env]
  by (simp add: thread_db_def may_see_def is_conv_member_def is_chat_party_def msg_place_def)

end
