(* ===== verification/Sessions.thy ===== *)
theory Sessions
  imports Handler_Props
begin

text \<open>
  Registration and login of \<^verbatim>\<open>server/src/handler.c\<close>: what a client gets that registers and then
  logs in.
\<close>

lemma user_create_quiet:
  assumes "quiet c" "\<not> cn_mutex c" and "plain u" "plain p" "plain ph" "plain e"
    and "length u + length p + length ph + length e \<le> 430"
  shows "user_create Q (new_user u p ph e) c =
    (if u \<in> u_uname ` set (db_users (cn_db c)) then Inr (0, SQLITE_CONSTRAINT, c)
     else
       let i = new_id (map u_id (db_users (cn_db c)))
       in Inr (of_nat i, SQLITE_OK, c\<lparr>cn_db := (cn_db c)\<lparr>db_users := db_users (cn_db c) @
            [\<lparr>u_id = i, u_uname = u, u_password = p, u_phone = ph, u_email = e\<rparr>]\<rparr>, cn_last := i\<rparr>))"
  using assms known_ins_user [OF assms(3-7)]
  by (auto simp: user_create_def new_user_def cstring_arg_def sql_simps insert_user_def Let_def)

lemma user_get_by_uname_quiet:
  assumes "quiet c" and "plain u" "length u \<le> 430"
  shows "user_get_by_uname Q (Some u) c =
    (case filter (\<lambda>x. u_uname x = u) (db_users (cn_db c)) of
       [] \<Rightarrow> Inr (None, SQLITE_EMPTY, c)
     | x # _ \<Rightarrow> Inr (Some \<lparr>us_id = of_nat (u_id x), us_uname = Some u, us_password = Some (u_password x),
          us_phone = None, us_email = None\<rparr>, SQLITE_OK, c))"
  using assms known_sel_uname [OF assms(2,3)]
  by (simp add: user_get_by_uname_def cstring_arg_def sql_simps string_of_def split: list.splits)

lemma fresh_token:
  assumes "cipher_ok enc decr"
  shows "verify_token decr now addr uid (make_token enc now addr uid) = 1"
  by (simp add: verify_made_token [OF assms])


definition creds :: "bytes \<Rightarrow> bytes \<Rightarrow> bytes \<Rightarrow> bytes \<Rightarrow> request_auth" where
  "creds u pw ph e = \<lparr>ra_uname = Some u, ra_password = Some pw, ra_phone = Some ph, ra_email = Some e\<rparr>"

lemma length_made_token: "cipher_ok enc decr \<Longrightarrow> length (make_token enc now addr uid) = TOKEN_LEN"
  by (simp add: make_token_def Let_def cipher_ok_def TOKEN_LEN_def)

lemma register_new:
  assumes "ready s" "\<not> cn_mutex (h_conn s)" and "cipher_ok (e_encrypt E) (e_decrypt E)" "md5_ok (e_md5 E)"
    and "hash_str (e_md5 E) pw = Some hash" and "plain u" "plain ph" "plain e"
    and "length u + length ph + length e \<le> 398"
    and "u \<notin> u_uname ` set (db_users (cn_db (h_conn s)))"
  shows "\<exists>b. let d = cn_db (h_conn s); i = new_id (map u_id (db_users d));
      c' = (h_conn s)\<lparr>cn_db := d\<lparr>db_users := db_users d @
        [\<lparr>u_id = i, u_uname = u, u_password = hash, u_phone = ph, u_email = e\<rparr>]\<rparr>, cn_last := i\<rparr>;
      s' = sent b (s\<lparr>h_conn := c'\<rparr>) in
    handle_auth_register E (creds u pw ph e) s = Inr s' \<and> length b = BUFSIZ + 1 \<and>
    replied 201 (Rp_register (make_token (e_encrypt E) (e_now E) (e_addr E) (of_nat i)) (of_nat i)) s s'"
proof -
  let ?d = "cn_db (h_conn s)"
  let ?i = "new_id (map u_id (db_users ?d))"
  let ?c = "(h_conn s)\<lparr>cn_db := ?d\<lparr>db_users := db_users ?d @
    [\<lparr>u_id = ?i, u_uname = u, u_password = hash, u_phone = ph, u_email = e\<rparr>]\<rparr>, cn_last := ?i\<rparr>"
  let ?r = "Rp_register (make_token (e_encrypt E) (e_now E) (e_addr E) (of_nat ?i)) (of_nat ?i)"
  obtain b where b: "respond (encode_reply (201, ?r)) (s\<lparr>h_conn := ?c\<rparr>) = Inr (sent b (s\<lparr>h_conn := ?c\<rparr>))"
      "length b = BUFSIZ + 1" "replied 201 ?r s (sent b (s\<lparr>h_conn := ?c\<rparr>))"
    using reply_after [OF assms(1), of ?r 201 ?c] length_made_token [OF assms(3)] by auto
  have "user_create (e_sql E) (new_user u hash ph e) (h_conn s) = Inr (of_nat ?i, SQLITE_OK, ?c)"
    using user_create_quiet [of "h_conn s" u hash ph e "e_sql E"] ready_frame(1) [OF assms(1)] assms(2,6-10)
      plain_hash [OF assms(5)] length_hash_str [OF assms(4,5)] by (simp add: Let_def)
  then have "handle_auth_register E (creds u pw ph e) s = Inr (sent b (s\<lparr>h_conn := ?c\<rparr>))"
    using b(1) assms(5)
    by (simp add: handle_auth_register_def creds_def deref_def sql_def new_user_def sql_is_err_def
        sql_is_ok_def)
  with b(2,3) show ?thesis by (auto simp: Let_def)
qed

lemma login_ready:
  assumes "ready s" and "cipher_ok (e_encrypt E) (e_decrypt E)"
    and "hash_str (e_md5 E) pw = Some hash" and "plain u" "length u \<le> 430"
    and "filter (\<lambda>x. u_uname x = u) (db_users (cn_db (h_conn s))) = [x]"
    and "ra_uname ra = Some u" "ra_password ra = Some pw"
  shows "\<exists>s'. handle_auth_login E ra s = Inr s' \<and> h_conn s' = h_conn s \<and>
    (if hash = u_password x
     then replied 200 (Rp_login (make_token (e_encrypt E) (e_now E) (e_addr E) (of_nat (u_id x)))
            (of_nat (u_id x))) s s'
     else refused 403 0 1 s s')"
proof -
  let ?r = "Rp_login (make_token (e_encrypt E) (e_now E) (e_addr E) (of_nat (u_id x))) (of_nat (u_id x))"
  obtain b where b: "respond (encode_reply (200, ?r)) (s\<lparr>h_conn := h_conn s\<rparr>) =
      Inr (sent b (s\<lparr>h_conn := h_conn s\<rparr>))" "replied 200 ?r s (sent b (s\<lparr>h_conn := h_conn s\<rparr>))"
    using reply_after [OF assms(1), of ?r 200 "h_conn s"] length_made_token [OF assms(2)] by auto
  obtain s' where s': "response_err 403 0 1 s = Inr s'" "refused 403 0 1 s s'"
    using refusal [OF ready_frame(2,3) [OF assms(1)]] by blast
  have "handle_auth_login E ra s =
      (if hash = u_password x then Inr (sent b s) else response_err 403 0 1 s)"
    using b(1) assms(3,6-) user_get_by_uname_quiet [OF ready_frame(1) [OF assms(1)] assms(4,5), of "e_sql E"]
    by (simp add: handle_auth_login_def deref_def sql_def sql_is_err_def sql_is_ok_def)
  then show ?thesis
    using s' b(2) by (auto simp: refused_def)
qed


text \<open>
  C7: A client that registers a free name is answered with 201, its identifier and a token; when it
  then logs in, from any address and at any time, with the same password, it is answered with
  200, the same identifier and a token that verifies for that address and identifier, and with a
  password of another hash it is refused with 403.
\<close>

theorem register_then_login:
  assumes "ready s" "\<not> cn_mutex (h_conn s)" and "cipher_ok (e_encrypt E) (e_decrypt E)" "md5_ok (e_md5 E)"
    and "hash_str (e_md5 E) pw = Some hash" "hash_str (e_md5 E) pw2 = Some hash2"
    and "plain u" "plain ph" "plain e" and "length u + length ph + length e \<le> 398"
    and "u \<notin> u_uname ` set (db_users (cn_db (h_conn s)))"
  shows "\<exists>s1 s2. let i = of_nat (new_id (map u_id (db_users (cn_db (h_conn s)))));
      E2 = E\<lparr>e_now := now2, e_addr := addr2\<rparr>;
      tok = make_token (e_encrypt E) now2 addr2 i in
    handle_auth_register E (creds u pw ph e) s = Inr s1 \<and>
    replied 201 (Rp_register (make_token (e_encrypt E) (e_now E) (e_addr E) i) i) s s1 \<and>
    handle_auth_login E2 (creds u pw2 ph e) s1 = Inr s2 \<and>
    (if hash2 = hash then replied 200 (Rp_login tok i) s1 s2 \<and> verify_token (e_decrypt E) now2 addr2 i tok = 1
     else refused 403 0 1 s1 s2)"
proof -
  let ?d = "cn_db (h_conn s)" and ?E2 = "E\<lparr>e_now := now2, e_addr := addr2\<rparr>"
  let ?i = "new_id (map u_id (db_users ?d))"
  let ?x = "\<lparr>u_id = ?i, u_uname = u, u_password = hash, u_phone = ph, u_email = e\<rparr>"
  let ?c = "(h_conn s)\<lparr>cn_db := ?d\<lparr>db_users := db_users ?d @ [?x]\<rparr>, cn_last := ?i\<rparr>"
  obtain b where b: "length b = BUFSIZ + 1"
    and reg: "handle_auth_register E (creds u pw ph e) s = Inr (sent b (s\<lparr>h_conn := ?c\<rparr>))"
    and rep: "replied 201 (Rp_register (make_token (e_encrypt E) (e_now E) (e_addr E) (of_nat ?i)) (of_nat ?i)) s (sent b (s\<lparr>h_conn := ?c\<rparr>))"
    using register_new [OF assms(1-5,7-11)] unfolding Let_def by blast
  let ?s1 = "sent b (s\<lparr>h_conn := ?c\<rparr>)"
  have s1: "ready ?s1"
    using assms(1) b by (simp add: ready_def)
  have "filter (\<lambda>x. u_uname x = u) (db_users ?d) = []"
    using assms(11) by (force simp: filter_empty_conv)
  then have x: "filter (\<lambda>x. u_uname x = u) (db_users (cn_db (h_conn ?s1))) = [?x]"
    by simp
  obtain s2 where "handle_auth_login ?E2 (creds u pw2 ph e) ?s1 = Inr s2"
    "if hash2 = u_password ?x
     then replied 200 (Rp_login (make_token (e_encrypt ?E2) (e_now ?E2) (e_addr ?E2) (of_nat (u_id ?x)))
            (of_nat (u_id ?x))) ?s1 s2
     else refused 403 0 1 ?s1 s2"
    using login_ready [OF s1, of ?E2 pw2 hash2 u ?x "creds u pw2 ph e"] assms(3,6,7,10) x
    by (auto simp: creds_def)
  with reg rep fresh_token [OF assms(3)] show ?thesis
    by (intro exI [of _ ?s1] exI [of _ s2]) (auto simp: Let_def split: if_splits)
qed

lemma example_cipher_ok: "cipher_ok (e_encrypt example_env) (e_decrypt example_env)"
  by (simp add: example_env_def cipher_ok_def comp_def xor.assoc)

lemma example_md5_ok: "md5_ok (e_md5 example_env)"
  by (simp add: example_env_def md5_ok_def HASHED_LEN_def)

theorem register_then_login_witness:
  "\<exists>s1 s2. handle_auth_register example_env (creds [97] [98] [] []) (example_state empty_db) = Inr s1 \<and>
    handle_auth_login (example_env\<lparr>e_now := 5, e_addr := 9\<rparr>) (creds [97] [98] [] []) s1 = Inr s2 \<and>
    replied 200 (Rp_login (make_token (e_encrypt example_env) 5 9 1) 1) s1 s2"
proof -
  obtain h where h: "hash_str (e_md5 example_env) [98] = Some h"
    by (simp add: example_env_def hash_str_def)
  show ?thesis
    using register_then_login [of "example_state empty_db" example_env "[98]" h "[98]" h "[97]" "[]" "[]" 9 5]
      example_cipher_ok example_md5_ok h
    by (auto simp: plain_def QUOTE_def empty_db_def new_id_def Let_def)
qed

end
