(* ===== verification/Access.thy ===== *)
theory Access
  imports Handler_Props
begin

text \<open>
  The effects of the handlers of \<^verbatim>\<open>server/src/handler.c\<close> on requests they carry out, and the
  requests on which the checks of the handlers are not those of the data they work on.
\<close>

lemma exec_ok_quiet:
  assumes "quiet c" and "snprintf_query QUERY_SMALL st = Known st" and "is_dml st"
  shows "exec_ok Q st c = Inr ((), SQLITE_OK,
    case dml (cn_fk c) (cn_last c) st (cn_db c) of Inl _ \<Rightarrow> c | Inr (d, i) \<Rightarrow> c\<lparr>cn_db := d, cn_last := i\<rparr>)"
  using assms
  by (simp add: exec_ok_def exec1_quiet run_dml del: exec.simps split: sum.splits prod.splits)

lemma exec_rc_quiet:
  assumes "quiet c" and "snprintf_query QUERY_SMALL st = Known st" and "is_dml st"
    and "dml (cn_fk c) (cn_last c) st (cn_db c) = Inr (d, i)"
  shows "exec_rc Q st c = Inr ((), SQLITE_OK, c\<lparr>cn_db := d, cn_last := i\<rparr>)"
  using assms by (simp add: exec_rc_def exec1_quiet run_dml del: exec.simps)

section \<open>Messages\<close>

text \<open>Every message of the table with the identifier of \<open>m\<close> is marked as delivered.\<close>

definition delivered :: "msg_row \<Rightarrow> db \<Rightarrow> db" where
  "delivered m d = d\<lparr>db_msgs := map (\<lambda>x. if ms_id x = ms_id m then x\<lparr>ms_type := 1\<rparr> else x) (db_msgs d)\<rparr>"

lemma get_detail_ready:
  assumes "ready s" and "filter (\<lambda>x. ms_id x = unat (rm_msg_id rm)) (db_msgs (cn_db (h_conn s))) = [m]"
    and "ms_id m = unat (rm_msg_id rm)"
    and "may_see (cn_db (h_conn s)) (unat (rq_user_id header)) (msg_place m)"
    and "is_cstr (ms_content m)" "length (ms_content m) + 30 \<le> RESPONSE_BODY_LEN"
  shows "\<exists>s'. handle_msg_get_detail E header rm s = Inr s' \<and>
    replied 200 (Rp_msg_detail (detail_of (msg_of (rm_msg_id rm) m))) s s' \<and>
    h_conn s' = (h_conn s)\<lparr>cn_db := delivered m (cn_db (h_conn s))\<rparr>"
proof -
  let ?r = "Rp_msg_detail (detail_of (msg_of (rm_msg_id rm) m))"
  have "reply_ok ?r"
    using assms(5,6) by (simp add: detail_of_def msg_of_def)
  then obtain b where b: "respond (encode_reply (200, ?r)) (s\<lparr>h_conn := h_conn s\<rparr>) =
      Inr (sent b (s\<lparr>h_conn := h_conn s\<rparr>))" "replied 200 ?r s (sent b (s\<lparr>h_conn := h_conn s\<rparr>))"
    using reply_after [OF assms(1)] by blast
  then show ?thesis
    using assms(2-4) ready_frame(1) [OF assms(1)]
    by (simp add: handle_msg_get_detail_def with_msg_ready [OF assms(1)] sql_def msg_delivered_def
        exec_ok_quiet numeric_queries update_msgs_def replied_def answered_def delivered_def)
qed

text \<open>
  C17: Reading a message that the requester may see is answered with its whole contents and marks
  it, and no other, as delivered, whatever its state was before: reading a deleted message turns
  it back into a delivered one, which the notification of deleted messages no longer reports.
\<close>

theorem msg_get_detail_marks_delivered:
  assumes "ready s" and "db_keys (cn_db (h_conn s))" and "m \<in> set (db_msgs (cn_db (h_conn s)))"
    and "ms_id m = unat (rm_msg_id rm)"
    and "may_see (cn_db (h_conn s)) (unat (rq_user_id header)) (msg_place m)"
    and "is_cstr (ms_content m)" "length (ms_content m) + 30 \<le> RESPONSE_BODY_LEN"
  shows "\<exists>s'. handle_msg_get_detail E header rm s = Inr s' \<and>
    replied 200 (Rp_msg_detail (detail_of (msg_of (rm_msg_id rm) m))) s s' \<and>
    cn_db (h_conn s') = (cn_db (h_conn s))\<lparr>db_msgs :=
      map (\<lambda>x. if ms_id x = ms_id m then x\<lparr>ms_type := 1\<rparr> else x) (db_msgs (cn_db (h_conn s)))\<rparr>"
  using get_detail_ready [OF assms(1) _ assms(4-7), of E] keys_filter_msg [OF assms(2,3)] assms(4)
  by (auto simp: delivered_def)

theorem msg_get_detail_marks_delivered_witness:
  "\<exists>s'. handle_msg_get_detail example_env (example_header 4 1 1)
      \<lparr>rm_conv_id = 0, rm_chat_id = 0, rm_msg_id = 1, rm_reply_id = 0, rm_msg_content = None\<rparr>
      (example_state thread_db) = Inr s' \<and>
    map ms_type (db_msgs (cn_db (h_conn s'))) = [1, 0]"
proof -
  have "db_keys thread_db"
    by (simp add: thread_db_def db_keys_def)
  then show ?thesis
    using msg_get_detail_marks_delivered [of "example_state thread_db" "hd (db_msgs thread_db)"
        "\<lparr>rm_conv_id = 0, rm_chat_id = 0, rm_msg_id = 1, rm_reply_id = 0, rm_msg_content = None\<rparr>"
        "example_header 4 1 1" example_env]
    by (auto simp: thread_db_def may_see_def is_conv_member_def msg_place_def opt_int_def is_cstr_def
        response_sizes)
qed

text \<open>
  Deleting a message that the requester may see, whoever wrote it, empties its text and marks it
  as deleted; every other message stays, and so does the number of messages.
\<close>

theorem msg_delete_empties:
  assumes "ready s" and "db_keys (cn_db (h_conn s))" and "m \<in> set (db_msgs (cn_db (h_conn s)))"
    and "ms_id m = unat (rm_msg_id rm)"
    and "may_see (cn_db (h_conn s)) (unat (rq_user_id header)) (msg_place m)"
  shows "\<exists>s'. handle_msg_delete E header rm s = Inr s' \<and> replied 200 Rp_msg_delete s s' \<and>
    cn_db (h_conn s') = (cn_db (h_conn s))\<lparr>db_msgs :=
      map (\<lambda>x. if ms_id x = ms_id m then x\<lparr>ms_content := [], ms_type := 2\<rparr> else x)
        (db_msgs (cn_db (h_conn s)))\<rparr>"
proof -
  let ?c = "(h_conn s)\<lparr>cn_db := (cn_db (h_conn s))\<lparr>db_msgs :=
      map (\<lambda>x. if ms_id x = ms_id m then x\<lparr>ms_content := [], ms_type := 2\<rparr> else x)
        (db_msgs (cn_db (h_conn s)))\<rparr>\<rparr>"
  obtain b where b: "respond (encode_reply (200, Rp_msg_delete)) (s\<lparr>h_conn := ?c\<rparr>) =
      Inr (sent b (s\<lparr>h_conn := ?c\<rparr>))" "replied 200 Rp_msg_delete s (sent b (s\<lparr>h_conn := ?c\<rparr>))"
    using reply_after [OF assms(1), of Rp_msg_delete] by auto
  have "filter (\<lambda>x. ms_id x = unat (rm_msg_id rm)) (db_msgs (cn_db (h_conn s))) = [m]"
    using keys_filter_msg [OF assms(2,3)] assms(4) by simp
  then show ?thesis
    using b assms(4,5) ready_frame(1) [OF assms(1)]
    by (simp add: handle_msg_delete_def with_msg_ready [OF assms(1)] sql_def msg_delete_def
        exec_ok_quiet numeric_queries update_msgs_def msg_of_def sql_is_err_def sql_is_ok_def)
qed

theorem msg_delete_empties_witness:
  "\<exists>s'. handle_msg_delete example_env (example_header 4 3 1)
      \<lparr>rm_conv_id = 0, rm_chat_id = 0, rm_msg_id = 2, rm_reply_id = 0, rm_msg_content = None\<rparr>
      (example_state thread_db) = Inr s' \<and>
    map ms_type (db_msgs (cn_db (h_conn s'))) = [0, 2]"
proof -
  have "db_keys thread_db"
    by (simp add: thread_db_def db_keys_def)
  then show ?thesis
    using msg_delete_empties [of "example_state thread_db" "db_msgs thread_db ! 1"
        "\<lparr>rm_conv_id = 0, rm_chat_id = 0, rm_msg_id = 2, rm_reply_id = 0, rm_msg_content = None\<rparr>"
        "example_header 4 3 1" example_env]
    by (auto simp: thread_db_def may_see_def is_conv_member_def msg_place_def opt_int_def)
qed

section \<open>Rights that are checked on one thing and used on another\<close>

text \<open>
  C35: A member of any conversation can list the messages of every chat: a request that names a
  conversation the requester belongs to, and a chat of two other users, passes the check on the
  conversation and is answered with the messages of the chat.
\<close>

theorem foreign_chat_is_listed:
  assumes "ready s" and "is_conv_member (cn_db (h_conn s)) (unat (rm_conv_id rm)) (unat (rq_user_id header))"
    and "\<not> is_chat_party (cn_db (h_conn s)) (unat (rm_chat_id rm)) (unat (rq_user_id header))"
    and "0 < rm_chat_id rm"
    and "ls = rev (map (\<lambda>row. column_int (row ! 0)) (select (e_sql E) (cn_db (h_conn s))
      (Sel_msgs_chat (unat (rm_chat_id rm)) (sint (at_least_0 (rq_limit header)))
         (sint (at_least_0 (rq_offset header))))))" and "length ls \<le> MAX_IDS"
  shows "\<exists>s'. handle_msg_get_all E header rm s = Inr s' \<and> replied 200 (Rp_msg_all ls) s s'"
proof -
  obtain b where b: "respond (encode_reply (200, Rp_msg_all ls)) (s\<lparr>h_conn := h_conn s\<rparr>) =
      Inr (sent b (s\<lparr>h_conn := h_conn s\<rparr>))" "replied 200 (Rp_msg_all ls) s (sent b (s\<lparr>h_conn := h_conn s\<rparr>))"
    using reply_after [OF assms(1), of "Rp_msg_all ls" 200 "h_conn s"] assms(6) by auto
  have "msg_chat_get_all (e_sql E) (rm_chat_id rm) (at_least_0 (rq_limit header))
      (at_least_0 (rq_offset header)) (h_conn s) = Inr (ls, SQLITE_OK, h_conn s)"
    using ready_frame(1) [OF assms(1)] assms(5)
    by (simp add: msg_chat_get_all_def numeric_queries get_list_quiet)
  then show ?thesis
    using b assms(2,4)
    by (simp add: handle_msg_get_all_def Let_def require_member_ready [OF assms(1)] may_see_def sql_def
        sql_is_err_def sql_is_ok_def)
qed

definition gossip_db :: db where
  "gossip_db = thread_db\<lparr>db_users := map (\<lambda>i. \<lparr>u_id = i, u_uname = [of_nat i], u_password = [],
       u_phone = [], u_email = []\<rparr>) [1, 2, 3],
     db_chats := [\<lparr>ch_id = 1, ch_member1 = 2, ch_member2 = 3\<rparr>],
     db_msgs := [\<lparr>ms_id = 1, ms_from = 2, ms_reply = None, ms_ctype = 0, ms_clen = 0, ms_content = [],
       ms_created = 5, ms_chat = Some 1, ms_conv = None, ms_type = 0\<rparr>]\<rparr>"

theorem foreign_chat_is_listed_witness:
  "\<exists>s'. handle_msg_get_all example_env (example_header 4 0 1)
      \<lparr>rm_conv_id = 1, rm_chat_id = 1, rm_msg_id = 0, rm_reply_id = 0, rm_msg_content = None\<rparr>
      (example_state gossip_db) = Inr s' \<and>
    replied 200 (Rp_msg_all [1]) (example_state gossip_db) s'"
  using foreign_chat_is_listed [of "example_state gossip_db"
      "\<lparr>rm_conv_id = 1, rm_chat_id = 1, rm_msg_id = 0, rm_reply_id = 0, rm_msg_content = None\<rparr>"
      "example_header 4 0 1" "[1]" example_env]
  by (simp add: gossip_db_def thread_db_def is_conv_member_def is_chat_party_def in_chat_def
      example_env_def example_engine_def example_header_def mk_header_def at_least_0_def
      by_created_desc_def page_def msgs_where_def MAX_IDS_def)

text \<open>
  An administrator who asks to remove another member from the conversation is removed instead:
  the answer is 200, the membership of the administrator is gone and that of the named user is
  still there.
\<close>

theorem conv_quit_removes_requester:
  assumes "ready s" and "is_conv_admin (cn_db (h_conn s)) (unat (rc_conv_id rconv)) (unat (rq_user_id header))"
    and "is_conv_member (cn_db (h_conn s)) (unat (rc_conv_id rconv)) (unat (rq_user_id header))"
    and "is_conv_member (cn_db (h_conn s)) (unat (rc_conv_id rconv)) (unat (rc_user_id rconv))"
    and "rc_user_id rconv \<noteq> rq_user_id header"
  shows "\<exists>s'. handle_conv_quit E header rconv s = Inr s' \<and> replied 200 Rp_conv_quit s s' \<and>
    \<not> is_conv_member (cn_db (h_conn s')) (unat (rc_conv_id rconv)) (unat (rq_user_id header)) \<and>
    is_conv_member (cn_db (h_conn s')) (unat (rc_conv_id rconv)) (unat (rc_user_id rconv))"
proof -
  let ?d = "delete_members (\<lambda>m. mb_conv m = unat (rc_conv_id rconv) \<and>
    mb_user m = unat (rq_user_id header)) (cn_db (h_conn s))"
  let ?c = "(h_conn s)\<lparr>cn_db := ?d\<rparr>"
  obtain b where b: "respond (encode_reply (200, Rp_conv_quit)) (s\<lparr>h_conn := ?c\<rparr>) =
      Inr (sent b (s\<lparr>h_conn := ?c\<rparr>))" "replied 200 Rp_conv_quit s (sent b (s\<lparr>h_conn := ?c\<rparr>))"
    using reply_after [OF assms(1), of Rp_conv_quit] by auto
  have "conv_quit (e_sql E) (rq_user_id header) (rc_conv_id rconv) (h_conn s) =
      Inr ((), SQLITE_OK, (h_conn s)\<lparr>cn_db := ?d, cn_last := cn_last (h_conn s)\<rparr>)"
    unfolding conv_quit_def
    by (rule exec_rc_quiet) (use ready_frame(1) [OF assms(1)] in \<open>simp_all add: numeric_queries\<close>)
  then have "handle_conv_quit E header rconv s = Inr (sent b (s\<lparr>h_conn := ?c\<rparr>))"
    using b(1) assms(2,3,5) ready_frame(1) [OF assms(1)]
    by (simp add: handle_conv_quit_def handler_simps)
  moreover have "unat (rc_user_id rconv) \<noteq> unat (rq_user_id header)"
    using assms(5) by (simp add: word_unat_eq_iff)
  then have "\<not> is_conv_member ?d (unat (rc_conv_id rconv)) (unat (rq_user_id header))"
    "is_conv_member ?d (unat (rc_conv_id rconv)) (unat (rc_user_id rconv))"
    using assms(4) by (auto simp: is_conv_member_def delete_members_def)
  ultimately show ?thesis
    using b(2) by simp
qed

definition group_db :: db where
  "group_db = thread_db\<lparr>db_members :=
     [\<lparr>mb_rowid = 1, mb_conv = 1, mb_user = 1\<rparr>, \<lparr>mb_rowid = 2, mb_conv = 1, mb_user = 2\<rparr>]\<rparr>"

theorem conv_quit_removes_requester_witness:
  "\<exists>s'. handle_conv_quit example_env (example_header 2 3 1)
      \<lparr>rc_conv_id = 1, rc_user_id = 2, rc_gname = None\<rparr> (example_state group_db) = Inr s' \<and>
    \<not> is_conv_member (cn_db (h_conn s')) 1 1 \<and> is_conv_member (cn_db (h_conn s')) 1 2"
  using conv_quit_removes_requester [of "example_state group_db"
      "\<lparr>rc_conv_id = 1, rc_user_id = 2, rc_gname = None\<rparr>" "example_header 2 3 1" example_env]
  by (auto simp: group_db_def thread_db_def is_conv_admin_def is_conv_member_def)

text \<open>
  Asking for the members of a chat that does not exist ends the server: the missing row is not
  an error for the handler, which then follows the null pointer.
\<close>

theorem chat_get_info_missing_faults:
  assumes "quiet (h_conn s)" and "unat (rh_chat_id rchat) \<notin> ch_id ` set (db_chats (cn_db (h_conn s)))"
  shows "handle_chat_get_info E header rchat s = Inl Null_Deref"
proof -
  have "filter (\<lambda>h. ch_id h = unat (rh_chat_id rchat)) (db_chats (cn_db (h_conn s))) = []"
    using assms(2) unfolding filter_empty_conv by (metis image_eqI)
  then show ?thesis
    using assms(1) by (simp add: handle_chat_get_info_def handler_simps)
qed

theorem chat_get_info_missing_faults_witness:
  "handle_chat_get_info example_env (example_header 3 3 1) \<lparr>rh_chat_id = 5, rh_user_id2 = 0\<rparr>
     (example_state two_users) = Inl Null_Deref"
  using chat_get_info_missing_faults [of "example_state two_users"
      "\<lparr>rh_chat_id = 5, rh_user_id2 = 0\<rparr>" example_env "example_header 3 3 1"]
  by (simp add: two_users_def empty_db_def)

end
