(* ===== verification/Streams.thy ===== *)
theory Streams
  imports Handler_Props
begin

text \<open>
  The loops of \<^verbatim>\<open>server/src/handler.c\<close> that move bytes: the one that collects a request, the one
  that receives a file and the one that sends a file.
\<close>

section \<open>Collecting a request\<close>

lemma recv_loop_fill:
  assumes "\<forall>bs\<in>set bss. bs \<noteq> [] \<and> length bs \<le> BUFSIZ" and "bss \<noteq> []"
    and "length pre + length (concat bss) = BUFSIZ" and "length buf = BUFSIZ + 1 - length pre"
  shows "recv_loop (map Recv_data bss @ evs) (length pre) (pre @ buf) =
    Inr (Some BUFSIZ, pre @ concat bss @ drop (length (concat bss)) buf)"
  using assms
proof (induction bss arbitrary: pre buf)
  case (Cons bs bss)
  have w: "mem_write (pre @ buf) (length pre) bs = Inr ((pre @ bs) @ drop (length bs) buf)"
    using Cons.prems by (simp add: mem_write_def)
  show ?case
  proof (cases "bss = []")
    case True
    then show ?thesis
      using Cons.prems w by (simp add: Let_def)
  next
    case False
    have "concat bss \<noteq> []"
      using False Cons.prems(1) by (cases bss) auto
    then have "0 < length (concat bss)" by simp
    moreover have "length (pre @ bs) + length (concat bss) = BUFSIZ"
      using Cons.prems(3) by simp
    ultimately have lt: "length (pre @ bs) < BUFSIZ" by linarith
    have "recv_loop (map Recv_data bss @ evs) (length (pre @ bs)) ((pre @ bs) @ drop (length bs) buf) =
      Inr (Some BUFSIZ, (pre @ bs) @ concat bss @ drop (length (concat bss)) (drop (length bs) buf))"
      using Cons.prems False by (intro Cons.IH) auto
    then show ?thesis
      using Cons.prems(1) lt w by (simp add: Let_def add.commute)
  qed
qed simp

text \<open>
  C23: A request that arrives in pieces is put together in order: when the pieces make up exactly one
  block, the loop stops after the last of them, with the block at the front of the buffer.
\<close>

theorem recv_loop_assembles:
  assumes "\<forall>bs\<in>set bss. bs \<noteq> []" and "length (concat bss) = BUFSIZ" and "length buf = BUFSIZ + 1"
  shows "recv_loop (map Recv_data bss @ evs) 0 buf = Inr (Some BUFSIZ, concat bss @ drop BUFSIZ buf)"
proof -
  have "length bs \<le> BUFSIZ" if "bs \<in> set bss" for bs
    using that assms(2) member_le_sum_list [of "length bs" "map length bss"] by (simp add: length_concat)
  moreover have "bss \<noteq> []"
    using assms(2) by (auto simp: BUFSIZ_def)
  ultimately show ?thesis
    using recv_loop_fill [of bss "[]" buf evs] assms by simp
qed

theorem recv_loop_assembles_witness:
  "recv_loop (map Recv_data [replicate 8000 7, replicate 192 8]) 0 (zeros 8193) =
    Inr (Some 8192, replicate 8000 7 @ replicate 192 8 @ [0])"
  using recv_loop_assembles [of "[replicate 8000 7, replicate 192 8]" "zeros 8193" "[]"]
  by (simp add: BUFSIZ_def)

text \<open>
  C39: Every call of the loop may deliver a whole block wherever it starts in the buffer, so a client
  that sends a piece of a block and then a whole block writes behind the end of the buffer.
\<close>

theorem recv_loop_overflows:
  assumes "length buf = BUFSIZ + 1" and "1 < length bs" "length bs < BUFSIZ" "length bs' = BUFSIZ"
  shows "recv_loop (Recv_data bs # Recv_data bs' # evs) 0 buf = Inl Out_Of_Bounds"
proof -
  have "bs \<noteq> []" "bs' \<noteq> []"
    using assms by (auto simp: BUFSIZ_def)
  then show ?thesis
    using assms by (simp add: Let_def mem_write_def)
qed

theorem recv_loop_overflows_witness:
  "recv_loop [Recv_data [1, 2], Recv_data (zeros 8192)] 0 (zeros 8193) = Inl Out_Of_Bounds"
  using recv_loop_overflows [of "zeros 8193" "[1, 2]" "zeros 8192" "[]"] by (simp add: BUFSIZ_def)

section \<open>Receiving a file\<close>

definition delivers :: "bytes \<Rightarrow> upload_ev" where
  "delivers bs = \<lparr>up_poll = 1, up_pollin = True, up_read = Read_bytes bs, up_fs_ok = True\<rparr>"

definition keep_chunk :: "bytes \<Rightarrow> bytes \<Rightarrow> bytes \<Rightarrow> hstate \<Rightarrow> hstate" where
  "keep_chunk path old bs s = s\<lparr>h_buf := bs @ drop (length bs) (h_buf s),
     h_files := (h_files s)(path \<mapsto> old @ bs)\<rparr>"

lemma keep_chunk_sel [simp]:
  "h_buf (keep_chunk path old bs s) = bs @ drop (length bs) (h_buf s)"
  "h_files (keep_chunk path old bs s) = (h_files s)(path \<mapsto> old @ bs)"
  "h_out (keep_chunk path old bs s) = h_out s" "h_conn (keep_chunk path old bs s) = h_conn s"
  by (simp_all add: keep_chunk_def)

lemma upload_step:
  assumes "bs \<noteq> []" "length bs \<le> BUFSIZ" "length (h_buf s) = BUFSIZ + 1" "h_files s path = Some old"
  shows "upload_loop path (delivers bs # es) (int n) s =
    (if n \<le> length bs then Inr (True, keep_chunk path old bs s)
     else upload_loop path es (int (n - length bs)) (keep_chunk path old bs s))"
  using assms
  by (simp add: delivers_def into_buf_def append_file_def keep_chunk_def mem_write_def Let_def of_nat_diff)

lemma upload_loop_stores:
  assumes "\<forall>bs\<in>set bss. bs \<noteq> [] \<and> length bs \<le> BUFSIZ" and "bss \<noteq> []"
    and "length (concat bss) = n" and "length (h_buf s) = BUFSIZ + 1" and "h_files s path = Some old"
  shows "\<exists>s'. upload_loop path (map delivers bss @ es) (int n) s = Inr (True, s') \<and>
    h_files s' = (h_files s)(path \<mapsto> old @ concat bss) \<and> h_out s' = h_out s \<and> h_conn s' = h_conn s"
  using assms
proof (induction bss arbitrary: s old n)
  case (Cons bs bss)
  let ?s = "keep_chunk path old bs s"
  have step: "upload_loop path (map delivers (bs # bss) @ es) (int n) s =
      (if n \<le> length bs then Inr (True, ?s)
       else upload_loop path (map delivers bss @ es) (int (n - length bs)) ?s)"
    using Cons.prems upload_step by simp
  show ?case
  proof (cases "bss = []")
    case True
    with Cons.prems(3) have "upload_loop path (map delivers (bs # bss) @ es) (int n) s = Inr (True, ?s)"
      using step by (simp del: upload_loop.simps)
    then show ?thesis
      using True by (intro exI [of _ ?s]) simp
  next
    case False
    then have "concat bss \<noteq> []"
      using Cons.prems(1) by (cases bss) auto
    then have "0 < length (concat bss)" by simp
    moreover have "length bs + length (concat bss) = n"
      using Cons.prems(3) by simp
    ultimately have "\<not> n \<le> length bs" by linarith
    moreover have "\<exists>s'. upload_loop path (map delivers bss @ es) (int (n - length bs)) ?s = Inr (True, s') \<and>
        h_files s' = (h_files ?s)(path \<mapsto> (old @ bs) @ concat bss) \<and> h_out s' = h_out ?s \<and>
        h_conn s' = h_conn ?s"
      using Cons.prems False by (intro Cons.IH) auto
    ultimately show ?thesis
      unfolding step by auto
  qed
qed simp

text \<open>
  C21: A file that arrives in pieces is stored byte for byte: when the pieces make up the announced
  length, the loop ends normally and the file holds the pieces in order.
\<close>

theorem upload_stores_the_bytes:
  assumes "\<forall>bs\<in>set bss. bs \<noteq> [] \<and> length bs \<le> BUFSIZ" and "bss \<noteq> []"
    and "length (h_buf s) = BUFSIZ + 1" and "h_files s path = Some []"
  shows "\<exists>s'. upload_loop path (map delivers bss @ es) (int (length (concat bss))) s = Inr (True, s') \<and>
    h_files s' = (h_files s)(path \<mapsto> concat bss) \<and> h_out s' = h_out s \<and> h_conn s' = h_conn s"
  using upload_loop_stores [OF assms(1,2) refl assms(3,4), of es] by simp

theorem upload_stores_the_bytes_witness:
  "\<exists>s'. upload_loop [97] [delivers [1, 2], delivers [3]] 3
      ((example_state empty_db)\<lparr>h_files := [[97] \<mapsto> []]\<rparr>) = Inr (True, s') \<and>
    h_files s' [97] = Some [1, 2, 3]"
  using upload_stores_the_bytes [of "[[1, 2], [3]]" "(example_state empty_db)\<lparr>h_files := [[97] \<mapsto> []]\<rparr>"
    "[97]" "[]"]
  by (auto simp: BUFSIZ_def)

text \<open>
  A read that would block ends the loop as if the file were complete: with some bytes of the file
  still to come the handler stores the message with the announced length, answers 201 and keeps
  the part it has as the file.
\<close>

theorem upload_would_block_stores_part:
  assumes "\<forall>bs\<in>set bss. bs \<noteq> [] \<and> length bs \<le> BUFSIZ" and "length (concat bss) < n"
    and "length (h_buf s) = BUFSIZ + 1" and "h_files s path = Some old"
    and "up_poll e > 0" "up_pollin e" "up_read e = Read_would_block"
  shows "\<exists>s'. upload_loop path (map delivers bss @ e # es) (int n) s = Inr (True, s') \<and>
    h_files s' path = Some (old @ concat bss) \<and> h_out s' = h_out s"
  using assms(1-4)
proof (induction bss arbitrary: s old n)
  case Nil
  then show ?case using assms(5-) by auto
next
  case (Cons bs bss)
  let ?s = "keep_chunk path old bs s"
  have "upload_loop path (map delivers (bs # bss) @ e # es) (int n) s =
      upload_loop path (map delivers bss @ e # es) (int (n - length bs)) ?s"
    using Cons.prems upload_step by simp
  moreover have "\<exists>s'. upload_loop path (map delivers bss @ e # es) (int (n - length bs)) ?s = Inr (True, s') \<and>
      h_files s' path = Some ((old @ bs) @ concat bss) \<and> h_out s' = h_out ?s"
    using Cons.prems by (intro Cons.IH) auto
  ultimately show ?case by (simp del: upload_loop.simps)
qed

theorem upload_would_block_stores_part_witness:
  "\<exists>s'. upload_loop [97] [delivers [1, 2],
      \<lparr>up_poll = 1, up_pollin = True, up_read = Read_would_block, up_fs_ok = True\<rparr>] 1000
      ((example_state empty_db)\<lparr>h_files := [[97] \<mapsto> []]\<rparr>) = Inr (True, s') \<and>
    h_files s' [97] = Some [1, 2]"
  using upload_would_block_stores_part [of "[[1, 2]]" 1000
    "(example_state empty_db)\<lparr>h_files := [[97] \<mapsto> []]\<rparr>" "[97]" "[]"
    "\<lparr>up_poll = 1, up_pollin = True, up_read = Read_would_block, up_fs_ok = True\<rparr>" "[]"]
  by (auto simp: BUFSIZ_def)

section \<open>Sending a file\<close>

definition takes_all :: download_ev where
  "takes_all = \<lparr>dl_fs_ok = True, dl_poll = 1, dl_pollout = True, dl_write_ok = True\<rparr>"

lemma download_loop_sends:
  assumes "0 < k" and "length rest \<le> BUFSIZ * k" and "length (h_buf s) = BUFSIZ + 1"
  shows "\<exists>s' chunks. download_loop (replicate k takes_all) rest (int (length rest)) s = Inr s' \<and>
    h_out s' = h_out s @ chunks \<and> concat chunks = rest \<and> (\<forall>c\<in>set chunks. length c \<le> BUFSIZ) \<and>
    h_conn s' = h_conn s \<and> h_files s' = h_files s"
  using assms
proof (induction k arbitrary: rest s)
  case (Suc k)
  let ?c = "take BUFSIZ rest"
  let ?s = "s\<lparr>h_buf := ?c @ drop (length ?c) (h_buf s), h_out := h_out s @ [?c]\<rparr>"
  have step: "download_loop (replicate (Suc k) takes_all) rest (int (length rest)) s =
      (if length rest \<le> BUFSIZ then Inr ?s
       else download_loop (replicate k takes_all) (drop BUFSIZ rest) (int (length (drop BUFSIZ rest))) ?s)"
    using Suc.prems by (auto simp: takes_all_def into_buf_def mem_write_def Let_def of_nat_diff)
  show ?case
  proof (cases "length rest \<le> BUFSIZ")
    case True
    then show ?thesis
      unfolding step by (intro exI [of _ ?s] exI [of _ "[rest]"]) simp
  next
    case False
    then have k: "0 < k" using Suc.prems(2) by (cases k) auto
    have pre: "length (drop BUFSIZ rest) \<le> BUFSIZ * k" "length (h_buf ?s) = BUFSIZ + 1"
      using Suc.prems(2,3) by auto
    obtain s' chunks where "download_loop (replicate k takes_all) (drop BUFSIZ rest)
        (int (length (drop BUFSIZ rest))) ?s = Inr s'"
      "h_out s' = h_out ?s @ chunks" "concat chunks = drop BUFSIZ rest"
      "\<forall>c\<in>set chunks. length c \<le> BUFSIZ" "h_conn s' = h_conn ?s" "h_files s' = h_files ?s"
      using Suc.IH [OF k pre] by blast
    then show ?thesis
      unfolding step using False by (intro exI [of _ s'] exI [of _ "?c # chunks"]) simp
  qed
qed simp

text \<open>
  C22: A stored file is sent byte for byte: after the block that announces the length and the name,
  the socket gets the contents of the file in order, in pieces of at most one block, as long as it
  takes them; tables and files stay as they are.
\<close>

theorem download_sends_the_file:
  assumes "ready s" and "mg_content m = Some (STORAGE @ name)" "is_cstr name" "length name \<le> RESPONSE_BODY_LEN"
    and "h_files s (STORAGE @ name) = Some content" and "e_fstat_ok E"
    and "h_downloads s = replicate k takes_all" "0 < k" "length content \<le> BUFSIZ * k"
  shows "\<exists>s' rest chunks. send_stored_file E m s = Inr s' \<and>
    h_out s' = h_out s @ (response_header_wire (reply_header 200 (Rp_file (mg_content_length m) name)) @
      name @ rest) # chunks \<and>
    concat chunks = content \<and> (\<forall>c\<in>set chunks. length c \<le> BUFSIZ) \<and>
    h_conn s' = h_conn s \<and> h_files s' = h_files s"
proof -
  let ?r = "Rp_file (mg_content_length m) name"
  have ok: "reply_ok ?r" and w: "h_writes s = []" and len: "length (h_buf s) = BUFSIZ + 1"
    using assms(1,3,4) by (simp_all add: ready_def)
  obtain rest where b: "encode_reply (200, ?r) (h_buf s) =
      Inr (response_header_wire (reply_header 200 ?r) @ name @ rest)" (is "_ = Inr ?b")
    using encode_reply_wire [OF ok, of "h_buf s" 200] len by (auto simp: response_sizes)
  have blen: "length ?b = BUFSIZ + 1"
    using encode_reply_length [OF b] len by simp
  let ?s1 = "s\<lparr>h_buf := ?b, h_out := h_out s @ [take BUFSIZ ?b]\<rparr>"
  have "RESPONSE_HEADER_LEN + length name \<le> BUFSIZ"
    using assms(4) by (simp add: response_sizes)
  then have blk: "take BUFSIZ ?b = response_header_wire (reply_header 200 ?r) @ name @
      take (BUFSIZ - RESPONSE_HEADER_LEN - length name) rest"
    by (simp add: response_sizes)
  obtain s' chunks where run: "download_loop (replicate k takes_all) content (int (length content)) ?s1 = Inr s'"
    and out: "h_out s' = h_out ?s1 @ chunks" "concat chunks = content" "\<forall>c\<in>set chunks. length c \<le> BUFSIZ"
      "h_conn s' = h_conn ?s1" "h_files s' = h_files ?s1"
    using download_loop_sends [OF assms(8,9), of ?s1] blen by auto
  have "cstr ((STORAGE @ name) @ [0]) (length STORAGE) = Inr name"
    using cstr_at [OF assms(3), of "length STORAGE" STORAGE "[]"] by simp
  then have "send_stored_file E m s = Inr s'"
    using run b assms(2,5-7) w
    by (simp add: send_stored_file_def deref_def into_buf_def write_client_def)
  then show ?thesis
    using out blk by (intro exI [of _ s'] exI [of _ "take (BUFSIZ - RESPONSE_HEADER_LEN - length name) rest"]
      exI [of _ chunks]) simp
qed

definition stored_msg :: msg_schema where
  "stored_msg = \<lparr>mg_id = 1, mg_from_uid = 1, mg_reply_to = 0, mg_content_type = 1,
     mg_content_length = 3, mg_content = Some (STORAGE @ [97]), mg_created_at = 0, mg_conv_id = 1,
     mg_chat_id = 0, mg_type = 0\<rparr>"

theorem download_sends_the_file_witness:
  "\<exists>s' rest chunks. send_stored_file example_env stored_msg
      ((example_state empty_db)\<lparr>h_files := [STORAGE @ [97] \<mapsto> [1, 2, 3]], h_downloads := [takes_all]\<rparr>) = Inr s' \<and>
    h_out s' = (response_header_wire (reply_header 200 (Rp_file 3 [97])) @ [97] @ rest) # chunks \<and>
    concat chunks = [1, 2, 3]"
  using download_sends_the_file [of
      "(example_state empty_db)\<lparr>h_files := [STORAGE @ [97] \<mapsto> [1, 2, 3]], h_downloads := [takes_all]\<rparr>"
      stored_msg "[97]" "[1, 2, 3]" example_env 1]
  by (auto simp: stored_msg_def example_env_def is_cstr_def response_sizes ready_def)

text \<open>
  Downloading a file message after it was deleted reads outside the string: the deleted text is
  empty, and the handler skips the ten characters of the directory before it looks for the name.
\<close>

theorem deleted_file_download_faults:
  assumes "mg_content m = Some []"
  shows "send_stored_file E m s = Inl Out_Of_Bounds"
  using assms by (simp add: send_stored_file_def deref_def cstr_def STORAGE_def lit_def)

theorem deleted_file_download_faults_witness:
  "send_stored_file example_env (stored_msg\<lparr>mg_content := Some []\<rparr>) (example_state empty_db) =
    Inl Out_Of_Bounds"
  using deleted_file_download_faults [of "stored_msg\<lparr>mg_content := Some []\<rparr>"] by simp

end
