(* ===== verification/Fdset.thy ===== *)
theory Fdset
  imports Prelude
begin

text \<open>
  The bookkeeping of open sockets in \<^verbatim>\<open>server/src/main.c\<close>: the global set with its largest
  member, and the registration of a socket with \<^verbatim>\<open>epoll\<close>. The record is the part of the
  server's state these functions touch; the server extends it.
\<close>

definition FD_SETSIZE :: nat where
  "FD_SETSIZE = 1024"

record sockets =
  sv_listen :: nat
  sv_fdset :: "nat set"
  sv_maxfd :: nat
  sv_epoll :: "nat set"

section \<open>Operations\<close>

text \<open>The macros write to a bitmap of \<^verbatim>\<open>FD_SETSIZE\<close> bits without a check of the index.\<close>

definition fdset_add :: "nat \<Rightarrow> 'a sockets_scheme \<Rightarrow> 'a sockets_scheme res" where
  "fdset_add fd s =
     (if fd < FD_SETSIZE then
        Inr (s\<lparr>sv_fdset := insert fd (sv_fdset s),
               sv_maxfd := if fd > sv_maxfd s then fd else sv_maxfd s\<rparr>)
      else Inl Out_Of_Bounds)"

fun lower_maxfd :: "nat set \<Rightarrow> nat \<Rightarrow> nat res" where
  "lower_maxfd fds 0 = (if 0 \<in> fds then Inr 0 else Inl Out_Of_Bounds)"
| "lower_maxfd fds (Suc m) = (if Suc m \<in> fds then Inr (Suc m) else lower_maxfd fds m)"

definition fdset_clr :: "nat \<Rightarrow> 'a sockets_scheme \<Rightarrow> 'a sockets_scheme res" where
  "fdset_clr fd s =
     (if fd < FD_SETSIZE then
        let s' = s\<lparr>sv_fdset := sv_fdset s - {fd}\<rparr>
        in if fd = sv_maxfd s
           then bindE (lower_maxfd (sv_fdset s') (sv_maxfd s')) (\<lambda>m. Inr (s'\<lparr>sv_maxfd := m\<rparr>))
           else Inr s'
      else Inl Out_Of_Bounds)"

text \<open>\<^verbatim>\<open>close_sock\<close>; closing a socket also ends its registration.\<close>

definition srv_close_sock :: "nat \<Rightarrow> 'a sockets_scheme \<Rightarrow> 'a sockets_scheme res" where
  "srv_close_sock fd s = fdset_clr fd (s\<lparr>sv_epoll := sv_epoll s - {fd}\<rparr>)"

text \<open>Every socket of the set is closed when the server shuts down.\<close>

definition shutdown_closes :: "'a sockets_scheme \<Rightarrow> nat list" where
  "shutdown_closes s = filter (\<lambda>i. i \<in> sv_fdset s) [0..<FD_SETSIZE]"

section \<open>The invariant\<close>

definition fds_ok :: "'a sockets_scheme \<Rightarrow> bool" where
  "fds_ok s \<longleftrightarrow>
     sv_listen s \<in> sv_fdset s \<and> sv_epoll s \<subseteq> sv_fdset s \<and>
     sv_maxfd s \<in> sv_fdset s \<and> (\<forall>x\<in>sv_fdset s. x \<le> sv_maxfd s) \<and> sv_maxfd s < FD_SETSIZE"

lemma lower_maxfd_largest:
  assumes "\<forall>x\<in>fds. x \<le> m" and "fds \<noteq> {}"
  shows "\<exists>k\<in>fds. lower_maxfd fds m = Inr k \<and> (\<forall>x\<in>fds. x \<le> k)"
  using assms(1)
proof (induction m)
  case 0
  with assms(2) have "fds = {0}" by auto
  then show ?case by simp
next
  case (Suc m)
  show ?case
  proof (cases "Suc m \<in> fds")
    case True
    with Suc.prems show ?thesis by auto
  next
    case False
    then have "\<forall>x\<in>fds. x \<le> m"
      using Suc.prems by (metis le_SucE)
    with Suc.IH False show ?thesis by simp
  qed
qed

lemma fdset_add_ok:
  assumes "fds_ok s" and "fdset_add fd (s\<lparr>sv_epoll := insert fd (sv_epoll s)\<rparr>) = Inr s'"
  shows "fds_ok s'"
  using assms
  by (auto simp: fdset_add_def fds_ok_def split: if_splits) (metis less_imp_le order_trans)

lemma fdset_clr_total:
  assumes "fds_ok s" and "fd < FD_SETSIZE" "fd \<noteq> sv_listen s"
  shows "\<exists>m. fdset_clr fd s = Inr (s\<lparr>sv_fdset := sv_fdset s - {fd}, sv_maxfd := m\<rparr>) \<and>
    m \<in> sv_fdset s - {fd} \<and> (\<forall>x\<in>sv_fdset s - {fd}. x \<le> m)"
proof (cases "fd = sv_maxfd s")
  case True
  have "\<exists>k\<in>sv_fdset s - {fd}. lower_maxfd (sv_fdset s - {fd}) (sv_maxfd s) = Inr k \<and>
      (\<forall>x\<in>sv_fdset s - {fd}. x \<le> k)"
    using assms by (intro lower_maxfd_largest) (auto simp: fds_ok_def)
  with True assms(2) show ?thesis
    by (auto simp: fdset_clr_def)
next
  case False
  with assms show ?thesis
    by (auto simp: fdset_clr_def fds_ok_def intro!: exI [of _ "sv_maxfd s"])
qed

lemma srv_close_sock_ok:
  assumes "fds_ok s" and "fd < FD_SETSIZE" "fd \<noteq> sv_listen s"
  shows "\<exists>s'. srv_close_sock fd s = Inr s' \<and> fds_ok s' \<and> sv_listen s' = sv_listen s \<and>
    sv_fdset s' = sv_fdset s - {fd} \<and> sv_epoll s' = sv_epoll s - {fd}"
proof -
  let ?s = "s\<lparr>sv_epoll := sv_epoll s - {fd}\<rparr>"
  have "fds_ok ?s" "fd \<noteq> sv_listen ?s"
    using assms by (auto simp: fds_ok_def)
  then obtain m where m: "srv_close_sock fd s = Inr (?s\<lparr>sv_fdset := sv_fdset ?s - {fd}, sv_maxfd := m\<rparr>)"
    "m \<in> sv_fdset ?s - {fd}" "\<forall>x\<in>sv_fdset ?s - {fd}. x \<le> m"
    using fdset_clr_total [OF _ assms(2), of ?s] unfolding srv_close_sock_def by blast
  moreover have "m < FD_SETSIZE"
    using m(2) assms(1) by (auto simp: fds_ok_def intro: le_less_trans)
  ultimately show ?thesis
    using assms by (auto simp: fds_ok_def)
qed

text \<open>
  The largest open socket is tracked exactly: as long as the listening socket stays open,
  closing any other socket ends, takes just that socket out of the set and out of the
  registration, and leaves the largest of the remaining ones in \<^verbatim>\<open>maxfd\<close>.
\<close>

theorem close_sock_tracks_maximum:
  assumes "fds_ok s" and "fd < FD_SETSIZE" "fd \<noteq> sv_listen s"
  shows "\<exists>s'. srv_close_sock fd s = Inr s' \<and> sv_fdset s' = sv_fdset s - {fd} \<and>
    fd \<notin> sv_epoll s' \<and> sv_maxfd s' = Max (sv_fdset s')"
proof -
  obtain s' where s': "srv_close_sock fd s = Inr s'" "fds_ok s'" "sv_fdset s' = sv_fdset s - {fd}"
    "sv_epoll s' = sv_epoll s - {fd}"
    using srv_close_sock_ok [OF assms] by blast
  have "finite (sv_fdset s')"
    using s'(2) by (auto simp: fds_ok_def intro: finite_subset [of _ "{..sv_maxfd s'}"])
  then have "Max (sv_fdset s') = sv_maxfd s'"
    using s'(2) by (intro Max_eqI) (auto simp: fds_ok_def)
  with s' show ?thesis by auto
qed

theorem close_sock_tracks_maximum_witness:
  "\<exists>s'. srv_close_sock 9 \<lparr>sv_listen = 3, sv_fdset = {3, 5, 9}, sv_maxfd = 9, sv_epoll = {3, 5, 9}\<rparr> = Inr s' \<and>
    sv_fdset s' = {3, 5} \<and> sv_maxfd s' = 5"
  using close_sock_tracks_maximum [of "\<lparr>sv_listen = 3, sv_fdset = {3, 5, 9}, sv_maxfd = 9, sv_epoll = {3, 5, 9}\<rparr>" 9]
  by (auto simp: fds_ok_def FD_SETSIZE_def insert_Diff_if)

text \<open>
  A shutdown closes every socket that is open, each exactly once.
\<close>

theorem shutdown_closes_all:
  assumes "fds_ok s"
  shows "set (shutdown_closes s) = sv_fdset s \<and> distinct (shutdown_closes s) \<and>
    sv_epoll s \<subseteq> set (shutdown_closes s)"
  using assms by (auto simp: shutdown_closes_def fds_ok_def dest: le_less_trans)

theorem shutdown_closes_all_witness:
  "set (shutdown_closes \<lparr>sv_listen = 3, sv_fdset = {3, 5}, sv_maxfd = 5, sv_epoll = {3}\<rparr>) = {3, 5}"
  using shutdown_closes_all [of "\<lparr>sv_listen = 3, sv_fdset = {3, 5}, sv_maxfd = 5, sv_epoll = {3}\<rparr>"]
  by (simp add: fds_ok_def FD_SETSIZE_def)

end
