(* ===== verification/Handler_Keeps.thy ===== *)
theory Handler_Keeps
  imports Handler_Facts
begin

text \<open>
  The integrity of the database under the server: every handler, and so every request the server
  handles, keeps each invariant of the tables that the statements keep. This is proved once, in
  the locale of such invariants, and holds for the uniqueness of the keys and, with foreign keys
  on, for the references.
\<close>

section \<open>Paths of stored files\<close>

lemma takeWhile_before: "\<not> P y \<Longrightarrow> set (takeWhile P (xs @ y # ys)) \<subseteq> set xs"
  by (induction xs) auto

lemma stored_path_plain:
  assumes "md5_ok md5" and "plain fname" and "process_fname md5 now fname res = Inr b"
    and "storage_path b = Inr path"
  shows "plain path \<and> length path \<le> 1023"
proof -
  obtain h where h: "\<exists>str. hash_str md5 str = Some h"
    and b: "writes [(0, h @ [0]), (2 * HASHED_LEN, stored_ext fname @ [0])] res = Inr b"
    using assms(3)
    by (auto simp: process_fname_def stored_ext_def Let_def simp del: writes.simps
        split: if_splits option.splits)
  have len: "length h = 32" and hex: "list_all is_hex h"
    using h length_hash_str [OF assms(1)] hash_str_hex by blast+
  have b_eq: "b = (h @ stored_ext fname) @ 0 # drop (length (stored_ext fname) + 33) res"
    using b len by (auto simp: mem_write_def HASHED_LEN_def split: if_splits)
  have "set (stored_ext fname) \<subseteq> set fname"
    by (auto simp: stored_ext_def Let_def dest: in_set_dropD)
  then have ok: "QUOTE \<notin> set (h @ stored_ext fname)"
    using assms(2) hex is_hex_not_quote by (auto simp: plain_def list_all_iff)
  obtain name where name: "cstr b 0 = Inr name"
    and path: "path = take (BUFSIZ - 1) (STORAGE @ name)" "length path \<le> 1023"
    using assms(4) by (auto simp: storage_path_def bindE_eq_Inr_iff Let_def split: if_splits)
  have "set name \<subseteq> set (h @ stored_ext fname)"
    using name takeWhile_before [of "\<lambda>x. x \<noteq> 0" 0 "h @ stored_ext fname"]
    unfolding b_eq by (auto simp: cstr_def)
  moreover have "QUOTE \<notin> set STORAGE"
    by (simp add: STORAGE_def lit_def QUOTE_def)
  ultimately have "QUOTE \<notin> set (STORAGE @ name)"
    using ok by auto
  then have "plain path"
    unfolding path(1) plain_def by (meson in_set_takeD)
  with path(2) show ?thesis by simp
qed

section \<open>Every handler\<close>

lemma known_search:
  assumes "plain u" and "length u \<le> 400"
  shows "snprintf_query QUERY_SMALL (Search_users u (sint (l :: i32)) (sint (f :: i32))) =
    Known (Search_users u (sint l) (sint f))"
  using assms length_dec_int_i32 [of l] length_dec_int_i32 [of f]
  by (simp add: snprintf_query_def QUERY_SMALL_def)

context db_invariant
begin

lemma register_keeps:
  assumes "conn_inv Inv fkr (h_conn s)" and "tame_body (R_auth ra)" and "md5_ok (e_md5 E)"
  shows "post (\<lambda>s'. conn_inv Inv fkr (h_conn s')) (handle_auth_register E ra s)"
proof -
  have "conn_inv Inv fkr c"
    if h: "hash_str (e_md5 E) p = Some h" and run: "user_create (e_sql E) \<lparr>us_id = 0, us_uname = ra_uname ra,
      us_password = Some h, us_phone = ra_phone ra, us_email = ra_email ra\<rparr> (h_conn s) = Inr (v, rc, c)"
    for p h v rc c
  proof -
    obtain u ph e where s: "ra_uname ra = Some u" "ra_phone ra = Some ph" "ra_email ra = Some e"
      using run by (auto simp: user_create_def cstring_arg_def bindE_eq_Inr_iff split: option.splits)
    have "plain u" "plain ph" "plain e" "length u + length h + length ph + length e \<le> 430"
      using assms(2) s length_hash_str [OF assms(3) h] by (auto simp: tame_body_def)
    then have "snprintf_query QUERY_SMALL (Ins_user u h ph e) = Known (Ins_user u h ph e)"
      using plain_hash [OF h] by (intro known_ins_user)
    then show ?thesis
      using user_create_keeps [OF _ _ assms(1) run] s by simp
  qed
  then show ?thesis
    using assms(1) unfolding handle_auth_register_def by (intro post_rules) auto
qed

lemma login_keeps:
  assumes "conn_inv Inv fkr (h_conn s)" and "tame_body (R_auth ra)"
  shows "post (\<lambda>s'. conn_inv Inv fkr (h_conn s')) (handle_auth_login E ra s)"
proof -
  have "conn_inv Inv fkr c"
    if run: "user_get_by_uname (e_sql E) (ra_uname ra) (h_conn s) = Inr (v, rc, c)" for v rc c
  proof -
    obtain u where u: "ra_uname ra = Some u"
      using run by (auto simp: user_get_by_uname_def cstring_arg_def bindE_eq_Inr_iff split: option.splits)
    have "snprintf_query QUERY_SMALL (Sel_user_by_uname u) = Known (Sel_user_by_uname u)"
      using assms(2) u by (intro known_sel_uname) (auto simp: tame_body_def)
    then show ?thesis
      using user_get_by_uname_keeps [OF u _ assms(1) run] by blast
  qed
  then show ?thesis
    using assms(1) unfolding handle_auth_login_def by (intro post_rules) auto
qed

lemma user_handlers_keep:
  assumes "conn_inv Inv fkr (h_conn s)" and "tame_body (R_user ru)"
  shows "post (\<lambda>s'. conn_inv Inv fkr (h_conn s')) (dispatch_user E header ru s)"
proof -
  have search: "conn_inv Inv fkr c"
    if run: "user_search_by_uname Q (ru_uname ru) l f (h_conn s) = Inr (v, rc, c)" for Q l f v rc c
  proof -
    obtain u where u: "ru_uname ru = Some u"
      using run by (auto simp: user_search_by_uname_def cstring_arg_def bindE_eq_Inr_iff split: option.splits)
    then show ?thesis
      using user_search_keeps [OF u known_search assms(1) run] assms(2) by (simp add: tame_body_def)
  qed
  show ?thesis
    unfolding dispatch_user_def handle_user_get_info_def handle_user_search_def handle_logout_def
    by (intro post_rules)
      (use assms(1) in \<open>auto dest: user_get_by_id_keeps [rotated] search write_client_frame(1)
        intro!: post_rules split: prod.splits\<close>)
qed

lemma conv_handlers_keep:
  assumes "conn_inv Inv fkr (h_conn s)" and "tame_body (R_conv rconv)"
  shows "post (\<lambda>s'. conn_inv Inv fkr (h_conn s')) (dispatch_conv E header rconv s)"
proof -
  have create: "conn_inv Inv fkr c"
    if run: "conv_create Q a (rc_gname rconv) (h_conn s) = Inr (v, rc, c)" for Q a v rc c
  proof (cases "rc_gname rconv")
    case None
    then show ?thesis
      using run assms(1)
      by (auto simp: conv_create_def cstring_arg_def simp del: exec.simps
          split: prod.splits if_splits dest: exec_pair_keeps)
  next
    case (Some g)
    then have "snprintf_query QUERY_SMALL (Ins_conv (unat a) g) = Known (Ins_conv (unat a) g)"
      using assms(2) by (intro known_ins_conv) (auto simp: tame_body_def)
    then show ?thesis
      using conv_create_keeps [OF Some _ assms(1) run] by blast
  qed
  show ?thesis
    unfolding dispatch_conv_def handle_conv_create_def handle_conv_drop_def handle_conv_join_def
      handle_conv_quit_def handle_conv_get_info_def handle_conv_get_members_def
      handle_conv_get_list_def
    by (intro post_rules)
      (use assms(1) in \<open>auto dest: create test_functions_keep [rotated] write_functions_keep [rotated]
        info_functions_keep [rotated] list_functions_keep [rotated]\<close>)
qed

lemma chat_handlers_keep:
  assumes "conn_inv Inv fkr (h_conn s)"
  shows "post (\<lambda>s'. conn_inv Inv fkr (h_conn s')) (dispatch_chat E header rchat s)"
  unfolding dispatch_chat_def handle_chat_create_def handle_chat_drop_def
    handle_chat_get_list_def handle_chat_get_info_def
  by (intro post_rules)
    (use assms(1) in \<open>auto dest: chat_create_keeps [rotated] test_functions_keep [rotated]
      write_functions_keep [rotated] info_functions_keep [rotated] list_functions_keep [rotated]\<close>)

lemma require_member_keeps:
  assumes "conn_inv Inv fkr (h_conn s)"
    and "\<And>s1. conn_inv Inv fkr (h_conn s1) \<Longrightarrow> post (\<lambda>s'. conn_inv Inv fkr (h_conn s')) (k s1)"
  shows "post (\<lambda>s'. conn_inv Inv fkr (h_conn s')) (require_member E header cid hid action k s)"
  unfolding require_member_def
  by (intro post_rules) (use assms in \<open>auto dest: test_functions_keep [rotated]\<close>)

lemma with_msg_keeps:
  assumes "conn_inv Inv fkr (h_conn s)"
    and "\<And>m s1. conn_inv Inv fkr (h_conn s1) \<Longrightarrow> post (\<lambda>s'. conn_inv Inv fkr (h_conn s')) (k m s1)"
  shows "post (\<lambda>s'. conn_inv Inv fkr (h_conn s')) (with_msg E header mid action k s)"
  unfolding with_msg_def
  by (intro post_rules require_member_keeps)
    (use assms in \<open>auto dest: info_functions_keep [rotated]\<close>)

lemma msg_send_plain_keeps:
  assumes "conn_inv Inv fkr c" and "msg_send Q now msg c = Inr (v, rc, c')"
    and "\<And>t. mg_content msg = Some t \<Longrightarrow> plain t \<and> length t \<le> 7900"
  shows "conn_inv Inv fkr c'"
proof (cases "mg_content msg")
  case None
  then show ?thesis
    using assms(1,2)
    by (auto simp: msg_send_def cstring_arg_def numeric_queries simp del: exec.simps
        split: prod.splits if_splits dest: exec1_keeps)
next
  case (Some t)
  with assms(3) have "plain t" "length t \<le> 7900" by auto
  then show ?thesis
    using msg_send_keeps [OF Some known_ins_msg assms(1,2)] by blast
qed

lemma send_text_keeps:
  assumes "conn_inv Inv fkr (h_conn s)" and "tame_body (R_msg rm)"
  shows "post (\<lambda>s'. conn_inv Inv fkr (h_conn s')) (send_text E header rm s)"
proof -
  have "conn_inv Inv fkr c"
    if "msg_send Q t (new_msg header rm n (rm_msg_content rm)) (h_conn s) = Inr (v, rc, c)"
    for Q t n v rc c
    using msg_send_plain_keeps [OF assms(1) that] assms(2) by (auto simp: new_msg_def tame_body_def)
  then show ?thesis
    unfolding send_text_def by (intro post_rules) (use assms(1) in auto)
qed

lemma save_file_keeps:
  assumes "conn_inv Inv fkr (h_conn s)" and "plain path" "length path \<le> 1023"
  shows "post (\<lambda>s'. conn_inv Inv fkr (h_conn s')) (save_file E header rm path s)"
proof -
  have "conn_inv Inv fkr c"
    if "msg_send Q t (new_msg header rm n (Some path)) (h_conn s) = Inr (v, rc, c)" for Q t n v rc c
    using msg_send_plain_keeps [OF assms(1) that] assms(2,3) by (auto simp: new_msg_def)
  then show ?thesis
    unfolding save_file_def Let_def by (intro post_rules) (use assms(1) in auto)
qed

lemma send_file_keeps:
  assumes "conn_inv Inv fkr (h_conn s)" and "tame_body (R_msg rm)" and "md5_ok (e_md5 E)"
  shows "post (\<lambda>s'. conn_inv Inv fkr (h_conn s')) (send_file E header rm s)"
  unfolding send_file_def
proof (intro post_deref post_into_buf post_bind [where m = "storage_path x" for x] post_if
    post_response_err post_bind_pair post_Inr)
  fix name b path fin s2
  assume name: "rm_msg_content rm = Some name"
    and b: "process_fname (e_md5 E) (e_now E) name (h_buf s) = Inr b"
    and path: "storage_path (h_buf (s\<lparr>h_buf := b\<rparr>)) = Inr path"
    and up: "upload_loop path (h_uploads (s\<lparr>h_buf := b\<rparr>)) (int (unat (rq_content_len header)))
      ((s\<lparr>h_buf := b\<rparr>)\<lparr>h_files := (h_files (s\<lparr>h_buf := b\<rparr>))(path \<mapsto> [])\<rparr>) = Inr (fin, s2)"
  have "plain path \<and> length path \<le> 1023"
    using stored_path_plain [OF assms(3) _ b] path assms(2) name by (simp add: tame_body_def)
  moreover have "conn_inv Inv fkr (h_conn s2)"
    using upload_loop_conn [OF up] assms(1) by simp
  ultimately show "conn_inv Inv fkr (h_conn s2)"
    and "post (\<lambda>s'. conn_inv Inv fkr (h_conn s')) (save_file E header rm path s2)"
    by (simp_all add: save_file_keeps)
qed (use assms(1) in simp_all)

lemma send_stored_file_keeps:
  assumes "conn_inv Inv fkr (h_conn s)"
  shows "post (\<lambda>s'. conn_inv Inv fkr (h_conn s')) (send_stored_file E m s)"
  unfolding send_stored_file_def
  by (intro post_deref post_into_buf post_bind [where m = "cstr x y" for x y] post_write post_if
      post_option post_Inr)
    (use assms in \<open>auto simp: post_def dest!: write_client_frame(1) download_loop_conn\<close>)

lemma msg_handlers_keep:
  assumes "conn_inv Inv fkr (h_conn s)" and "tame_body (R_msg rm)" and "md5_ok (e_md5 E)"
  shows "post (\<lambda>s'. conn_inv Inv fkr (h_conn s')) (dispatch_msg E header rm s)"
  unfolding dispatch_msg_def handle_msg_get_all_def handle_msg_get_detail_def handle_msg_send_def
    handle_msg_delete_def handle_notify_new_msg_def handle_notify_del_msg_def
    handle_msg_download_file_def Let_def
  by (intro post_rules require_member_keeps with_msg_keeps send_text_keeps send_file_keeps
      send_stored_file_keeps)
    (use assms in \<open>auto dest: write_functions_keep [rotated] list_functions_keep [rotated]
      split: if_splits\<close>)

lemma reply_plain_keeps:
  "conn_inv Inv fkr (h_conn s) \<Longrightarrow> post (\<lambda>s'. conn_inv Inv fkr (h_conn s')) (reply_plain f s)"
  unfolding reply_plain_def
  by (intro post_into_buf post_write post_Inr) (auto dest: write_client_frame(1))

lemma handle_request_keeps:
  assumes "conn_inv Inv fkr (h_conn s)" and "tame req" and "md5_ok (e_md5 E)"
  shows "post (\<lambda>s'. conn_inv Inv fkr (h_conn s')) (handle_request E req s)"
proof (cases req)
  case None
  with assms show ?thesis by (simp add: handle_request_def reply_plain_keeps)
next
  case (Some r)
  have "tame_body (rq_body r)"
    using assms(2) by (simp add: Some tame_def)
  then have "post (\<lambda>s'. conn_inv Inv fkr (h_conn s')) (dispatch_body E (rq_header r) (rq_body r) s)"
    using assms(1,3)
    by (cases "rq_body r")
      (auto simp: dispatch_body_def intro: post_rules register_keeps login_keeps user_handlers_keep
        conv_handlers_keep chat_handlers_keep msg_handlers_keep)
  then show ?thesis
    using assms(1) by (simp add: Some handle_request_def Let_def reply_plain_keeps)
qed

lemma handle_req_keeps:
  assumes "conn_inv Inv fkr (h_conn s)" and "md5_ok (e_md5 E)"
    and "\<And>n b req. recv_loop evs 0 (h_buf s) = Inr (Some n, b) \<Longrightarrow> request_parse b = Inr req \<Longrightarrow> tame req"
    and "handle_req E evs s = Inr s'"
  shows "conn_inv Inv fkr (h_conn s')"
proof -
  obtain n b where rv: "recv_loop evs 0 (h_buf s) = Inr (n, b)"
    using assms(4) by (auto simp: handle_req_def bindE_eq_Inr_iff)
  show ?thesis
  proof (cases n)
    case None
    then show ?thesis
      using assms(1,4) by (auto simp: handle_req_def rv Let_def)
  next
    case (Some k)
    then obtain req s1 where req: "request_parse b = Inr req"
      and s1: "handle_request E req (s\<lparr>h_buf := b\<rparr>) = Inr s1" "s' = rearm E s1"
      using assms(4) by (auto simp: handle_req_def rv Let_def bindE_eq_Inr_iff)
    have "post (\<lambda>s'. conn_inv Inv fkr (h_conn s')) (handle_request E req (s\<lparr>h_buf := b\<rparr>))"
      using assms(1,2) assms(3) [OF rv [unfolded Some] req] by (intro handle_request_keeps) simp_all
    with s1 show ?thesis by (simp add: post_def)
  qed
qed

end

end
