(* ===== verification/Server.thy ===== *)
theory Server
  imports Fdset Handler_Keeps Handler_Props
begin

text \<open>
  The rest of \<^verbatim>\<open>server/src/main.c\<close>: accepting a client, and the loop of a worker that passes the events of \<^verbatim>\<open>epoll\<close> to the handler. A socket's registration
  with \<^verbatim>\<open>epoll\<close> is the set \<open>sv_epoll\<close>; one-shot registration makes sure that no two workers handle
  the same socket at the same time. What the kernel and the peer do is part of the events: the
  result of \<^verbatim>\<open>accept\<close>, and for a request what the socket delivers and takes.
\<close>

record server = sockets +
  sv_exited :: bool
  sv_conn :: conn
  sv_files :: "bytes \<rightharpoonup> bytes"

section \<open>Events\<close>

record accept_ev =
  ac_fd :: "nat option"
  ac_sockopt_ok :: bool
  ac_epoll_ok :: bool

definition accept_new_client :: "accept_ev \<Rightarrow> server \<Rightarrow> server res" where
  "accept_new_client e s =
     (case ac_fd e of
        None \<Rightarrow> Inr s
      | Some csock \<Rightarrow>
          if \<not> ac_sockopt_ok e then Inr (s\<lparr>sv_exited := True\<rparr>)
          else if \<not> ac_epoll_ok e then Inr s
          else fdset_add csock (s\<lparr>sv_epoll := insert csock (sv_epoll s)\<rparr>))"

text \<open>
  One event of a client: the environment of the handler, the bytes on its stack, and the scripts
  of what the socket delivers and takes.
\<close>

record client_ev =
  cl_env :: env
  cl_stack :: bytes
  cl_recv :: "recv_ev list"
  cl_writes :: "int list"
  cl_uploads :: "upload_ev list"
  cl_downloads :: "download_ev list"

definition session :: "client_ev \<Rightarrow> server \<Rightarrow> hstate" where
  "session e s = \<lparr>h_buf = cl_stack e, h_conn = sv_conn s, h_files = sv_files s, h_out = [],
     h_closes = 0, h_tracked = True, h_close_conn = False, h_rearmed = False,
     h_writes = cl_writes e, h_uploads = cl_uploads e, h_downloads = cl_downloads e\<rparr>"

definition handle_client :: "nat \<Rightarrow> client_ev \<Rightarrow> server \<Rightarrow> server res" where
  "handle_client fd e s =
     bindE (handle_req (cl_env e) (cl_recv e) (session e s)) (\<lambda>h.
       let s' = s\<lparr>sv_conn := h_conn h, sv_files := h_files h\<rparr>
       in if \<not> h_tracked h then srv_close_sock fd s'
          else if h_closes h > 0 then Inr (s'\<lparr>sv_epoll := sv_epoll s - {fd}\<rparr>)
          else Inr s')"

text \<open>An event: the socket, whether it is readable, and what happens on it.\<close>

datatype epoll_event = Epoll_event nat bool accept_ev client_ev

fun handle_event :: "epoll_event \<Rightarrow> server \<Rightarrow> server res" where
  "handle_event (Epoll_event fd epollin a c) s =
     (if epollin then
        if fd = sv_listen s then accept_new_client a s else handle_client fd c s
      else Inr s)"

text \<open>The worker: the events it gets, in order, until the process has ended.\<close>

fun th_func :: "epoll_event list \<Rightarrow> server \<Rightarrow> server res" where
  "th_func [] s = Inr s"
| "th_func (e # es) s =
     bindE (handle_event e s) (\<lambda>s'. if sv_exited s' then Inr s' else th_func es s')"

definition start_server :: "nat \<Rightarrow> db \<Rightarrow> server" where
  "start_server fd d = \<lparr>sv_listen = fd, sv_fdset = {fd}, sv_maxfd = fd, sv_epoll = {fd},
     sv_exited = False, sv_conn = start_conn d, sv_files = (\<lambda>_. None)\<rparr>"

section \<open>Histories of the server\<close>

text \<open>
  What is relied on of an event: it is on a registered socket, \<^verbatim>\<open>accept\<close> returns a descriptor that
  is not in use, the digest has its length, and the strings of the request can be carried by the
  statements of the data access layer.
\<close>

definition tame_client :: "client_ev \<Rightarrow> bool" where
  "tame_client c \<longleftrightarrow> md5_ok (e_md5 (cl_env c)) \<and>
     (\<forall>n b req. recv_loop (cl_recv c) 0 (cl_stack c) = Inr (Some n, b) \<longrightarrow>
        request_parse b = Inr req \<longrightarrow> tame req)"

fun event_ok :: "server \<Rightarrow> epoll_event \<Rightarrow> bool" where
  "event_ok s (Epoll_event fd epollin a c) \<longleftrightarrow>
     fd \<in> sv_epoll s \<and> (\<forall>n. ac_fd a = Some n \<longrightarrow> n \<notin> sv_epoll s \<and> n \<noteq> sv_listen s) \<and> tame_client c"

inductive served :: "server \<Rightarrow> server \<Rightarrow> bool" for s0 where
  served_start: "served s0 s0"
| served_event: "served s0 s \<Longrightarrow> \<not> sv_exited s \<Longrightarrow> event_ok s e \<Longrightarrow> handle_event e s = Inr s' \<Longrightarrow>
    served s0 s'"

inductive_cases served_eventE: "served s0 s"

lemma fdset_frame:
  "fdset_add fd s = Inr s' \<Longrightarrow> sv_conn s' = sv_conn s \<and> sv_listen s' = sv_listen s"
  "fdset_clr fd s = Inr s' \<Longrightarrow> sv_conn s' = sv_conn s \<and> sv_listen s' = sv_listen s"
  "srv_close_sock fd s = Inr s' \<Longrightarrow> sv_conn s' = sv_conn s \<and> sv_listen s' = sv_listen s"
  by (auto simp: fdset_add_def fdset_clr_def srv_close_sock_def Let_def bindE_eq_Inr_iff split: if_splits)

lemma handle_client_cases:
  assumes "handle_client fd c s = Inr s'"
  obtains h where "handle_req (cl_env c) (cl_recv c) (session c s) = Inr h"
    and "sv_conn s' = h_conn h" "sv_listen s' = sv_listen s"
    and "srv_close_sock fd (s\<lparr>sv_conn := h_conn h, sv_files := h_files h\<rparr>) = Inr s' \<or>
      s' = s\<lparr>sv_conn := h_conn h, sv_files := h_files h, sv_epoll := sv_epoll s - {fd}\<rparr> \<or>
      s' = s\<lparr>sv_conn := h_conn h, sv_files := h_files h\<rparr>"
proof -
  obtain h where h: "handle_req (cl_env c) (cl_recv c) (session c s) = Inr h"
    using assms by (auto simp: handle_client_def bindE_eq_Inr_iff)
  show thesis
    using assms h by (intro that [OF h])
      (auto simp: handle_client_def Let_def split: if_splits dest: fdset_frame(3))
qed

lemma handle_event_cases:
  assumes "handle_event (Epoll_event fd epollin a c) s = Inr s'"
  shows "s' = s \<or> accept_new_client a s = Inr s' \<or> fd \<noteq> sv_listen s \<and> handle_client fd c s = Inr s'"
  using assms by (cases epollin; cases "fd = sv_listen s") simp_all

lemma accept_fds_ok:
  assumes "fds_ok s" and "accept_new_client a s = Inr s'"
  shows "fds_ok s' \<and> sv_listen s' = sv_listen s"
proof (cases "ac_fd a")
  case None
  with assms show ?thesis by (simp add: accept_new_client_def)
next
  case (Some fd)
  then show ?thesis
    using assms fdset_add_ok [OF assms(1), of fd s'] fdset_frame(1) [of fd _ s']
    by (cases "ac_sockopt_ok a"; cases "ac_epoll_ok a")
      (simp_all add: accept_new_client_def, auto simp: fds_ok_def)
qed

lemma handle_event_fds_ok:
  assumes "fds_ok s" and "event_ok s e" and "handle_event e s = Inr s'"
  shows "fds_ok s' \<and> sv_listen s' = sv_listen s"
proof (cases e)
  case (Epoll_event fd epollin a c)
  consider "s' = s" | "accept_new_client a s = Inr s'" | "fd \<noteq> sv_listen s" "handle_client fd c s = Inr s'"
    using handle_event_cases assms(3) unfolding Epoll_event by blast
  then show ?thesis
  proof cases
    case 1
    with assms(1) show ?thesis by simp
  next
    case 2
    with assms(1) show ?thesis by (rule accept_fds_ok)
  next
    case 3
    have fd: "fd < FD_SETSIZE"
      using assms(1,2) by (auto simp: Epoll_event fds_ok_def intro: le_less_trans)
    from 3(2) show ?thesis
    proof (rule handle_client_cases)
      fix h
      let ?s = "s\<lparr>sv_conn := h_conn h, sv_files := h_files h\<rparr>"
      assume l: "sv_listen s' = sv_listen s"
        and "srv_close_sock fd ?s = Inr s' \<or>
          s' = s\<lparr>sv_conn := h_conn h, sv_files := h_files h, sv_epoll := sv_epoll s - {fd}\<rparr> \<or> s' = ?s"
      moreover have "fds_ok ?s" "fd \<noteq> sv_listen ?s"
        using assms(1) 3(1) by (auto simp: fds_ok_def)
      ultimately show ?thesis
        using srv_close_sock_ok [OF _ fd, of ?s] assms(1) by (auto simp: fds_ok_def)
    qed
  qed
qed

lemma served_fds_ok: "served s0 s \<Longrightarrow> fds_ok s0 \<Longrightarrow> fds_ok s \<and> sv_listen s = sv_listen s0"
  by (induction rule: served.induct) (auto dest: handle_event_fds_ok)

text \<open>Between the events of a worker nothing happens that is not a step of a history.\<close>

fun events_ok :: "epoll_event list \<Rightarrow> server \<Rightarrow> bool" where
  "events_ok [] s \<longleftrightarrow> True"
| "events_ok (e # es) s \<longleftrightarrow> event_ok s e \<and>
     (\<forall>s'. handle_event e s = Inr s' \<longrightarrow> \<not> sv_exited s' \<longrightarrow> events_ok es s')"

lemma th_func_served:
  "served s0 s \<Longrightarrow> \<not> sv_exited s \<Longrightarrow> events_ok es s \<Longrightarrow> th_func es s = Inr s' \<Longrightarrow> served s0 s'"
proof (induction es arbitrary: s)
  case (Cons e es)
  obtain s1 where s1: "handle_event e s = Inr s1" "(if sv_exited s1 then Inr s1 else th_func es s1) = Inr s'"
    using Cons.prems(4) by (auto simp: bindE_eq_Inr_iff)
  have "served s0 s1"
    using Cons.prems s1(1) by (auto intro: served_event)
  then show ?case
    using Cons.IH Cons.prems(3) s1 by (auto split: if_splits)
qed simp

section \<open>The integrity of the database\<close>

context db_invariant
begin

lemma handle_event_keeps:
  assumes "conn_inv Inv fkr (sv_conn s)" and "event_ok s e" and "handle_event e s = Inr s'"
  shows "conn_inv Inv fkr (sv_conn s')"
proof (cases e)
  case (Epoll_event fd epollin a c)
  consider "s' = s" | "accept_new_client a s = Inr s'" | "handle_client fd c s = Inr s'"
    using handle_event_cases assms(3) unfolding Epoll_event by blast
  then show ?thesis
  proof cases
    case 1
    with assms(1) show ?thesis by simp
  next
    case 2
    then have "sv_conn s' = sv_conn s"
      by (auto simp: accept_new_client_def split: option.splits if_splits dest: fdset_frame(1))
    with assms(1) show ?thesis by simp
  next
    case 3
    have start: "conn_inv Inv fkr (h_conn (session c s))" "h_buf (session c s) = cl_stack c"
      using assms(1) by (simp_all add: session_def)
    have "tame_client c"
      using assms(2) by (simp add: Epoll_event)
    then have tame: "md5_ok (e_md5 (cl_env c))"
      "recv_loop (cl_recv c) 0 (h_buf (session c s)) = Inr (Some n, b) \<Longrightarrow> request_parse b = Inr req \<Longrightarrow> tame req"
      for n b req
      by (auto simp: tame_client_def start(2))
    from 3 obtain h where h: "handle_req (cl_env c) (cl_recv c) (session c s) = Inr h"
      "sv_conn s' = h_conn h" by (rule handle_client_cases)
    have "conn_inv Inv fkr (h_conn h)"
      using handle_req_keeps [OF start(1) tame h(1)] .
    then show ?thesis by (simp add: h(2))
  qed
qed

lemma served_keeps:
  "served s0 s \<Longrightarrow> conn_inv Inv fkr (sv_conn s0) \<Longrightarrow> conn_inv Inv fkr (sv_conn s)"
  by (induction rule: served.induct) (auto intro: handle_event_keeps)

end

text \<open>
  C1: The keys of the database survive every history of the server: after any sequence of accepted
  clients and requests of any contents the statements can carry, with errors of the engine and of
  the sockets at any point, no two rows share an identifier, no two users a name, no two chats
  their pair of members, and no user is a member of a conversation twice.
\<close>

theorem history_keeps_keys:
  assumes "served s0 s" and "conn_inv db_keys False (sv_conn s0)"
  shows "db_keys (cn_db (sv_conn s))"
  using ks.served_keeps [OF assms] by (simp add: conn_inv_def)

definition idle_client :: client_ev where
  "idle_client = \<lparr>cl_env = example_env, cl_stack = zeros (BUFSIZ + 1), cl_recv = [], cl_writes = [],
     cl_uploads = [], cl_downloads = []\<rparr>"

definition connect_event :: epoll_event where
  "connect_event = Epoll_event 3 True \<lparr>ac_fd = Some 4, ac_sockopt_ok = True, ac_epoll_ok = True\<rparr> idle_client"

definition hangup_event :: epoll_event where
  "hangup_event = Epoll_event 4 True \<lparr>ac_fd = None, ac_sockopt_ok = True, ac_epoll_ok = True\<rparr> idle_client"

lemma idle_tame: "tame_client idle_client"
  by (simp add: tame_client_def idle_client_def example_env_def md5_ok_def HASHED_LEN_def)

text \<open>A client connects and goes away again.\<close>

definition visited :: "db \<Rightarrow> server" where
  "visited d = (start_server 3 d)\<lparr>sv_epoll := {3}, sv_fdset := {3}, sv_maxfd := 3\<rparr>"

lemma visit:
  "handle_event connect_event (start_server 3 d) =
     Inr ((start_server 3 d)\<lparr>sv_epoll := {4, 3}, sv_fdset := {4, 3}, sv_maxfd := 4\<rparr>)"
  "handle_event hangup_event ((start_server 3 d)\<lparr>sv_epoll := {4, 3}, sv_fdset := {4, 3}, sv_maxfd := 4\<rparr>) =
     Inr (visited d)"
proof -
  show "handle_event connect_event (start_server 3 d) =
     Inr ((start_server 3 d)\<lparr>sv_epoll := {4, 3}, sv_fdset := {4, 3}, sv_maxfd := 4\<rparr>)"
    by (simp add: connect_event_def accept_new_client_def start_server_def fdset_add_def FD_SETSIZE_def)
  have "lower_maxfd {3} 4 = Inr 3"
    by (simp add: numeral_eq_Suc)
  then show "handle_event hangup_event ((start_server 3 d)\<lparr>sv_epoll := {4, 3}, sv_fdset := {4, 3}, sv_maxfd := 4\<rparr>) =
     Inr (visited d)"
    by (simp add: hangup_event_def handle_client_def idle_client_def session_def handle_req_def
        close_sock_def close_fd_def srv_close_sock_def fdset_clr_def FD_SETSIZE_def start_server_def
        visited_def Let_def)
qed

lemma visited_served: "served (start_server 3 d) (visited d)"
proof -
  have "served (start_server 3 d) ((start_server 3 d)\<lparr>sv_epoll := {4, 3}, sv_fdset := {4, 3}, sv_maxfd := 4\<rparr>)"
    by (rule served_event [OF served_start _ _ visit(1)])
      (auto simp: start_server_def connect_event_def idle_tame)
  then show ?thesis
    by (rule served_event [OF _ _ _ visit(2)]) (auto simp: start_server_def hangup_event_def idle_tame)
qed

theorem history_keeps_keys_witness:
  "served (start_server 3 thread_db) (visited thread_db) \<and> db_keys (cn_db (sv_conn (visited thread_db)))"
proof -
  have "conn_inv db_keys False (sv_conn (start_server 3 thread_db))"
    by (simp add: start_server_def conn_inv_def thread_db_def db_keys_def)
  with history_keeps_keys [OF visited_served] visited_served show ?thesis by simp
qed







end
