(* ===== verification/Startup.thy ===== *)
theory Startup
  imports Server Strings
begin

text \<open>
  The beginning and the end of the process, \<^verbatim>\<open>main\<close> and \<^verbatim>\<open>shutdown_server\<close> of \<^verbatim>\<open>server/src/main.c\<close> with
  \<^verbatim>\<open>init_handler\<close> of \<^verbatim>\<open>server/src/handler.c\<close>: the options, the calls that set up the listening socket,
  the creation of the workers, and what a shutdown releases. The results of the system calls are
  the record \<open>boot_env\<close>; a failure is a negative number, as the code takes it. The functions of
  the C library that read the options, \<^verbatim>\<open>inet_pton\<close> and \<^verbatim>\<open>sscanf\<close> with \<^verbatim>\<open>%hu\<close>, are written out.
\<close>

type_synonym u16 = "16 word"
type_synonym in_addr = "byte list"

definition DEFAULT_SERVER_PORT :: u16 where
  "DEFAULT_SERVER_PORT = 9000"

definition SERVER_BACKLOG :: nat where
  "SERVER_BACKLOG = 32"

definition INADDR_ANY :: in_addr where
  "INADDR_ANY = [0, 0, 0, 0]"

definition O_NONBLOCK :: int where
  "O_NONBLOCK = 2048"

section \<open>Options\<close>

definition is_digit :: "byte \<Rightarrow> bool" where
  "is_digit b \<longleftrightarrow> 48 \<le> b \<and> b \<le> 57"

definition is_space :: "byte \<Rightarrow> bool" where
  "is_space b \<longleftrightarrow> b = 32 \<or> 9 \<le> b \<and> b \<le> 13"

definition digits_val :: "bytes \<Rightarrow> nat" where
  "digits_val ds = foldl (\<lambda>n d. n * 10 + unat (d - 48)) 0 ds"

text \<open>
  \<^verbatim>\<open>%hu\<close>: blanks, a sign, digits. The number is read as an unsigned long, the largest when it is too large,
  negated when there is a minus, and cut to 16 bits. Without a digit nothing is stored.
\<close>

definition scan_hu :: "bytes \<Rightarrow> u16 option" where
  "scan_hu s =
     (let s1 = dropWhile is_space s;
          neg = (s1 \<noteq> [] \<and> hd s1 = 45);
          s2 = (if s1 \<noteq> [] \<and> (hd s1 = 45 \<or> hd s1 = 43) then tl s1 else s1);
          ds = takeWhile is_digit s2;
          n = (of_nat (min (digits_val ds) (2 ^ 64 - 1)) :: 64 word)
      in if ds = [] then None
         else Some (ucast (if neg \<and> digits_val ds < 2 ^ 64 then - n else n)))"

text \<open>\<^verbatim>\<open>inet_pton\<close>: four numbers up to 255 without leading zeros, with dots between them.\<close>

definition octet :: "bytes \<Rightarrow> byte option" where
  "octet s =
     (if s \<noteq> [] \<and> list_all is_digit s \<and> (length s > 1 \<longrightarrow> hd s \<noteq> 48) \<and> digits_val s \<le> 255
      then Some (of_nat (digits_val s)) else None)"

fun split_dots :: "bytes \<Rightarrow> bytes list" where
  "split_dots [] = [[]]"
| "split_dots (b # bs) =
     (if b = 46 then [] # split_dots bs
      else case split_dots bs of [] \<Rightarrow> [[b]] | w # ws \<Rightarrow> (b # w) # ws)"

definition inet_pton :: "bytes \<Rightarrow> in_addr option" where
  "inet_pton s =
     (case map octet (split_dots s) of
        [Some a, Some b, Some c, Some d] \<Rightarrow> Some [a, b, c, d]
      | _ \<Rightarrow> None)"

text \<open>What \<^verbatim>\<open>getopt\<close> delivers: one of the two options with its argument, or anything else.\<close>

datatype opt = Opt_i bytes | Opt_p bytes | Opt_unknown

fun get_options :: "opt list \<Rightarrow> in_addr \<Rightarrow> u16 \<Rightarrow> (in_addr \<times> u16) option" where
  "get_options [] addr port = Some (addr, port)"
| "get_options (Opt_i s # os) addr port =
     get_options os (case inet_pton s of None \<Rightarrow> addr | Some a \<Rightarrow> a) port"
| "get_options (Opt_p s # os) addr port =
     (let p = (case scan_hu s of None \<Rightarrow> port | Some n \<Rightarrow> n)
      in get_options os addr (if p = 0 then DEFAULT_SERVER_PORT else p))"
| "get_options (Opt_unknown # os) addr port = None"

section \<open>Setting up\<close>

record boot_env =
  bo_open_db :: nat
  bo_socket :: int
  bo_reuseaddr :: int
  bo_sndbuf :: int
  bo_rcvbuf :: int
  bo_getfl :: int
  bo_setfl :: int
  bo_bind :: int
  bo_listen :: int
  bo_epoll_create :: int
  bo_epoll_add :: int
  bo_nprocs :: int
  bo_calloc :: bool
  bo_pthread :: "nat \<Rightarrow> int \<times> nat"

text \<open>The key and the callback that \<^verbatim>\<open>init_handler\<close> stores are arguments of the model of the handlers.\<close>

definition init_handler :: "boot_env \<Rightarrow> bool" where
  "init_handler E = (if bo_open_db E \<noteq> SQLITE_OK then False else True)"

text \<open>What the process has set up so far.\<close>

record boot =
  bt_listen :: int
  bt_epoll :: int
  bt_open :: "int set"
  bt_flags :: "int \<Rightarrow> int option"
  bt_bound :: "(in_addr \<times> u16) option"
  bt_backlog :: "nat option"
  bt_nths :: nat
  bt_thpool :: "nat list"

definition fresh_boot :: boot where
  "fresh_boot = \<lparr>bt_listen = 0, bt_epoll = 0, bt_open = {}, bt_flags = (\<lambda>_. None), bt_bound = None,
     bt_backlog = None, bt_nths = 0, bt_thpool = []\<rparr>"

datatype outcome = Exited boot | Serves boot server

definition close_listen :: "boot \<Rightarrow> boot" where
  "close_listen b = b\<lparr>bt_open := bt_open b - {bt_listen b}\<rparr>"

text \<open>The pattern of every call after the first: a failure closes the listening socket and exits.\<close>

definition or_exit :: "int \<Rightarrow> boot \<Rightarrow> (boot \<Rightarrow> outcome res) \<Rightarrow> outcome res" where
  "or_exit rc b k = (if rc < 0 then Inr (Exited (close_listen b)) else k b)"

text \<open>The flags are set on the descriptor that has their value as its number.\<close>

definition set_flags :: "boot_env \<Rightarrow> boot \<Rightarrow> boot" where
  "set_flags E b = b\<lparr>bt_flags := (bt_flags b)(bo_getfl E \<mapsto> or (bo_getfl E) O_NONBLOCK)\<rparr>"

fun create_threads :: "boot_env \<Rightarrow> nat \<Rightarrow> nat \<Rightarrow> nat list \<Rightarrow> nat list option" where
  "create_threads E i 0 ths = Some ths"
| "create_threads E i (Suc n) ths =
     (case bo_pthread E i of (rc, th) \<Rightarrow>
        if rc < 0 then None
        else create_threads E (Suc i) n (ths @ [if rc = 0 then th else 0]))"

definition start_workers :: "boot_env \<Rightarrow> db \<Rightarrow> boot \<Rightarrow> outcome res" where
  "start_workers E d b =
     (let b = (if bo_nprocs E < 0 then b else b\<lparr>bt_nths := nat (bo_nprocs E + 1)\<rparr>)
      in if \<not> bo_calloc E then Inr (Exited (close_listen b))
         else case create_threads E 0 (bt_nths b) [] of
             None \<Rightarrow> Inr (Exited (b\<lparr>bt_open := bt_open b - {bt_listen b, bt_epoll b}\<rparr>))
           | Some ths \<Rightarrow> Inr (Serves (b\<lparr>bt_thpool := ths\<rparr>) (start_server (nat (bt_listen b)) d)))"

definition set_up_epoll :: "boot_env \<Rightarrow> db \<Rightarrow> boot \<Rightarrow> outcome res" where
  "set_up_epoll E d b =
     or_exit (bo_epoll_create E) b (\<lambda>b.
       let b = b\<lparr>bt_epoll := bo_epoll_create E, bt_open := insert (bo_epoll_create E) (bt_open b)\<rparr>
       in if int FD_SETSIZE \<le> bt_listen b then Inl Out_Of_Bounds
          else or_exit (bo_epoll_add E) b (start_workers E d))"

definition main :: "boot_env \<Rightarrow> opt list \<Rightarrow> db \<Rightarrow> outcome res" where
  "main E os d =
     (if \<not> init_handler E then Inr (Exited fresh_boot)
      else case get_options os INADDR_ANY DEFAULT_SERVER_PORT of
        None \<Rightarrow> Inr (Exited fresh_boot)
      | Some (addr, port) \<Rightarrow>
          if bo_socket E < 0 then Inr (Exited fresh_boot)
          else
            or_exit (bo_reuseaddr E) (fresh_boot\<lparr>bt_listen := bo_socket E, bt_open := {bo_socket E}\<rparr>) (\<lambda>b.
            or_exit (bo_sndbuf E) b (\<lambda>b.
            or_exit (bo_rcvbuf E) b (\<lambda>b.
            or_exit (bo_getfl E) b (\<lambda>b.
            or_exit (bo_setfl E) b (\<lambda>b.
            or_exit (bo_bind E) (set_flags E b) (\<lambda>b.
            or_exit (bo_listen E) (b\<lparr>bt_bound := Some (addr, port)\<rparr>) (\<lambda>b.
              set_up_epoll E d (b\<lparr>bt_backlog := Some SERVER_BACKLOG\<rparr>)))))))))"

section \<open>Shutting down\<close>

record farewell =
  fw_closed :: "int list"
  fw_joined :: "nat list"
  fw_strings :: pool
  fw_code :: int

text \<open>
  The sockets of the set, the epoll instance, the workers with an identifier, the database and the
  strings; \<open>None\<close> when the registry frees something twice.
\<close>

definition shutdown_server :: "int \<Rightarrow> boot \<Rightarrow> server \<Rightarrow> pool \<Rightarrow> farewell option" where
  "shutdown_server signo b s st =
     (case string_clean st of
        None \<Rightarrow> None
      | Some st' \<Rightarrow> Some \<lparr>fw_closed = map int (shutdown_closes s) @ [bt_epoll b],
          fw_joined = filter (\<lambda>th. th \<noteq> 0) (take (bt_nths b) (bt_thpool b)),
          fw_strings = st', fw_code = signo\<rparr>)"

section \<open>Facts\<close>

lemma get_options_port:
  "get_options os addr port = Some (addr', port') \<Longrightarrow> port \<noteq> 0 \<Longrightarrow> port' \<noteq> 0"
proof (induction os addr port rule: get_options.induct)
  case (3 s os addr port)
  then show ?case by (auto simp: Let_def DEFAULT_SERVER_PORT_def split: if_splits)
qed simp_all

lemma create_threads_length: "create_threads E i n ths = Some ths' \<Longrightarrow> length ths' = length ths + n"
  by (induction E i n ths rule: create_threads.induct) (auto split: prod.splits if_splits)

text \<open>What holds of an outcome, whichever call it came from.\<close>

fun outcome_ok :: "db \<Rightarrow> outcome \<Rightarrow> bool" where
  "outcome_ok d (Exited b) \<longleftrightarrow> bt_listen b \<notin> bt_open b \<and> bt_open b \<subseteq> {bt_epoll b}"
| "outcome_ok d (Serves b s) \<longleftrightarrow>
     s = start_server (nat (bt_listen b)) d \<and> fds_ok s \<and> bt_open b = {bt_listen b, bt_epoll b} \<and>
     (\<exists>addr port. bt_bound b = Some (addr, port) \<and> port \<noteq> 0) \<and> bt_backlog b = Some SERVER_BACKLOG \<and>
     length (bt_thpool b) = bt_nths b"

definition result_ok :: "boot_env \<Rightarrow> db \<Rightarrow> outcome res \<Rightarrow> bool" where
  "result_ok E d r \<longleftrightarrow>
     (case r of
        Inl f \<Rightarrow> f = Out_Of_Bounds \<and> int FD_SETSIZE \<le> bo_socket E
      | Inr out \<Rightarrow> outcome_ok d out)"

lemma result_ok_simps [simp]:
  "result_ok E d (Inl f) \<longleftrightarrow> f = Out_Of_Bounds \<and> int FD_SETSIZE \<le> bo_socket E"
  "result_ok E d (Inr out) \<longleftrightarrow> outcome_ok d out"
  by (simp_all add: result_ok_def)

lemma or_exit_ok:
  assumes "bt_open b \<subseteq> {bt_listen b, bt_epoll b}" and "\<not> rc < 0 \<Longrightarrow> result_ok E d (k b)"
  shows "result_ok E d (or_exit rc b k)"
  using assms by (auto simp: or_exit_def close_listen_def)

lemma start_workers_ok:
  assumes "bt_open b = {bt_listen b, bt_epoll b}" and "0 \<le> bt_listen b" and "bt_listen b < int FD_SETSIZE"
    and "\<exists>addr port. bt_bound b = Some (addr, port) \<and> port \<noteq> 0" and "bt_backlog b = Some SERVER_BACKLOG"
  shows "result_ok E d (start_workers E d b)"
proof -
  have "nat (bt_listen b) < FD_SETSIZE"
    using assms(2,3) by linarith
  then show ?thesis
    using assms
    by (auto simp: start_workers_def Let_def close_listen_def start_server_def fds_ok_def
        split: option.splits dest: create_threads_length)
qed

lemma set_up_epoll_ok:
  assumes "bt_open b = {bt_listen b}" and "bt_listen b = bo_socket E" and "0 \<le> bt_listen b"
    and "\<exists>addr port. bt_bound b = Some (addr, port) \<and> port \<noteq> 0" and "bt_backlog b = Some SERVER_BACKLOG"
  shows "result_ok E d (set_up_epoll E d b)"
  unfolding set_up_epoll_def using assms
  by (intro or_exit_ok) (auto simp: Let_def intro!: or_exit_ok start_workers_ok)

lemma main_ok: "result_ok E d (main E os d)"
proof (cases "init_handler E \<and> \<not> bo_socket E < 0")
  case False
  then show ?thesis
    by (auto simp: main_def fresh_boot_def split: option.splits)
next
  case True
  show ?thesis
  proof (cases "get_options os INADDR_ANY DEFAULT_SERVER_PORT")
    case None
    with True show ?thesis by (simp add: main_def fresh_boot_def)
  next
    case (Some ap)
    then obtain addr port where ap: "get_options os INADDR_ANY DEFAULT_SERVER_PORT = Some (addr, port)"
      "port \<noteq> 0"
      using get_options_port by (cases ap) (auto simp: DEFAULT_SERVER_PORT_def)
    with True show ?thesis
      by (simp add: main_def)
        (intro or_exit_ok set_up_epoll_ok; simp add: fresh_boot_def set_flags_def)
  qed
qed

lemma or_exit_Serves:
  "or_exit rc b k = Inr (Serves b' s) \<longleftrightarrow> 0 \<le> rc \<and> k b = Inr (Serves b' s)"
  by (auto simp: or_exit_def)

lemma main_Serves:
  assumes "main E os d = Inr (Serves b s)"
  shows "bt_listen b = bo_socket E" and "0 \<le> bo_socket E"
    and "bt_flags b = [bo_getfl E \<mapsto> or (bo_getfl E) O_NONBLOCK]"
  using assms
  by (auto simp: main_def or_exit_Serves set_up_epoll_def start_workers_def Let_def set_flags_def
      fresh_boot_def split: if_splits option.splits prod.splits)

section \<open>Properties\<close>

text \<open>
  C27: Starting the server either succeeds or leaves nothing behind. Whatever the options are and
  whichever call fails, the process either exits with the listening socket closed, so that only the
  epoll instance may still be open, or it serves: then it is bound to a port that is not zero,
  listens, has an entry for every worker, and its sockets are in the state that the histories start
  from. The one fault is a listening socket whose number does not fit the bitmap.
\<close>

theorem startup_serves_or_cleans:
  "case main E os d of
     Inl f \<Rightarrow> f = Out_Of_Bounds \<and> int FD_SETSIZE \<le> bo_socket E
   | Inr (Exited b) \<Rightarrow> bt_listen b \<notin> bt_open b \<and> bt_open b \<subseteq> {bt_epoll b}
   | Inr (Serves b s) \<Rightarrow>
       s = start_server (nat (bt_listen b)) d \<and> fds_ok s \<and> bt_open b = {bt_listen b, bt_epoll b} \<and>
       (\<exists>addr port. bt_bound b = Some (addr, port) \<and> port \<noteq> 0) \<and>
       bt_backlog b = Some SERVER_BACKLOG \<and> length (bt_thpool b) = bt_nths b"
  using main_ok [of E d os] by (auto split: sum.splits outcome.splits)


text \<open>
  The listening socket is never made non-blocking: the call that should do it gets the flags
  as the descriptor, so a server that runs has changed the descriptor whose number is the value of
  the flags (two, the error output, for a new socket) and left the listening socket as it was.
\<close>

theorem listener_stays_blocking:
  assumes "main E os d = Inr (Serves b s)" and "bo_getfl E \<noteq> bo_socket E"
  shows "bt_flags b (bt_listen b) = None \<and>
    bt_flags b (bo_getfl E) = Some (or (bo_getfl E) O_NONBLOCK)"
  using main_Serves [OF assms(1)] assms(2) by simp

definition good_boot :: boot_env where
  "good_boot = \<lparr>bo_open_db = SQLITE_OK, bo_socket = 4, bo_reuseaddr = 0, bo_sndbuf = 0, bo_rcvbuf = 0,
     bo_getfl = 2, bo_setfl = 0, bo_bind = 0, bo_listen = 0, bo_epoll_create = 5, bo_epoll_add = 0,
     bo_nprocs = 1, bo_calloc = True, bo_pthread = (\<lambda>i. (0, i + 100))\<rparr>"

definition good_state :: boot where
  "good_state = \<lparr>bt_listen = 4, bt_epoll = 5, bt_open = {5, 4}, bt_flags = [2 \<mapsto> or 2 2048],
     bt_bound = Some ([0, 0, 0, 0], 9000), bt_backlog = Some 32, bt_nths = 2, bt_thpool = [100, 101]\<rparr>"

lemma good_boot_serves: "main good_boot [] d = Inr (Serves good_state (start_server 4 d))"
  by (simp add: main_def init_handler_def good_boot_def or_exit_def fresh_boot_def set_up_epoll_def start_workers_def
      set_flags_def good_state_def INADDR_ANY_def DEFAULT_SERVER_PORT_def SERVER_BACKLOG_def
      O_NONBLOCK_def FD_SETSIZE_def numeral_2_eq_2)


theorem listener_stays_blocking_witness:
  "bt_flags good_state 4 = None \<and> bt_flags good_state 2 = Some (or 2 O_NONBLOCK)"
  using listener_stays_blocking [OF good_boot_serves] by (simp add: good_boot_def good_state_def)

subsection \<open>The port\<close>

lemma digits_val_snoc: "digits_val (ds @ [d]) = digits_val ds * 10 + unat (d - 48)"
  by (simp add: digits_val_def)

lemma digit_char: "k < 10 \<Longrightarrow> is_digit (48 + of_nat k) \<and> unat (of_nat k :: byte) = k"
proof -
  assume "k < 10"
  then have "unat (of_nat (48 + k) :: byte) = 48 + k" "unat (of_nat k :: byte) = k"
    by (intro unat_of_nat_less; simp)+
  with \<open>k < 10\<close> show ?thesis
    by (simp add: is_digit_def word_le_nat_alt)
qed

lemma dec_digits: "dec n \<noteq> [] \<and> list_all is_digit (dec n) \<and> digits_val (dec n) = n"
proof (induction n rule: dec.induct)
  case (1 n)
  show ?case
  proof (cases "n < 10")
    case True
    then show ?thesis
      using digit_char [of n] by (subst (1 2 3) dec.simps) (simp add: digits_val_def)
  next
    case False
    then show ?thesis
      using "1.IH" digit_char [of "n mod 10"] by (subst (1 2 3) dec.simps) (simp add: digits_val_snoc)
  qed
qed

lemma hd_digit:
  assumes "ds \<noteq> []" and "list_all is_digit ds"
  shows "\<not> is_space (hd ds)" and "hd ds \<noteq> 45" and "hd ds \<noteq> 43"
proof -
  have "is_digit (hd ds)"
    using assms by (cases ds) auto
  then show "\<not> is_space (hd ds)" "hd ds \<noteq> 45" "hd ds \<noteq> 43"
    by (auto simp: is_digit_def is_space_def word_le_nat_alt)
qed

lemma scan_hu_dec: "n < 2 ^ 64 \<Longrightarrow> scan_hu (dec n) = Some (of_nat n)"
proof -
  assume n: "n < 2 ^ 64"
  have d: "dec n \<noteq> []" "list_all is_digit (dec n)" "digits_val (dec n) = n"
    using dec_digits by blast+
  have spaces: "dropWhile is_space (dec n) = dec n"
    using hd_digit(1) [OF d(1,2)] by (cases "dec n") auto
  have digits: "takeWhile is_digit (dec n) = dec n"
    using d(2) by (simp add: takeWhile_eq_all_conv list_all_iff)
  have "min n (2 ^ 64 - 1) = n" "(ucast (of_nat n :: 64 word) :: u16) = of_nat n"
    using n by (simp_all add: unsigned_of_nat take_bit_nat_eq_self)
  then show ?thesis
    using hd_digit(2,3) [OF d(1,2)] d(1)
    by (simp add: scan_hu_def Let_def spaces digits d(3))
qed

text \<open>
  The port of the command line is read modulo 65536: a number gives that port when it fits, a
  smaller one when it does not, and the default port when the rest is zero, without a message.
\<close>

theorem port_is_read_modulo:
  assumes "n < 2 ^ 64"
  shows "get_options [Opt_p (dec n)] addr port =
    Some (addr, if n mod 65536 = 0 then DEFAULT_SERVER_PORT else of_nat (n mod 65536))"
proof -
  have "(of_nat n :: u16) = of_nat (n mod 65536)"
    by (simp add: word_of_nat_eq_iff take_bit_eq_mod)
  moreover have "(of_nat n :: u16) = 0 \<longleftrightarrow> n mod 65536 = 0"
    by (simp add: word_of_nat_eq_0_iff dvd_eq_mod_eq_0)
  ultimately show ?thesis
    using scan_hu_dec [OF assms] by simp
qed

theorem port_is_read_modulo_witness:
  "get_options [Opt_p (dec 70000)] INADDR_ANY 9000 = Some (INADDR_ANY, 4464) \<and>
    get_options [Opt_p (dec 65536)] INADDR_ANY 9000 = Some (INADDR_ANY, 9000)"
  using port_is_read_modulo [of 70000 INADDR_ANY 9000] port_is_read_modulo [of 65536 INADDR_ANY 9000]
  by (simp add: DEFAULT_SERVER_PORT_def)

end
