(* ===== verification/Client.thy ===== *)
theory Client
  imports Request Response
begin

text \<open>
  The client library: \<^verbatim>\<open>client-lib/src/auth.c\<close> keeps the session, \<^verbatim>\<open>connection.c\<close> exchanges one block
  for another, and \<^verbatim>\<open>service.c\<close> has one function per request. The variables \<^verbatim>\<open>__sockfd\<close> and \<^verbatim>\<open>buf\<close>
  are static in a header, so each of the two files has its own copy; that of the socket in
  \<^verbatim>\<open>service.c\<close> is never assigned and keeps its initial value. What the network does is a script: the
  result of \<^verbatim>\<open>send\<close>, then one entry per call of \<^verbatim>\<open>recv\<close>. An output parameter is the value stored in
  it, if any; a buffer of the caller is given by its capacity.
\<close>

section \<open>State\<close>

datatype errno = No_error | EWOULDBLOCK | EBADF | Other_error

record client =
  ct_uid :: u32
  ct_token :: bytes
  ct_is_auth :: bool
  ct_sockfd :: int
  ct_buf :: bytes
  ct_conn_buf :: bytes
  ct_errno :: errno

datatype net_ev = Net_error errno | Net_data bytes

record net =
  nt_send :: "errno + int"
  nt_recv :: "net_ev list"

section \<open>The session\<close>

definition set_auth :: "response_auth \<Rightarrow> client \<Rightarrow> client" where
  "set_auth auth c = c\<lparr>ct_uid := sa_user_id auth, ct_token := sa_token auth, ct_is_auth := True\<rparr>"

definition clear_auth :: "client \<Rightarrow> client" where
  "clear_auth c = c\<lparr>ct_uid := 0, ct_token := zeros TOKEN_LEN, ct_is_auth := False\<rparr>"

definition get_auth :: "client \<Rightarrow> (bytes \<times> u32) option" where
  "get_auth c = (if ct_is_auth c then Some (ct_token c, ct_uid c) else None)"

definition is_authenticated :: "client \<Rightarrow> bool" where
  "is_authenticated c = ct_is_auth c"

section \<open>The connection\<close>

text \<open>The results of \<^verbatim>\<open>socket\<close> and \<^verbatim>\<open>connect\<close> are arguments.\<close>

definition connect_server :: "int \<Rightarrow> bool \<Rightarrow> client \<Rightarrow> int \<times> client" where
  "connect_server sock connect_ok c =
     (if sock < 0 then (-1, c\<lparr>ct_sockfd := sock\<rparr>)
      else if \<not> connect_ok then (-1, c\<lparr>ct_sockfd := -1\<rparr>)
      else (sock, c\<lparr>ct_sockfd := sock\<rparr>))"

definition close_conn :: "client \<Rightarrow> client" where
  "close_conn c = c\<lparr>ct_sockfd := -1\<rparr>"

definition get_sockfd :: "client \<Rightarrow> int" where
  "get_sockfd c = ct_sockfd c"

definition send_block :: "int \<Rightarrow> net \<Rightarrow> client \<Rightarrow> int \<times> client" where
  "send_block sockfd n c =
     (if sockfd = -1 then (-1, c)
      else
        case nt_send n of
          Inl e \<Rightarrow> (-1, close_conn (c\<lparr>ct_errno := e\<rparr>))
        | Inr k \<Rightarrow> if k \<le> 0 then (-1, close_conn c) else (k, c))"

definition recv_block :: "net_ev \<Rightarrow> bytes \<Rightarrow> client \<Rightarrow> (int \<times> bytes \<times> client) res" where
  "recv_block e buff c =
     (if ct_sockfd c = -1 then Inr (-1, buff, c)
      else
        case e of
          Net_error err \<Rightarrow> Inr (-1, buff, close_conn (c\<lparr>ct_errno := err\<rparr>))
        | Net_data bs \<Rightarrow>
            (let chunk = take BUFSIZ bs
             in bindE (mem_write buff 0 chunk) (\<lambda>b.
                  Inr (int (length chunk), b, if chunk = [] then close_conn c else c))))"

text \<open>
  The loop of \<^verbatim>\<open>api_call\<close>: the offset of every call of \<^verbatim>\<open>recv\<close> is the variable \<^verbatim>\<open>cur_recv\<close>, which is zero
  then, so every piece is written to the front of the buffer. A script that has run out is the
  timeout of the socket.
\<close>

fun api_loop :: "net_ev list \<Rightarrow> nat \<Rightarrow> client \<Rightarrow> (response option \<times> client) res" where
  "api_loop [] sz c = Inr (None, c\<lparr>ct_errno := EWOULDBLOCK\<rparr>)"
| "api_loop (Net_error e # es) sz c = Inr (None, c\<lparr>ct_errno := e\<rparr>)"
| "api_loop (Net_data bs # es) sz c =
     (let chunk = take BUFSIZ bs
      in if chunk = [] then Inr (None, c)
         else
           bindE (mem_write (ct_conn_buf c) 0 chunk) (\<lambda>b.
             let c' = c\<lparr>ct_conn_buf := b\<rparr>
             in if sz + length chunk < BUFSIZ then api_loop es (sz + length chunk) c'
                else bindE (response_parse b) (\<lambda>r. Inr (r, c'))))"

definition api_call :: "int \<Rightarrow> bytes \<Rightarrow> net \<Rightarrow> client \<Rightarrow> (response option \<times> client) res" where
  "api_call sockfd req n c =
     (if sockfd < 0 then Inr (None, c\<lparr>ct_errno := EBADF\<rparr>)
      else
        case nt_send n of
          Inl e \<Rightarrow> Inr (None, c\<lparr>ct_errno := e\<rparr>)
        | Inr _ \<Rightarrow>
            bindE (mem_write (ct_conn_buf c) 0 (zeros BUFSIZ)) (\<lambda>b.
              api_loop (nt_recv n) 0 (c\<lparr>ct_conn_buf := b\<rparr>)))"

section \<open>Services\<close>

text \<open>
  The macros \<^verbatim>\<open>HANDLE_RES_STT\<close> and \<^verbatim>\<open>FREE_AND_RETURN_STT\<close> around the cases of a function, and the
  common beginning of the functions: the request is made in the buffer of \<^verbatim>\<open>service.c\<close> and sent.
\<close>

type_synonym 'a service = "client \<Rightarrow> (i32 \<times> 'a option \<times> client) res"

definition handle_res :: "(response \<Rightarrow> client \<Rightarrow> ('a option \<times> client) res) \<Rightarrow> response option \<Rightarrow> 'a service" where
  "handle_res act res c =
     (case res of
        None \<Rightarrow> Inr (if ct_errno c = EWOULDBLOCK then 408 else -1, None, c)
      | Some r \<Rightarrow> bindE (act r c) (\<lambda>(out, c'). Inr (rs_status_code (rs_header r), out, c')))"

definition service ::
    "int \<Rightarrow> net \<Rightarrow> (bytes \<Rightarrow> bytes res) \<Rightarrow> (response \<Rightarrow> client \<Rightarrow> ('a option \<times> client) res) \<Rightarrow> 'a service" where
  "service sockfd n mk act c =
     bindE (mk (ct_buf c)) (\<lambda>b.
     bindE (api_call sockfd b n (c\<lparr>ct_buf := b\<rparr>)) (\<lambda>(res, c').
       handle_res act res c'))"

text \<open>What a function does on the one status that it expects.\<close>

definition on_status :: "u32 \<Rightarrow> (response \<Rightarrow> client \<Rightarrow> ('a option \<times> client) res) \<Rightarrow> response \<Rightarrow> client \<Rightarrow> ('a option \<times> client) res" where
  "on_status st act r c = (if rs_status_code (rs_header r) = st then act r c else Inr (None, c))"

definition no_output :: "response \<Rightarrow> client \<Rightarrow> (unit option \<times> client) res" where
  "no_output r c = Inr (None, c)"

text \<open>
  The member of the union that a function reads; the bytes of another member are not a value of
  its type.
\<close>

definition r_auth :: "response \<Rightarrow> response_auth res" where
  "r_auth r = (case rs_body r of S_auth a \<Rightarrow> Inr a | _ \<Rightarrow> Inl Uninitialised)"

definition r_user :: "response \<Rightarrow> response_user res" where
  "r_user r = (case rs_body r of S_user a \<Rightarrow> Inr a | _ \<Rightarrow> Inl Uninitialised)"

definition r_conv :: "response \<Rightarrow> response_conv res" where
  "r_conv r = (case rs_body r of S_conv a \<Rightarrow> Inr a | _ \<Rightarrow> Inl Uninitialised)"

definition r_chat :: "response \<Rightarrow> response_chat res" where
  "r_chat r = (case rs_body r of S_chat a \<Rightarrow> Inr a | _ \<Rightarrow> Inl Uninitialised)"

definition r_msg :: "response \<Rightarrow> response_msg res" where
  "r_msg r = (case rs_body r of S_msg a \<Rightarrow> Inr a | _ \<Rightarrow> Inl Uninitialised)"

text \<open>
  \<^verbatim>\<open>strcpy\<close> of a string to a buffer, and \<^verbatim>\<open>memcpy\<close> of the listed identifiers to an array of \<open>cap\<close>
  entries; the array read has as many as the reply announces.
\<close>

definition strcpy_to :: "nat \<Rightarrow> bytes option \<Rightarrow> bytes res" where
  "strcpy_to sz s =
     (case s of
        None \<Rightarrow> Inl Null_Deref
      | Some t \<Rightarrow> if length t + 1 \<le> sz then Inr t else Inl Out_Of_Bounds)"

definition memcpy_ids :: "nat \<Rightarrow> u32 \<Rightarrow> u32 list option \<Rightarrow> u32 list res" where
  "memcpy_ids cap count ls =
     (case ls of
        None \<Rightarrow> Inl Null_Deref
      | Some xs \<Rightarrow>
          if unat count \<le> length xs \<and> unat count \<le> cap then Inr (take (unat count) xs)
          else Inl Out_Of_Bounds)"

definition strlen_of :: "bytes option \<Rightarrow> nat res" where
  "strlen_of s = (case s of None \<Rightarrow> Inl Null_Deref | Some t \<Rightarrow> Inr (length t))"

text \<open>The socket of \<^verbatim>\<open>service.c\<close>.\<close>

definition SERVICE_SOCKFD :: int where
  "SERVICE_SOCKFD = -1"

subsection \<open>Registration, login, logout\<close>

text \<open>
  The three functions on the static socket; the caller gets a copy of the credentials. The
  identifier of \<^verbatim>\<open>__logout\<close> is declared as a pointer, of which the request gets the low 32 bits.
\<close>

definition register_static :: "bytes \<Rightarrow> bytes \<Rightarrow> bytes \<Rightarrow> bytes \<Rightarrow> net \<Rightarrow> response_auth service" where
  "register_static uname password phone email n =
     service SERVICE_SOCKFD n (make_request_auth_register uname password phone email)
       (on_status 201 (\<lambda>r c. bindE (r_auth r) (\<lambda>a. Inr (Some a, c))))"

definition login_static :: "bytes \<Rightarrow> bytes \<Rightarrow> net \<Rightarrow> response_auth service" where
  "login_static username password n =
     service SERVICE_SOCKFD n (make_request_auth_login username password)
       (on_status 200 (\<lambda>r c. bindE (r_auth r) (\<lambda>a. Inr (Some a, c))))"

definition logout_static :: "bytes \<Rightarrow> u32 \<Rightarrow> net \<Rightarrow> unit service" where
  "logout_static token user_id n =
     service SERVICE_SOCKFD n (make_request_user_logout token user_id) no_output"

definition register :: "int \<Rightarrow> bytes \<Rightarrow> bytes \<Rightarrow> bytes \<Rightarrow> bytes \<Rightarrow> net \<Rightarrow> unit service" where
  "register sockfd uname password phone email n =
     service sockfd n (make_request_auth_register uname password phone email)
       (on_status 201 (\<lambda>r c. bindE (r_auth r) (\<lambda>a. Inr (None, set_auth a c))))"

definition login :: "int \<Rightarrow> bytes \<Rightarrow> bytes \<Rightarrow> net \<Rightarrow> unit service" where
  "login sockfd username password n =
     service sockfd n (make_request_auth_login username password)
       (on_status 200 (\<lambda>r c. bindE (r_auth r) (\<lambda>a. Inr (None, set_auth a c))))"

definition logout :: "int \<Rightarrow> net \<Rightarrow> unit service" where
  "logout sockfd n c =
     service sockfd n (make_request_user_logout (ct_token c) (ct_uid c))
       (on_status 200 (\<lambda>r c. Inr (None, clear_auth c))) c"

subsection \<open>Users\<close>

text \<open>The three copies are allocated with the length of the string, without its terminator.\<close>

definition get_user_info :: "int \<Rightarrow> u32 \<Rightarrow> net \<Rightarrow> (bytes \<times> bytes \<times> bytes) service" where
  "get_user_info sockfd user2_id n c =
     service sockfd n (make_request_user_get_info (ct_token c) (ct_uid c) user2_id)
       (on_status 200 (\<lambda>r c.
          bindE (r_user r) (\<lambda>u.
          bindE (strlen_of (su_email u)) (\<lambda>le. bindE (strcpy_to le (su_email u)) (\<lambda>email.
          bindE (strlen_of (su_phone u)) (\<lambda>lp. bindE (strcpy_to lp (su_phone u)) (\<lambda>phone.
          bindE (strlen_of (su_uname u)) (\<lambda>lu. bindE (strcpy_to lu (su_uname u)) (\<lambda>uname.
            Inr (Some (uname, phone, email), c)))))))))) c"

definition get_user_search :: "int \<Rightarrow> bytes \<Rightarrow> i32 \<Rightarrow> i32 \<Rightarrow> nat \<Rightarrow> net \<Rightarrow> (u32 list \<times> u32) service" where
  "get_user_search sockfd uname offset limit cap n c =
     service sockfd n (make_request_user_search (ct_token c) (ct_uid c) uname limit offset)
       (on_status 200 (\<lambda>r c.
          bindE (r_user r) (\<lambda>u.
          bindE (memcpy_ids cap (rs_count (rs_header r)) (su_idls u)) (\<lambda>ls.
            Inr (Some (ls, rs_count (rs_header r)), c))))) c"

subsection \<open>Conversations\<close>

definition create_conv :: "int \<Rightarrow> bytes \<Rightarrow> net \<Rightarrow> u32 service" where
  "create_conv sockfd gname n c =
     service sockfd n (make_request_conv_create (ct_token c) (ct_uid c) gname)
       (on_status 201 (\<lambda>r c. bindE (r_conv r) (\<lambda>v. Inr (Some (sc_conv_id v), c)))) c"

definition drop_conv :: "int \<Rightarrow> u32 \<Rightarrow> net \<Rightarrow> unit service" where
  "drop_conv sockfd conv_id n c =
     service sockfd n (make_request_conv_drop (ct_token c) (ct_uid c) conv_id) no_output c"

definition join_conv :: "int \<Rightarrow> u32 \<Rightarrow> u32 \<Rightarrow> net \<Rightarrow> unit service" where
  "join_conv sockfd conv_id user2_id n c =
     service sockfd n (make_request_conv_join (ct_token c) (ct_uid c) conv_id user2_id) no_output c"

definition quit_conv :: "int \<Rightarrow> u32 \<Rightarrow> u32 \<Rightarrow> net \<Rightarrow> unit service" where
  "quit_conv sockfd conv_id user2_id n c =
     service sockfd n (make_request_conv_quit (ct_token c) (ct_uid c) conv_id user2_id) no_output c"

definition get_conv_info :: "int \<Rightarrow> u32 \<Rightarrow> nat \<Rightarrow> net \<Rightarrow> (u32 \<times> bytes) service" where
  "get_conv_info sockfd conv_id cap n c =
     service sockfd n (make_request_conv_get_info (ct_token c) (ct_uid c) conv_id)
       (on_status 200 (\<lambda>r c.
          bindE (r_conv r) (\<lambda>v.
          bindE (strcpy_to cap (sc_gname v)) (\<lambda>gname. Inr (Some (sc_admin_id v, gname), c))))) c"

definition ids_of_conv :: "nat \<Rightarrow> response \<Rightarrow> client \<Rightarrow> ((u32 list \<times> u32) option \<times> client) res" where
  "ids_of_conv cap r c =
     bindE (r_conv r) (\<lambda>v.
     bindE (memcpy_ids cap (rs_count (rs_header r)) (sc_idls v)) (\<lambda>ls.
       Inr (Some (ls, rs_count (rs_header r)), c)))"

definition get_conv_members :: "int \<Rightarrow> u32 \<Rightarrow> nat \<Rightarrow> net \<Rightarrow> (u32 list \<times> u32) service" where
  "get_conv_members sockfd conv_id cap n c =
     service sockfd n (make_request_conv_get_members (ct_token c) (ct_uid c) conv_id)
       (on_status 200 (ids_of_conv cap)) c"

definition get_conv_list :: "int \<Rightarrow> i32 \<Rightarrow> i32 \<Rightarrow> nat \<Rightarrow> net \<Rightarrow> (u32 list \<times> u32) service" where
  "get_conv_list sockfd limit offset cap n c =
     service sockfd n (make_request_conv_get_list (ct_token c) (ct_uid c) limit offset)
       (on_status 200 (ids_of_conv cap)) c"

subsection \<open>Chats\<close>

definition create_chat :: "int \<Rightarrow> u32 \<Rightarrow> net \<Rightarrow> u32 service" where
  "create_chat sockfd user2_id n c =
     service sockfd n (make_request_chat_create (ct_token c) (ct_uid c) user2_id)
       (on_status 201 (\<lambda>r c. bindE (r_chat r) (\<lambda>h. Inr (Some (sh_chat_id h), c)))) c"

definition delete_chat :: "int \<Rightarrow> u32 \<Rightarrow> net \<Rightarrow> unit service" where
  "delete_chat sockfd chat_id n c =
     service sockfd n (make_request_chat_delete (ct_token c) (ct_uid c) chat_id) no_output c"

definition get_chat_list :: "int \<Rightarrow> i32 \<Rightarrow> i32 \<Rightarrow> nat \<Rightarrow> net \<Rightarrow> (u32 list \<times> u32) service" where
  "get_chat_list sockfd limit offset cap n c =
     service sockfd n (make_request_chat_get_list (ct_token c) (ct_uid c) limit offset)
       (on_status 200 (\<lambda>r c.
          bindE (r_chat r) (\<lambda>h.
          bindE (memcpy_ids cap (rs_count (rs_header r)) (sh_idls h)) (\<lambda>ls.
            Inr (Some (ls, rs_count (rs_header r)), c))))) c"

definition get_chat_info :: "int \<Rightarrow> u32 \<Rightarrow> net \<Rightarrow> (u32 \<times> u32) service" where
  "get_chat_info sockfd chat_id n c =
     service sockfd n (make_request_chat_get_info (ct_token c) (ct_uid c) chat_id)
       (on_status 200 (\<lambda>r c.
          bindE (r_chat r) (\<lambda>h. Inr (Some (sh_member_id1 h, sh_member_id2 h), c)))) c"

subsection \<open>Messages\<close>

definition ids_of_msg :: "nat \<Rightarrow> response \<Rightarrow> client \<Rightarrow> ((u32 list \<times> u32) option \<times> client) res" where
  "ids_of_msg cap r c =
     bindE (r_msg r) (\<lambda>m.
     bindE (memcpy_ids cap (rs_count (rs_header r)) (sm_idls m)) (\<lambda>ls.
       Inr (Some (ls, rs_count (rs_header r)), c)))"

definition get_msg_all :: "int \<Rightarrow> i32 \<Rightarrow> i32 \<Rightarrow> u32 \<Rightarrow> u32 \<Rightarrow> nat \<Rightarrow> net \<Rightarrow> (u32 list \<times> u32) service" where
  "get_msg_all sockfd limit offset conv_id chat_id cap n c =
     service sockfd n (make_request_msg_get_all (ct_token c) (ct_uid c) limit offset conv_id chat_id)
       (on_status 200 (ids_of_msg cap)) c"

text \<open>
  The memory behind \<^verbatim>\<open>msg_content\<close> in the reply: as many bytes as the body has left, and a
  terminator. The functions copy as many bytes as the message says its content has.
\<close>

definition content_mem :: "response \<Rightarrow> response_msg \<Rightarrow> bytes res" where
  "content_mem r m =
     (case sm_msg_content m of
        None \<Rightarrow> Inl Null_Deref
      | Some s \<Rightarrow> Inr (s @ zeros (unat (rs_body_len (rs_header r) - 30) - length s) @ [0]))"

definition copy_content :: "nat \<Rightarrow> response \<Rightarrow> response_msg \<Rightarrow> bytes res" where
  "copy_content cap r m =
     bindE (content_mem r m) (\<lambda>mem.
     bindE (mem_read mem 0 (unat (sm_content_length m))) (\<lambda>bs.
       if unat (sm_content_length m) \<le> cap then Inr bs else Inl Out_Of_Bounds))"

text \<open>With no buffer of the caller one is allocated that fits.\<close>

definition get_msg_detail :: "int \<Rightarrow> u32 \<Rightarrow> nat option \<Rightarrow> net \<Rightarrow> response_msg service" where
  "get_msg_detail sockfd msg_id dest n c =
     service sockfd n (make_request_msg_get_detail (ct_token c) (ct_uid c) msg_id)
       (on_status 200 (\<lambda>r c.
          bindE (r_msg r) (\<lambda>m.
          bindE (copy_content (case dest of None \<Rightarrow> unat (sm_content_length m) + 1 | Some cap \<Rightarrow> cap) r m)
            (\<lambda>bs. Inr (Some (m\<lparr>sm_idls := None, sm_msg_content := Some bs\<rparr>), c))))) c"

definition get_msg_detail_raw :: "int \<Rightarrow> u32 \<Rightarrow> nat \<Rightarrow> net \<Rightarrow>
    (u32 \<times> u32 \<times> u32 \<times> u32 \<times> u32 \<times> u32 \<times> u32 \<times> bytes) service" where
  "get_msg_detail_raw sockfd msg_id cap n c =
     service sockfd n (make_request_msg_get_detail (ct_token c) (ct_uid c) msg_id)
       (on_status 200 (\<lambda>r c.
          bindE (r_msg r) (\<lambda>m.
          bindE (copy_content cap r m) (\<lambda>bs.
            Inr (Some (sm_chat_id m, sm_conv_id m, sm_reply_to m, sm_from_uid m, sm_created_at m,
              ucast (sm_content_type m), sm_content_length m, bs), c))))) c"

definition send_msg_text :: "int \<Rightarrow> u32 \<Rightarrow> u32 \<Rightarrow> u32 \<Rightarrow> bytes \<Rightarrow> net \<Rightarrow> u32 service" where
  "send_msg_text sockfd conv_id chat_id reply_to msg n c =
     service sockfd n (make_requests_msg_send_text (ct_token c) (ct_uid c) conv_id chat_id reply_to msg)
       (on_status 201 (\<lambda>r c. bindE (r_msg r) (\<lambda>m. Inr (Some (sm_msg_id m), c)))) c"

definition delete_msg :: "int \<Rightarrow> u32 \<Rightarrow> net \<Rightarrow> unit service" where
  "delete_msg sockfd msg_id n c =
     service sockfd n (make_request_msg_delete (ct_token c) (ct_uid c) msg_id) no_output c"

definition notify_new_msg :: "int \<Rightarrow> nat \<Rightarrow> net \<Rightarrow> (u32 list \<times> u32) service" where
  "notify_new_msg sockfd cap n c =
     service sockfd n (make_request_msg_notify_new (ct_token c) (ct_uid c))
       (on_status 200 (ids_of_msg cap)) c"

definition notify_del_msg :: "int \<Rightarrow> u32 \<Rightarrow> u32 \<Rightarrow> nat \<Rightarrow> net \<Rightarrow> (u32 list \<times> u32) service" where
  "notify_del_msg sockfd conv_id chat_id cap n c =
     service sockfd n (make_request_msg_notify_del (ct_token c) (ct_uid c) conv_id chat_id)
       (on_status 200 (ids_of_msg cap)) c"

subsection \<open>Sending a file\<close>

text \<open>
  The file is \<open>None\<close> when it cannot be opened or its size is not known. The result of \<^verbatim>\<open>write\<close> for the block of the request and
  for every piece of the file is a script of booleans; the bytes written are part of the result. The
  reply is what one call of \<^verbatim>\<open>read\<close> delivers to the buffer of \<^verbatim>\<open>service.c\<close>.
\<close>

function send_pieces :: "bytes \<Rightarrow> bool list \<Rightarrow> bytes list \<Rightarrow> bytes \<Rightarrow> (bool \<times> bytes list \<times> bytes) res" where
  "send_pieces content oks out b =
     (if content = [] then Inr (True, out, b)
      else
        let chunk = take BUFSIZ content
        in bindE (mem_write b 0 chunk) (\<lambda>b'.
             if oks \<noteq> [] \<and> \<not> hd oks then Inr (False, out, b')
             else send_pieces (drop BUFSIZ content) (tl oks) (out @ [chunk]) b'))"
  by pat_completeness auto

termination
  by (relation "measure (\<lambda>(content, oks, out, b). length content)") (auto simp: BUFSIZ_def)

definition send_msg_file ::
    "int \<Rightarrow> u32 \<Rightarrow> u32 \<Rightarrow> u32 \<Rightarrow> bytes \<Rightarrow> bytes option \<Rightarrow> bool list \<Rightarrow> net_ev \<Rightarrow> i32 \<Rightarrow> client \<Rightarrow>
     (bytes list \<times> i32 \<times> u32 option \<times> client) res" where
  "send_msg_file sockfd conv_id chat_id reply_to msg file oks reply err c =
     (case file of
        None \<Rightarrow> Inr ([], err, None, c)
      | Some content \<Rightarrow>
          bindE (make_requests_msg_send_file (ct_token c) (ct_uid c) conv_id chat_id reply_to
              (of_nat (length content)) msg (ct_buf c)) (\<lambda>b.
            if oks \<noteq> [] \<and> \<not> hd oks then Inr ([], err, None, c\<lparr>ct_buf := b\<rparr>)
            else
              bindE (send_pieces content (tl oks) [take BUFSIZ b] b) (\<lambda>(finished, out, b1).
                let c1 = c\<lparr>ct_buf := b1\<rparr>
                in if \<not> finished then Inr (out, err, None, c1)
                   else
                     case reply of
                       Net_error e \<Rightarrow> Inr (out, err, None, c1)
                     | Net_data bs \<Rightarrow>
                         (let chunk = take BUFSIZ bs
                          in if chunk = [] then Inr (out, 0, None, c1)
                             else
                               bindE (mem_write b1 0 chunk) (\<lambda>b2.
                               bindE (response_parse b2) (\<lambda>res.
                               bindE (handle_res (on_status 201 (\<lambda>r c.
                                   bindE (r_msg r) (\<lambda>m. Inr (Some (sm_msg_id m), c)))) res
                                   (c1\<lparr>ct_buf := b2\<rparr>)) (\<lambda>(st, mid, c2).
                                 Inr (out, st, mid, c2))))))))"

section \<open>The two ways to read a message\<close>

text \<open>The outputs of \<^verbatim>\<open>_get_msg_detail_raw\<close>, taken from the record that \<^verbatim>\<open>_get_msg_detail\<close> fills.\<close>

definition raw_view :: "response_msg \<Rightarrow> u32 \<times> u32 \<times> u32 \<times> u32 \<times> u32 \<times> u32 \<times> u32 \<times> bytes" where
  "raw_view m = (sm_chat_id m, sm_conv_id m, sm_reply_to m, sm_from_uid m, sm_created_at m,
     ucast (sm_content_type m), sm_content_length m, the (sm_msg_content m))"

lemma handle_res_map:
  assumes "\<And>r c. act' r c = bindE (act r c) (\<lambda>(out, c'). Inr (map_option f out, c'))"
  shows "handle_res act' res c = bindE (handle_res act res c) (\<lambda>(st, out, c'). Inr (st, map_option f out, c'))"
proof (cases res)
  case (Some r)
  then show ?thesis
    by (cases "act r c") (auto simp: handle_res_def assms)
qed (simp add: handle_res_def)

lemma service_map:
  assumes "\<And>r c. act' r c = bindE (act r c) (\<lambda>(out, c'). Inr (map_option f out, c'))"
  shows "service fd n mk act' c = bindE (service fd n mk act c) (\<lambda>(st, out, c'). Inr (st, map_option f out, c'))"
proof (cases "mk (ct_buf c)")
  case (Inr b)
  then show ?thesis
    by (cases "api_call fd b n (c\<lparr>ct_buf := b\<rparr>)")
      (auto simp: service_def handle_res_map [OF assms] split: prod.splits)
qed (simp add: service_def)

text \<open>
  C32: The two functions that read a message agree, whatever the network does: on a buffer of the
  same size they fault in the same cases, and otherwise return the same status, leave the client in
  the same state and fill their outputs with the same values.
\<close>

theorem get_msg_detail_raw_agrees:
  "get_msg_detail_raw fd mid cap n c =
     bindE (get_msg_detail fd mid (Some cap) n c)
       (\<lambda>(st, out, c'). Inr (st, map_option raw_view out, c'))"
  unfolding get_msg_detail_raw_def get_msg_detail_def
proof (rule service_map)
  fix r c
  show "on_status 200 (\<lambda>r c. bindE (r_msg r) (\<lambda>m. bindE (copy_content cap r m) (\<lambda>bs.
        Inr (Some (sm_chat_id m, sm_conv_id m, sm_reply_to m, sm_from_uid m, sm_created_at m,
          ucast (sm_content_type m), sm_content_length m, bs), c)))) r c =
      bindE (on_status 200 (\<lambda>r c. bindE (r_msg r) (\<lambda>m.
        bindE (copy_content (case Some cap of None \<Rightarrow> unat (sm_content_length m) + 1 | Some cap \<Rightarrow> cap) r m)
          (\<lambda>bs. Inr (Some (m\<lparr>sm_idls := None, sm_msg_content := Some bs\<rparr>), c)))) r c)
        (\<lambda>(out, c'). Inr (map_option raw_view out, c'))"
  proof (cases "r_msg r")
    case (Inr m)
    then show ?thesis
      by (cases "copy_content cap r m") (simp_all add: on_status_def raw_view_def)
  qed (simp add: on_status_def)
qed

end
