(* ===== verification/Exchange.thy ===== *)
theory Exchange
  imports Client Sessions Access Streams
begin

text \<open>
  The client library and the server together: a function of \<^verbatim>\<open>client-lib/src/service.c\<close> makes a
  request, the handler of the server gets the bytes and answers, and the function reads the
  answer. The network delivers every block whole, except where a property is about pieces.
\<close>

section \<open>One call over the network\<close>

definition client_ok :: "client \<Rightarrow> bool" where
  "client_ok c \<longleftrightarrow> length (ct_buf c) = BUFSIZ \<and> length (ct_conn_buf c) = BUFSIZ \<and>
     length (ct_token c) = TOKEN_LEN"

lemma request_made:
  assumes "client_ok c" and "call_ok q"
  shows "\<exists>b. encode_call (ct_token c, ct_uid c, q) (ct_buf c) = Inr b \<and> length b = BUFSIZ"
  using rq.enc_total [of "(ct_token c, ct_uid c, q)" "ct_buf c"] assms
  by (auto simp: client_ok_def call_wf_def REQUEST_LEN_def)

text \<open>The network after the server has answered.\<close>

definition over :: "hstate \<Rightarrow> net" where
  "over s = \<lparr>nt_send = Inr (int BUFSIZ), nt_recv = map Net_data (h_out s)\<rparr>"

lemma answer_is_read:
  assumes "replied st r s s'" and "h_out s = []" and "reply_ok r"
  shows "\<exists>blk. h_out s' = [blk] \<and> length blk = BUFSIZ \<and> response_parse blk = Inr (reply_view (st, r))"
proof -
  obtain rest where out: "h_out s' = [(response_header_wire (reply_header st r) @ reply_payload r) @ rest]"
    and len: "length ((response_header_wire (reply_header st r) @ reply_payload r) @ rest) = BUFSIZ"
    using assms(1,2) by (auto simp: replied_def answered_def)
  show ?thesis
    using out len response_parse_wire [OF parse_reply [OF assms(3)], of st rest]
    by (auto simp: reply_view_def)
qed

lemma api_call_reads:
  assumes "0 \<le> fd" and "length (ct_conn_buf c) = BUFSIZ"
    and "nt_send n = Inr k" "nt_recv n = [Net_data blk]" "length blk = BUFSIZ"
    and "response_parse blk = Inr r"
  shows "api_call fd req n c = Inr (r, c\<lparr>ct_conn_buf := blk\<rparr>)"
proof -
  have "blk \<noteq> []"
    using assms(5) by (auto simp: BUFSIZ_def)
  then show ?thesis
    using assms by (simp add: api_call_def mem_write_def Let_def)
qed

lemma serve_call:
  assumes "length (h_buf s) = BUFSIZ + 1" and "length buf = BUFSIZ" and "length tok = TOKEN_LEN"
    and "call_ok q" and "encode_call (tok, uid, q) buf = Inr b"
  shows "handle_req E [Recv_data b] s =
    bindE (handle_request E (Some \<lparr>rq_header = call_header tok uid q, rq_body = call_body q\<rparr>)
      (s\<lparr>h_buf := b @ drop BUFSIZ (h_buf s)\<rparr>)) (\<lambda>s1. Inr (rearm E s1))"
proof -
  have len: "length b = BUFSIZ"
    using encode_call_length [OF assms(5)] assms(2) by simp
  then have "b \<noteq> []" by (auto simp: BUFSIZ_def)
  then have "recv_loop (map Recv_data [b] @ []) (length ([] :: bytes)) ([] @ h_buf s) =
      Inr (Some BUFSIZ, [] @ concat [b] @ drop (length (concat [b])) (h_buf s))"
    using assms(1) len by (intro recv_loop_fill) simp_all
  moreover have "request_parse (b @ drop BUFSIZ (h_buf s)) = Inr (call_view (tok, uid, q))"
    using assms by (intro encode_call_parse) (simp_all add: call_wf_def REQUEST_LEN_def)
  ultimately show ?thesis
    using len by (simp add: handle_req_def call_view_def Let_def)
qed

text \<open>The request of a client that the server accepts, or that needs no token, is dispatched.\<close>

definition accepted :: "env \<Rightarrow> client \<Rightarrow> bool" where
  "accepted E c \<longleftrightarrow> 0 < verify_token (e_decrypt E) (e_now E) (e_addr E) (ct_uid c) (ct_token c)"

lemma mk_header_sel [simp]:
  "rq_group (mk_header g a ct cl bl tok uid l f) = g" "rq_action (mk_header g a ct cl bl tok uid l f) = a"
  "rq_content_type (mk_header g a ct cl bl tok uid l f) = ct"
  "rq_content_len (mk_header g a ct cl bl tok uid l f) = cl"
  "rq_token (mk_header g a ct cl bl tok uid l f) = tok" "rq_user_id (mk_header g a ct cl bl tok uid l f) = uid"
  by (simp_all add: mk_header_def)

lemma call_header_group:
  "rq_group (call_header tok uid q) \<noteq> 0 \<Longrightarrow>
   rq_token (call_header tok uid q) = tok \<and> rq_user_id (call_header tok uid q) = uid"
  by (cases q) (simp_all add: Let_def)

lemma request_of_call:
  assumes "rq_group (call_header (ct_token c) (ct_uid c) q) = 0 \<or> accepted E c"
  shows "handle_request E (Some \<lparr>rq_header = call_header (ct_token c) (ct_uid c) q, rq_body = call_body q\<rparr>) s =
    dispatch_body E (call_header (ct_token c) (ct_uid c) q) (call_body q) s"
  using assms call_header_group [of "ct_token c" "ct_uid c" q]
  by (auto simp: handle_request_def accepted_def Let_def)

text \<open>
  What the handler does on the request decides the call: when it answers with a reply, the
  function of the client goes on with exactly that reply.
\<close>

definition answers :: "env \<Rightarrow> conn \<Rightarrow> client \<Rightarrow> call \<Rightarrow> u32 \<Rightarrow> reply \<Rightarrow> conn \<Rightarrow> bool" where
  "answers E cn c q st r cn' \<longleftrightarrow>
     (rq_group (call_header (ct_token c) (ct_uid c) q) = 0 \<or> accepted E c) \<and>
     (\<forall>t. ready t \<longrightarrow> h_conn t = cn \<longrightarrow> (\<exists>t'. dispatch_body E
        (call_header (ct_token c) (ct_uid c) q) (call_body q) t = Inr t' \<and> replied st r t t' \<and> h_conn t' = cn'))"

lemma answersI:
  assumes "rq_group (call_header (ct_token c) (ct_uid c) q) = 0 \<or> accepted E c"
    and "\<And>t. ready t \<Longrightarrow> h_conn t = cn \<Longrightarrow> \<exists>t'. dispatch_body E (call_header (ct_token c) (ct_uid c) q)
      (call_body q) t = Inr t' \<and> replied st r t t' \<and> h_conn t' = cn'"
  shows "answers E cn c q st r cn'"
  using assms by (simp add: answers_def)

lemma call_over_network:
  assumes "client_ok c" and "0 \<le> fd" and "ready s" "h_out s = []" and "call_ok q" and "reply_ok r"
    and "answers E (h_conn s) c q st r cn"
  obtains b s' blk where "encode_call (ct_token c, ct_uid c, q) (ct_buf c) = Inr b"
    and "handle_req E [Recv_data b] s = Inr s'" and "h_conn s' = cn"
    and "length b = BUFSIZ" "length blk = BUFSIZ"
    and "api_call fd b (over s') (c\<lparr>ct_buf := b\<rparr>) =
      Inr (reply_view (st, r), c\<lparr>ct_buf := b, ct_conn_buf := blk\<rparr>)"
proof -
  have c: "length (ct_buf c) = BUFSIZ" "length (ct_token c) = TOKEN_LEN" "length (ct_conn_buf c) = BUFSIZ"
    using assms(1) by (simp_all add: client_ok_def)
  obtain b where b: "encode_call (ct_token c, ct_uid c, q) (ct_buf c) = Inr b" "length b = BUFSIZ"
    using request_made [OF assms(1,5)] by blast
  let ?s = "s\<lparr>h_buf := b @ drop BUFSIZ (h_buf s)\<rparr>"
  have s: "ready ?s" "h_conn ?s = h_conn s" "h_out ?s = []"
    using b(2) assms(3,4) by (simp_all add: ready_def)
  then obtain s1 where s1: "dispatch_body E (call_header (ct_token c) (ct_uid c) q) (call_body q) ?s = Inr s1"
    "replied st r ?s s1" "h_conn s1 = cn"
    using assms(7) unfolding answers_def by blast
  obtain blk where blk: "h_out s1 = [blk]" "length blk = BUFSIZ" "response_parse blk = Inr (reply_view (st, r))"
    using answer_is_read [OF s1(2) s(3) assms(6)] by blast
  have "rq_group (call_header (ct_token c) (ct_uid c) q) = 0 \<or> accepted E c"
    using assms(7) by (simp add: answers_def)
  then have "handle_req E [Recv_data b] s = Inr (rearm E s1)"
    using serve_call [OF ready_frame(2) [OF assms(3)] c(1,2) assms(5) b(1)] s1(1) request_of_call by simp
  moreover have "api_call fd b (over (rearm E s1)) (c\<lparr>ct_buf := b\<rparr>) =
      Inr (reply_view (st, r), c\<lparr>ct_buf := b, ct_conn_buf := blk\<rparr>)"
    using assms(2) c(3) blk api_call_reads [of fd "c\<lparr>ct_buf := b\<rparr>"] by (simp add: over_def)
  ultimately show thesis
    using b s1(3) blk(2) that [of b "rearm E s1" blk] by simp
qed

lemmas client_simps = service_def reply_view_def handle_res_def on_status_def mk_resp_def
section \<open>Logging in\<close>

text \<open>
  C16: Logging in through the client library against the server: when the user exists and the hash of
  the password is the stored one, the function returns 200 and the session of the client holds the
  identifier of the user and a token that the server accepts from this address for this user.
\<close>

theorem login_end_to_end:
  assumes "client_ok c" and "0 \<le> fd" and "ready s" "h_out s = []"
    and "cipher_ok (e_encrypt E) (e_decrypt E)" and "hash_str (e_md5 E) pw = Some (u_password x)"
    and "plain u" and "filter (\<lambda>x. u_uname x = u) (db_users (cn_db (h_conn s))) = [x]"
    and "call_ok (Auth_login u pw)" "length u \<le> 430"
  shows "\<exists>b s' c'. make_request_auth_login u pw (ct_buf c) = Inr b \<and>
    handle_req E [Recv_data b] s = Inr s' \<and> login fd u pw (over s') c = Inr (200, None, c') \<and>
    client_ok c' \<and> accepted E c' \<and> get_auth c' = Some (ct_token c', of_nat (u_id x))"
proof -
  let ?q = "Auth_login u pw" and ?i = "of_nat (u_id x) :: u32"
  let ?tok = "make_token (e_encrypt E) (e_now E) (e_addr E) ?i"
  have ans: "answers E (h_conn s) c ?q 200 (Rp_login ?tok ?i) (h_conn s)"
  proof (rule answersI)
    fix t
    assume "ready t" "h_conn t = h_conn s"
    then show "\<exists>t'. dispatch_body E (call_header (ct_token c) (ct_uid c) ?q) (call_body ?q) t = Inr t' \<and>
        replied 200 (Rp_login ?tok ?i) t t' \<and> h_conn t' = h_conn s"
      using login_ready [of t E pw "u_password x" u x
        "\<lparr>ra_uname = Some u, ra_password = Some pw, ra_phone = None, ra_email = None\<rparr>"] assms(5-8,10)
      by (auto simp: dispatch_body_def Let_def)
  qed (simp add: Let_def)
  have ok: "reply_ok (Rp_login ?tok ?i)"
    using length_made_token [OF assms(5)] by simp
  obtain b s' blk where "encode_call (ct_token c, ct_uid c, ?q) (ct_buf c) = Inr b"
    "handle_req E [Recv_data b] s = Inr s'" "h_conn s' = h_conn s" "length b = BUFSIZ" "length blk = BUFSIZ"
    "api_call fd b (over s') (c\<lparr>ct_buf := b\<rparr>) =
       Inr (reply_view (200, Rp_login ?tok ?i), c\<lparr>ct_buf := b, ct_conn_buf := blk\<rparr>)"
    by (rule call_over_network [OF assms(1-4,9) ok ans])
  then show ?thesis
    using fresh_token [OF assms(5)] length_made_token [OF assms(5)]
    by (simp add: login_def client_simps r_auth_def set_auth_def client_ok_def accepted_def get_auth_def)
qed

definition example_client :: client where
  "example_client = \<lparr>ct_uid = 1, ct_token = make_token (e_encrypt example_env) (e_now example_env) (e_addr example_env) 1,
     ct_is_auth = True, ct_sockfd = 3, ct_buf = zeros BUFSIZ, ct_conn_buf = zeros BUFSIZ, ct_errno = No_error\<rparr>"

lemma example_client_ok [simp]: "client_ok example_client" "accepted example_env example_client" "ct_uid example_client = 1"
  using length_made_token [OF example_cipher_ok] fresh_token [OF example_cipher_ok]
  by (simp_all add: example_client_def client_ok_def accepted_def)

theorem login_end_to_end_witness:
  "\<exists>s' c'. login 3 [97] [98] (over s') example_client = Inr (200, None, c') \<and> accepted example_env c' \<and>
    get_auth c' = Some (ct_token c', 1)"
proof -
  obtain h where h: "hash_str (e_md5 example_env) [98] = Some h"
    by (simp add: example_env_def hash_str_def)
  let ?x = "\<lparr>u_id = 1, u_uname = [97], u_password = h, u_phone = [], u_email = []\<rparr>"
  show ?thesis
    using login_end_to_end [of example_client 3 "example_state (empty_db\<lparr>db_users := [?x]\<rparr>)" example_env "[98]" ?x "[97]"]
      example_cipher_ok h
    by (auto simp: plain_def QUOTE_def auth_field_def is_field_def is_cstr_def BODY_DELIMITER_def request_sizes)
qed

section \<open>Sending a text and reading it\<close>

lemma send_text_ready:
  assumes "ready s" "\<not> cn_mutex (h_conn s)" "cn_tx (h_conn s) = None"
    and "rq_content_type header = 0" and "msg = new_msg header rm (rq_content_len header - 12) (Some str)"
    and "may_see (cn_db (h_conn s)) (unat (rq_user_id header)) (unat (rm_conv_id rm), unat (rm_chat_id rm))"
    and "rm_msg_content rm = Some str" "plain str" "length str \<le> 7900" "msg_refs_ok (cn_db (h_conn s)) msg"
  shows "\<exists>s'. let i = new_id (map ms_id (db_msgs (cn_db (h_conn s)))) in
    handle_msg_send E header rm s = Inr s' \<and> replied 201 (Rp_msg_send (of_nat i)) s s' \<and>
    h_conn s' = (h_conn s)\<lparr>cn_db := (cn_db (h_conn s))\<lparr>db_msgs := db_msgs (cn_db (h_conn s)) @
      [row_of i str (ucast (e_now E)) msg]\<rparr>, cn_fk := True, cn_last := i, cn_mutex := False\<rparr>"
proof -
  let ?i = "new_id (map ms_id (db_msgs (cn_db (h_conn s))))"
  let ?c = "(h_conn s)\<lparr>cn_db := (cn_db (h_conn s))\<lparr>db_msgs := db_msgs (cn_db (h_conn s)) @
      [row_of ?i str (ucast (e_now E)) msg]\<rparr>, cn_fk := True, cn_last := ?i, cn_mutex := False\<rparr>"
  obtain b where b: "respond (encode_reply (201, Rp_msg_send (of_nat ?i))) (s\<lparr>h_conn := ?c\<rparr>) =
      Inr (sent b (s\<lparr>h_conn := ?c\<rparr>))" "replied 201 (Rp_msg_send (of_nat ?i)) s (sent b (s\<lparr>h_conn := ?c\<rparr>))"
    using reply_after [OF assms(1), of "Rp_msg_send (of_nat ?i)"] by auto
  have "mg_content msg = Some str"
    by (simp add: assms(5) new_msg_def)
  then have "msg_send (e_sql E) (ucast (e_now E)) msg (h_conn s) = Inr (of_nat ?i, SQLITE_OK, ?c)"
    using msg_send_quiet [OF ready_frame(1) [OF assms(1)] assms(2,3,10)] assms(8,9) by (simp add: Let_def)
  then have "handle_msg_send E header rm s = Inr (sent b (s\<lparr>h_conn := ?c\<rparr>))"
    using b(1) assms(4-7)
    by (simp add: handle_msg_send_def require_member_ready [OF assms(1)] send_text_def sql_def sql_is_err_def
        sql_is_ok_def MSG_TEXT_def)
  with b(2) show ?thesis by (auto simp: Let_def)
qed

lemma send_text_exchange:
  fixes c cid hid rep str E
  defines "msg \<equiv> \<lparr>mg_id = 0, mg_from_uid = ct_uid c, mg_reply_to = rep, mg_content_type = 0,
    mg_content_length = of_nat (length str), mg_content = Some str, mg_created_at = 0, mg_conv_id = cid,
    mg_chat_id = hid, mg_type = 0\<rparr>"
  assumes "client_ok c" and "0 \<le> fd" and "ready s" "h_out s = []"
    and "\<not> cn_mutex (h_conn s)" "cn_tx (h_conn s) = None" and "accepted E c"
    and "may_see (cn_db (h_conn s)) (unat (ct_uid c)) (unat cid, unat hid)"
    and "msg_refs_ok (cn_db (h_conn s)) msg" and "plain str" "is_cstr str" "length str \<le> 7900"
  shows "\<exists>b s' c'. let d = cn_db (h_conn s); i = new_id (map ms_id (db_msgs d)) in
    make_requests_msg_send_text (ct_token c) (ct_uid c) cid hid rep str (ct_buf c) = Inr b \<and>
    handle_req E [Recv_data b] s = Inr s' \<and>
    send_msg_text fd cid hid rep str (over s') c = Inr (201, Some (of_nat i), c') \<and>
    cn_db (h_conn s') = d\<lparr>db_msgs := db_msgs d @ [row_of i str (ucast (e_now E)) msg]\<rparr>"
proof -
  let ?q = "Msg_send_text cid hid rep str"
  let ?h = "call_header (ct_token c) (ct_uid c) ?q"
  let ?rm = "\<lparr>rm_conv_id = cid, rm_chat_id = hid, rm_msg_id = 0, rm_reply_id = rep, rm_msg_content = Some str\<rparr>"
  let ?i = "new_id (map ms_id (db_msgs (cn_db (h_conn s))))"
  let ?c = "(h_conn s)\<lparr>cn_db := (cn_db (h_conn s))\<lparr>db_msgs := db_msgs (cn_db (h_conn s)) @
      [row_of ?i str (ucast (e_now E)) msg]\<rparr>, cn_fk := True, cn_last := ?i, cn_mutex := False\<rparr>"
  have q: "call_ok ?q"
    using assms(12,13) by (simp add: request_sizes)
  have msg: "msg = new_msg ?h ?rm (rq_content_len ?h - 12) (Some str)"
    by (simp add: msg_def new_msg_def Let_def)
  have ans: "answers E (h_conn s) c ?q 201 (Rp_msg_send (of_nat ?i)) ?c"
  proof (rule answersI)
    fix t
    assume t: "ready t" "h_conn t = h_conn s"
    have "\<exists>t'. let i = new_id (map ms_id (db_msgs (cn_db (h_conn t)))) in
      handle_msg_send E ?h ?rm t = Inr t' \<and> replied 201 (Rp_msg_send (of_nat i)) t t' \<and>
      h_conn t' = (h_conn t)\<lparr>cn_db := (cn_db (h_conn t))\<lparr>db_msgs := db_msgs (cn_db (h_conn t)) @
        [row_of i str (ucast (e_now E)) msg]\<rparr>, cn_fk := True, cn_last := i, cn_mutex := False\<rparr>"
      using assms(6-13) t msg by (intro send_text_ready) (simp_all add: Let_def)
    then show "\<exists>t'. dispatch_body E ?h (call_body ?q) t = Inr t' \<and>
        replied 201 (Rp_msg_send (of_nat ?i)) t t' \<and> h_conn t' = ?c"
      using t(2) by (auto simp: dispatch_body_def dispatch_msg_def mk_msg_def Let_def)
  qed (use assms(8) in simp)
  have "reply_ok (Rp_msg_send (of_nat ?i))" by simp
  from call_over_network [OF assms(2-5) q this ans] obtain b s' blk where
    "encode_call (ct_token c, ct_uid c, ?q) (ct_buf c) = Inr b"
    "handle_req E [Recv_data b] s = Inr s'" "h_conn s' = ?c"
    "api_call fd b (over s') (c\<lparr>ct_buf := b\<rparr>) =
       Inr (reply_view (201, Rp_msg_send (of_nat ?i)), c\<lparr>ct_buf := b, ct_conn_buf := blk\<rparr>)"
    by blast
  then show ?thesis
    by (simp add: send_msg_text_def client_simps r_msg_def zero_msg_def Let_def)
qed

lemma copy_whole_content:
  assumes "sm_msg_content m = Some str" and "sm_content_length m = of_nat (length str)"
    and "rs_body_len (rs_header r) = of_nat (30 + length str)" and "length str \<le> 7900"
  shows "copy_content (length str + 1) r m = Inr str"
proof -
  have "unat (of_nat (length str) :: u32) = length str"
    using assms(4) by (simp add: unat_of_nat take_bit_nat_eq_self)
  then show ?thesis
    using assms by (simp add: copy_content_def content_mem_def mem_read_def)
qed

lemma read_exchange:
  assumes "client_ok c" and "0 \<le> fd" and "ready s" "h_out s = []" and "accepted E c"
    and "filter (\<lambda>x. ms_id x = unat mid) (db_msgs (cn_db (h_conn s))) = [m]"
    and "may_see (cn_db (h_conn s)) (unat (ct_uid c)) (msg_place m)"
    and "is_cstr (ms_content m)" "length (ms_content m) \<le> 7900"
  shows "\<exists>b s' blk. make_request_msg_get_detail (ct_token c) (ct_uid c) mid (ct_buf c) = Inr b \<and>
    handle_req E [Recv_data b] s = Inr s' \<and> cn_db (h_conn s') = delivered m (cn_db (h_conn s)) \<and>
    api_call fd b (over s') (c\<lparr>ct_buf := b\<rparr>) =
      Inr (reply_view (200, Rp_msg_detail (detail_of (msg_of mid m))), c\<lparr>ct_buf := b, ct_conn_buf := blk\<rparr>)"
proof -
  let ?q = "Msg_get_detail mid" and ?r = "Rp_msg_detail (detail_of (msg_of mid m))"
  let ?rm = "\<lparr>rm_conv_id = 0, rm_chat_id = 0, rm_msg_id = mid, rm_reply_id = 0, rm_msg_content = None\<rparr>"
  let ?h = "call_header (ct_token c) (ct_uid c) ?q"
  have "m \<in> set (filter (\<lambda>x. ms_id x = unat mid) (db_msgs (cn_db (h_conn s))))"
    by (simp only: assms(6)) simp
  then have mid: "ms_id m = unat mid" by simp
  have ans: "answers E (h_conn s) c ?q 200 ?r ((h_conn s)\<lparr>cn_db := delivered m (cn_db (h_conn s))\<rparr>)"
  proof (rule answersI)
    fix t
    assume t: "ready t" "h_conn t = h_conn s"
    then show "\<exists>t'. dispatch_body E ?h (call_body ?q) t = Inr t' \<and> replied 200 ?r t t' \<and>
        h_conn t' = (h_conn s)\<lparr>cn_db := delivered m (cn_db (h_conn s))\<rparr>"
      using get_detail_ready [of t ?rm m ?h E] assms(6-9) mid
      by (simp add: dispatch_body_def dispatch_msg_def mk_msg_def response_sizes)
  qed (use assms(5) in simp)
  have "reply_ok ?r"
    using assms(8,9) by (simp add: detail_of_def msg_of_def response_sizes)
  moreover have "call_ok ?q" by simp
  ultimately obtain b s' blk where
    "encode_call (ct_token c, ct_uid c, ?q) (ct_buf c) = Inr b"
    "handle_req E [Recv_data b] s = Inr s'"
    "h_conn s' = (h_conn s)\<lparr>cn_db := delivered m (cn_db (h_conn s))\<rparr>"
    "api_call fd b (over s') (c\<lparr>ct_buf := b\<rparr>) = Inr (reply_view (200, ?r), c\<lparr>ct_buf := b, ct_conn_buf := blk\<rparr>)"
    using call_over_network [OF assms(1-4) _ _ ans] by blast
  then show ?thesis by auto
qed

lemma get_msg_detail_reads:
  assumes "make_request_msg_get_detail (ct_token c) (ct_uid c) mid (ct_buf c) = Inr b"
    and "api_call fd b n (c\<lparr>ct_buf := b\<rparr>) = Inr (reply_view (200, Rp_msg_detail m), c')"
    and "sm_msg_content m = Some str" "sm_content_length m = of_nat (length str)" "length str \<le> 7900"
  shows "get_msg_detail fd mid None n c = Inr (200, Some (m\<lparr>sm_idls := None\<rparr>), c')"
  using assms copy_whole_content [of "m\<lparr>sm_idls := None\<rparr>" str]
  by (simp add: get_msg_detail_def client_simps r_msg_def unat_of_nat take_bit_nat_eq_self)

text \<open>
  C15: A text sent through the client library is read through it: the sender, who may write there,
  gets 201 and the identifier of the message, and when later any client that may see the conversation
  or the chat asks for that identifier, on whatever connection, it gets 200 and the same text, with
  the sender, the conversation, the chat and the message replied to.
\<close>

theorem text_end_to_end:
  fixes c cid hid rep str
  defines "msg \<equiv> \<lparr>mg_id = 0, mg_from_uid = ct_uid c, mg_reply_to = rep, mg_content_type = 0,
    mg_content_length = of_nat (length str), mg_content = Some str, mg_created_at = 0, mg_conv_id = cid,
    mg_chat_id = hid, mg_type = 0\<rparr>"
  assumes "client_ok c" and "0 \<le> fd" and "ready s" "h_out s = []"
    and "\<not> cn_mutex (h_conn s)" "cn_tx (h_conn s) = None" and "accepted E c"
    and "may_see (cn_db (h_conn s)) (unat (ct_uid c)) (unat cid, unat hid)"
    and "msg_refs_ok (cn_db (h_conn s)) msg" and "plain str" "is_cstr str" "length str \<le> 7900"
    and "client_ok c2" and "0 \<le> fd2"
    and "may_see (cn_db (h_conn s)) (unat (ct_uid c2)) (unat cid, unat hid)"
    and "new_id (map ms_id (db_msgs (cn_db (h_conn s)))) < 4294967296"
  shows "\<exists>b s' mid c'.
    make_requests_msg_send_text (ct_token c) (ct_uid c) cid hid rep str (ct_buf c) = Inr b \<and>
    handle_req E [Recv_data b] s = Inr s' \<and>
    send_msg_text fd cid hid rep str (over s') c = Inr (201, Some mid, c') \<and>
    (\<forall>t E2. ready t \<longrightarrow> h_out t = [] \<longrightarrow> cn_db (h_conn t) = cn_db (h_conn s') \<longrightarrow> accepted E2 c2 \<longrightarrow>
      (\<exists>b2 t' m c2'. make_request_msg_get_detail (ct_token c2) (ct_uid c2) mid (ct_buf c2) = Inr b2 \<and>
        handle_req E2 [Recv_data b2] t = Inr t' \<and>
        get_msg_detail fd2 mid None (over t') c2 = Inr (200, Some m, c2') \<and>
        sm_msg_content m = Some str \<and> sm_from_uid m = ct_uid c \<and> sm_conv_id m = cid \<and>
        sm_chat_id m = hid \<and> sm_reply_to m = rep))"
proof -
  let ?d = "cn_db (h_conn s)"
  let ?i = "new_id (map ms_id (db_msgs ?d))"
  let ?row = "row_of ?i str (ucast (e_now E)) msg"
  let ?mid = "of_nat ?i :: u32"
  have i: "unat ?mid = ?i"
    using assms(17) by (simp add: unat_of_nat take_bit_nat_eq_self)
  obtain b s' c' where s': "make_requests_msg_send_text (ct_token c) (ct_uid c) cid hid rep str (ct_buf c) = Inr b"
    "handle_req E [Recv_data b] s = Inr s'"
    "send_msg_text fd cid hid rep str (over s') c = Inr (201, Some ?mid, c')"
    "cn_db (h_conn s') = ?d\<lparr>db_msgs := db_msgs ?d @ [?row]\<rparr>"
    using send_text_exchange [OF assms(2-9) assms(10) [unfolded msg_def] assms(11-13)]
    unfolding Let_def msg_def by blast
  have row: "msg_place ?row = (unat cid, unat hid)" "ms_content ?row = str"
    "msg_of ?mid ?row = msg\<lparr>mg_id := ?mid, mg_created_at := ucast (e_now E), mg_type := 0\<rparr>"
    by (simp_all add: msg_place_def msg_of_row_of msg_def) (simp_all add: row_of_def)
  have "\<exists>b2 t' m c2'. make_request_msg_get_detail (ct_token c2) (ct_uid c2) ?mid (ct_buf c2) = Inr b2 \<and>
      handle_req E2 [Recv_data b2] t = Inr t' \<and>
      get_msg_detail fd2 ?mid None (over t') c2 = Inr (200, Some m, c2') \<and>
      sm_msg_content m = Some str \<and> sm_from_uid m = ct_uid c \<and> sm_conv_id m = cid \<and>
      sm_chat_id m = hid \<and> sm_reply_to m = rep"
    if t: "ready t" "h_out t = []" "cn_db (h_conn t) = cn_db (h_conn s')" "accepted E2 c2" for t E2
  proof -
    have f: "filter (\<lambda>x. ms_id x = unat ?mid) (db_msgs (cn_db (h_conn t))) = [?row]"
      using t(3) s'(4) i by (simp add: filter_new_id) (simp add: row_of_def)
    have "may_see (cn_db (h_conn t)) (unat (ct_uid c2)) (msg_place ?row)"
      using assms(16) t(3) s'(4) row(1) by (simp add: may_see_def is_conv_member_def is_chat_party_def)
    from read_exchange [OF assms(14,15) t(1,2,4) f this] row(2) assms(12,13)
    obtain b2 t' blk where b2: "make_request_msg_get_detail (ct_token c2) (ct_uid c2) ?mid (ct_buf c2) = Inr b2"
      and t': "handle_req E2 [Recv_data b2] t = Inr t'"
      and "api_call fd2 b2 (over t') (c2\<lparr>ct_buf := b2\<rparr>) =
        Inr (reply_view (200, Rp_msg_detail (detail_of (msg_of ?mid ?row))), c2\<lparr>ct_buf := b2, ct_conn_buf := blk\<rparr>)"
      by auto
    from this(1,3) have "get_msg_detail fd2 ?mid None (over t') c2 =
        Inr (200, Some ((detail_of (msg_of ?mid ?row))\<lparr>sm_idls := None\<rparr>), c2\<lparr>ct_buf := b2, ct_conn_buf := blk\<rparr>)"
      by (rule get_msg_detail_reads [OF _ _ _ _ assms(13)]) (simp_all add: row(3), simp_all add: detail_of_def msg_def)
    with b2 t' show ?thesis by (simp add: row(3)) (simp add: detail_of_def msg_def)
  qed
  with s'(1-3) show ?thesis by blast
qed

theorem text_end_to_end_witness:
  "\<exists>s' t' mid m c' c2'. send_msg_text 3 1 0 0 [104, 105] (over s') example_client = Inr (201, Some mid, c') \<and>
    get_msg_detail 3 mid None (over t') example_client = Inr (200, Some m, c2') \<and>
    sm_msg_content m = Some [104, 105]"
proof -
  have "msg_refs_ok (cn_db (h_conn (example_state thread_db)))
      \<lparr>mg_id = 0, mg_from_uid = ct_uid example_client, mg_reply_to = 0, mg_content_type = 0,
       mg_content_length = of_nat (length [104 :: byte, 105]), mg_content = Some [104, 105],
       mg_created_at = 0, mg_conv_id = 1, mg_chat_id = 0, mg_type = 0\<rparr>"
    by (simp add: thread_db_def msg_refs_ok_def exists_defs opt_ref_def null_if_zero_def)
  moreover have "may_see thread_db 1 (1, 0)" "new_id (map ms_id (db_msgs thread_db)) < 4294967296"
    by (simp_all add: thread_db_def may_see_def is_conv_member_def new_id_def)
  ultimately obtain s' mid c' where
    s': "send_msg_text 3 1 0 0 [104, 105] (over s') example_client = Inr (201, Some mid, c')"
    "\<forall>t E2. ready t \<longrightarrow> h_out t = [] \<longrightarrow> cn_db (h_conn t) = cn_db (h_conn s') \<longrightarrow> accepted E2 example_client \<longrightarrow>
      (\<exists>t' m c2'. get_msg_detail 3 mid None (over t') example_client = Inr (200, Some m, c2') \<and>
        sm_msg_content m = Some [104, 105])"
    using text_end_to_end [of example_client 3 "example_state thread_db" example_env 1 0 0 "[104, 105]"
        example_client 3]
    by (simp add: plain_def QUOTE_def is_cstr_def) blast
  moreover obtain t' m c2' where "get_msg_detail 3 mid None (over t') example_client = Inr (200, Some m, c2')"
    "sm_msg_content m = Some [104, 105]"
    using s'(2) [rule_format, of "example_state (cn_db (h_conn s'))" example_env] by auto
  ultimately show ?thesis by blast
qed

section \<open>What the client does not learn\<close>

text \<open>
  An administrator who drops a conversation through the client library never learns that it is
  gone: the server removes it and answers 200, the library cannot read the answer, and the function
  returns -1, or 408 when an earlier call of the process had timed out.
\<close>

theorem drop_conv_outcome_lost:
  assumes "client_ok c" and "0 \<le> fd" and "ready s" "h_out s = []" and "accepted E c"
    and "cn_tx (h_conn s) = None" and "is_conv_admin (cn_db (h_conn s)) (unat cid) (unat (ct_uid c))"
  shows "\<exists>b s' c'. make_request_conv_drop (ct_token c) (ct_uid c) cid (ct_buf c) = Inr b \<and>
    handle_req E [Recv_data b] s = Inr s' \<and>
    unat cid \<notin> cv_id ` set (db_convs (cn_db (h_conn s'))) \<and>
    drop_conv fd cid (over s') c = Inr (if ct_errno c = EWOULDBLOCK then 408 else -1, None, c')"
proof -
  let ?q = "Conv_drop cid"
  obtain cn where cn: "conv_drop (e_sql E) cid (h_conn s) = Inr ((), SQLITE_OK, cn)"
      "db_convs (cn_db cn) = filter (\<lambda>v. cv_id v \<noteq> unat cid) (db_convs (cn_db (h_conn s)))"
    using conv_drop_effect [of "h_conn s" "e_sql E" cid] ready_frame(1) [OF assms(3)] assms(6) by blast
  have ans: "answers E (h_conn s) c ?q 200 Rp_conv_drop cn"
  proof (rule answersI)
    fix t
    assume "ready t" "h_conn t = h_conn s"
    then show "\<exists>t'. dispatch_body E (call_header (ct_token c) (ct_uid c) ?q) (call_body ?q) t = Inr t' \<and>
        replied 200 Rp_conv_drop t t' \<and> h_conn t' = cn"
      using conv_drop_ready [of t "\<lparr>rc_conv_id = cid, rc_user_id = 0, rc_gname = None\<rparr>"
          "call_header (ct_token c) (ct_uid c) ?q" E cn] assms(7) cn(1)
      by (simp add: dispatch_body_def dispatch_conv_def mk_conv_def)
  qed (use assms(5) in simp)
  have "call_ok ?q" "reply_ok Rp_conv_drop" by simp_all
  from call_over_network [OF assms(1-4) this ans] obtain b s' blk where
    "encode_call (ct_token c, ct_uid c, ?q) (ct_buf c) = Inr b"
    "handle_req E [Recv_data b] s = Inr s'" "h_conn s' = cn"
    "api_call fd b (over s') (c\<lparr>ct_buf := b\<rparr>) =
       Inr (reply_view (200, Rp_conv_drop), c\<lparr>ct_buf := b, ct_conn_buf := blk\<rparr>)"
    by blast
  then show ?thesis
    using cn(2) by (auto simp: drop_conv_def client_simps)
qed

theorem drop_conv_outcome_lost_witness:
  "\<exists>b s' c'. make_request_conv_drop (ct_token example_client) 1 1 (ct_buf example_client) = Inr b \<and>
    handle_req example_env [Recv_data b] (example_state thread_db) = Inr s' \<and>
    1 \<notin> cv_id ` set (db_convs (cn_db (h_conn s'))) \<and>
    drop_conv 3 1 (over s') example_client = Inr (-1, None, c')"
  using drop_conv_outcome_lost [of example_client 3 "example_state thread_db" example_env 1]
  by (simp add: thread_db_def is_conv_admin_def) (simp add: example_client_def)

text \<open>
  The login function that returns the credentials to its caller never works: whatever the
  network would do it fails with -1, because the socket it uses is the copy of \<^verbatim>\<open>service.c\<close>, which
  \<^verbatim>\<open>connect_server\<close> does not set.
\<close>

theorem login_static_fails:
  assumes "client_ok c" and "call_ok (Auth_login u pw)"
  shows "\<exists>b. login_static u pw n c = Inr (-1, None, c\<lparr>ct_buf := b, ct_errno := EBADF\<rparr>)"
proof -
  obtain b where "encode_call (ct_token c, ct_uid c, Auth_login u pw) (ct_buf c) = Inr b"
    using request_made [OF assms] by blast
  then show ?thesis
    by (intro exI [of _ b]) (simp add: login_static_def client_simps api_call_def SERVICE_SOCKFD_def)
qed

theorem login_static_fails_witness:
  "\<exists>b. login_static [97] [98] \<lparr>nt_send = Inr 8192, nt_recv = []\<rparr> example_client =
    Inr (-1, None, example_client\<lparr>ct_buf := b, ct_errno := EBADF\<rparr>)"
  using login_static_fails [of example_client "[97]" "[98]"]
  by (simp add: auth_field_def is_field_def is_cstr_def BODY_DELIMITER_def request_sizes)

text \<open>
  C34: Every successful answer to a request for a user makes the client write out of bounds: the
  copies are allocated with the length of the string and filled with its terminator.
\<close>

theorem get_user_info_overflows:
  assumes "client_ok c" and "0 \<le> fd" and "reply_ok (Rp_user_info u ph e)"
    and "encode_reply (200, Rp_user_info u ph e) buf = Inr blk" "length buf = BUFSIZ"
  shows "get_user_info fd i \<lparr>nt_send = Inr k, nt_recv = [Net_data blk]\<rparr> c = Inl Out_Of_Bounds"
proof -
  obtain b where b: "encode_call (ct_token c, ct_uid c, User_get_info i) (ct_buf c) = Inr b"
    using request_made [OF assms(1), of "User_get_info i"] by auto
  have "length blk = BUFSIZ"
    using encode_reply_length [OF assms(4)] assms(5) by simp
  then have "api_call fd b \<lparr>nt_send = Inr k, nt_recv = [Net_data blk]\<rparr> (c\<lparr>ct_buf := b\<rparr>) =
      Inr (reply_view (200, Rp_user_info u ph e), c\<lparr>ct_buf := b, ct_conn_buf := blk\<rparr>)"
    using api_call_reads [of fd "c\<lparr>ct_buf := b\<rparr>"] assms encode_reply_parse [of _ buf 200 blk "[]"]
    by (simp add: client_ok_def response_sizes)
  then show ?thesis
    using b by (simp add: get_user_info_def client_simps r_user_def strlen_of_def strcpy_to_def Let_def)
qed

theorem get_user_info_overflows_witness:
  "\<exists>blk. get_user_info 3 1 \<lparr>nt_send = Inr 8192, nt_recv = [Net_data blk]\<rparr> example_client = Inl Out_Of_Bounds"
proof -
  let ?r = "Rp_user_info [97] [49] [98]"
  have r: "reply_ok ?r"
    by (simp add: is_field_def is_cstr_def BODY_DELIMITER_def response_sizes)
  then obtain blk where "encode_reply (200, ?r) (zeros BUFSIZ) = Inr blk"
    using encode_reply_total [of "(200, ?r)" BUFSIZ "zeros BUFSIZ"] by (auto simp: reply_wf_def response_sizes)
  then show ?thesis
    using get_user_info_overflows [of example_client 3 "[97]" "[49]" "[98]" "zeros BUFSIZ" blk 1 8192] r by auto
qed

text \<open>
  Reading a deleted text makes the client read out of bounds: the server keeps the length of
  the text when it empties it, and the client copies that many bytes of an empty content.
\<close>

theorem deleted_text_overreads:
  assumes "client_ok c" and "0 \<le> fd" and "ready s" "h_out s = []" and "accepted E c"
    and "filter (\<lambda>x. ms_id x = unat mid) (db_msgs (cn_db (h_conn s))) = [m]"
    and "may_see (cn_db (h_conn s)) (unat (ct_uid c)) (msg_place m)"
    and "ms_content m = []" "2 \<le> ms_clen m" "ms_clen m < 4294967296"
  shows "\<exists>b s'. make_request_msg_get_detail (ct_token c) (ct_uid c) mid (ct_buf c) = Inr b \<and>
    handle_req E [Recv_data b] s = Inr s' \<and> get_msg_detail fd mid None (over s') c = Inl Out_Of_Bounds"
proof -
  have "is_cstr (ms_content m)" "length (ms_content m) \<le> 7900"
    using assms(8) by (simp_all add: is_cstr_def)
  from read_exchange [OF assms(1-7) this] obtain b s' blk where
    "make_request_msg_get_detail (ct_token c) (ct_uid c) mid (ct_buf c) = Inr b"
    "handle_req E [Recv_data b] s = Inr s'"
    "api_call fd b (over s') (c\<lparr>ct_buf := b\<rparr>) =
      Inr (reply_view (200, Rp_msg_detail (detail_of (msg_of mid m))), c\<lparr>ct_buf := b, ct_conn_buf := blk\<rparr>)"
    by blast
  moreover have "\<not> unat (of_nat (ms_clen m) :: u32) \<le> 1"
    using assms(9,10) by (simp add: unat_of_nat take_bit_nat_eq_self)
  ultimately show ?thesis
    using assms(8)
    by (simp add: get_msg_detail_def client_simps r_msg_def detail_of_def msg_of_def copy_content_def
        content_mem_def mem_read_def)
qed

definition emptied_db :: db where
  "emptied_db = thread_db\<lparr>db_msgs := [\<lparr>ms_id = 1, ms_from = 1, ms_reply = None, ms_ctype = 0, ms_clen = 5,
     ms_content = [], ms_created = 5, ms_chat = None, ms_conv = Some 1, ms_type = 2\<rparr>]\<rparr>"

theorem deleted_text_overreads_witness:
  "\<exists>b s'. make_request_msg_get_detail (ct_token example_client) 1 1 (ct_buf example_client) = Inr b \<and>
    handle_req example_env [Recv_data b] (example_state emptied_db) = Inr s' \<and>
    get_msg_detail 3 1 None (over s') example_client = Inl Out_Of_Bounds"
  using deleted_text_overreads [of example_client 3 "example_state emptied_db" example_env 1 "hd (db_msgs emptied_db)"]
  by (simp add: emptied_db_def thread_db_def may_see_def msg_place_def is_conv_member_def opt_int_def)

section \<open>Answers in pieces\<close>

text \<open>
  An answer that arrives in two pieces is not put together: the second piece overwrites the
  beginning of the first, and what the client parses is that block.
\<close>

theorem api_pieces_overlay:
  assumes "0 \<le> fd" and "length (ct_conn_buf c) = BUFSIZ" and "nt_send n = Inr k"
    and "nt_recv n = [Net_data p1, Net_data p2]" "p1 \<noteq> []" "p2 \<noteq> []" "length p1 + length p2 = BUFSIZ"
    and "blk = p2 @ drop (length p2) (p1 @ zeros (length p2))"
  shows "api_call fd req n c = bindE (response_parse blk) (\<lambda>r. Inr (r, c\<lparr>ct_conn_buf := blk\<rparr>))"
proof -
  have "zeros BUFSIZ = zeros (length p1) @ zeros (length p2)"
    by (simp add: assms(7) [symmetric] replicate_add)
  moreover have "length p1 < BUFSIZ"
    using assms(6,7) by (cases p2) auto
  ultimately show ?thesis
    using assms by (simp add: api_call_def mem_write_def Let_def)
qed

theorem api_pieces_overlay_witness:
  "api_call 3 [] \<lparr>nt_send = Inr 8192, nt_recv = [Net_data (replicate 4096 1), Net_data (zeros 4096)]\<rparr> example_client =
    bindE (response_parse (zeros BUFSIZ)) (\<lambda>r. Inr (r, example_client\<lparr>ct_conn_buf := zeros BUFSIZ\<rparr>))"
  using api_pieces_overlay [of 3 example_client
      "\<lparr>nt_send = Inr 8192, nt_recv = [Net_data (replicate 4096 1), Net_data (zeros 4096)]\<rparr>" 8192
      "replicate 4096 1" "zeros 4096"]
  by (simp add: BUFSIZ_def example_client_def flip: replicate_add)

end
