(* ===== verification/Lifetime.thy ===== *)
theory Lifetime
  imports Strings Request Response Sql
begin

text \<open>
  What the parsers and the queries allocate, and what the destructors of
  \<^verbatim>\<open>server/src/request.c\<close>, \<^verbatim>\<open>server/src/response.c\<close> and \<^verbatim>\<open>server/src/sql.c\<close> give back. The store has the
  registry of strings of \<open>Strings\<close> and the blocks that come straight from \<^verbatim>\<open>calloc\<close> and \<^verbatim>\<open>malloc\<close>. Which
  address \<^verbatim>\<open>malloc\<close> returns is a function of the store, zero when there is no memory. \<open>None\<close> is undefined
  behaviour, such as a second \<^verbatim>\<open>free\<close>, or a failed assertion. The values of the fields are those of the
  parsers of \<open>Request\<close> and \<open>Response\<close>; here a string is its address.
\<close>

section \<open>The store\<close>

record store =
  so_pool :: pool
  so_blocks :: "ptr set"

abbreviation strings_of :: "store \<Rightarrow> (ptr \<rightharpoonup> bytes)" where
  "strings_of st \<equiv> pl_mem (so_pool st)"

type_synonym allocator = "store \<Rightarrow> ptr"

definition in_use :: "store \<Rightarrow> ptr set" where
  "in_use st = dom (strings_of st) \<union> dom (snd (pl_list (so_pool st))) \<union> so_blocks st"

definition malloc_ok :: "allocator \<Rightarrow> bool" where
  "malloc_ok A \<longleftrightarrow> (\<forall>st. A st \<noteq> 0 \<longrightarrow> A st \<notin> in_use st)"

definition calloc :: "allocator \<Rightarrow> store \<Rightarrow> (ptr \<times> store) option" where
  "calloc A st =
     (let p = A st in if p = 0 then None else Some (p, st\<lparr>so_blocks := insert p (so_blocks st)\<rparr>))"

definition free_block :: "ptr \<Rightarrow> store \<Rightarrow> store option" where
  "free_block p st =
     (if p \<in> so_blocks st then Some (st\<lparr>so_blocks := so_blocks st - {p}\<rparr>) else None)"

text \<open>The constructors of strings: a C string, at most \<open>n\<close> bytes of one, and \<open>n\<close> bytes.\<close>

datatype source = Str bytes | Str_n bytes nat | Mem_n bytes nat

fun construct :: "source \<Rightarrow> ptr \<Rightarrow> ptr \<Rightarrow> pool \<Rightarrow> pool option" where
  "construct (Str s) q p = string_new q p s"
| "construct (Str_n s n) q p = string_new_n q p s n"
| "construct (Mem_n s n) q p = string_mem_n q p s n"

text \<open>The string is allocated first, then the node of the registry.\<close>

definition alloc_string :: "allocator \<Rightarrow> source \<Rightarrow> store \<Rightarrow> (ptr \<times> store) option" where
  "alloc_string A src st =
     (let p = A st; q = A (st\<lparr>so_blocks := insert p (so_blocks st)\<rparr>)
      in map_option (\<lambda>pl. (p, st\<lparr>so_pool := pl\<rparr>)) (construct src q p (so_pool st)))"

text \<open>The string fields of a record in their order; a field that is not set is \<^verbatim>\<open>NULL\<close>.\<close>

fun alloc_fields :: "allocator \<Rightarrow> source option list \<Rightarrow> store \<Rightarrow> (ptr list \<times> store) option" where
  "alloc_fields A [] st = Some ([], st)"
| "alloc_fields A (None # xs) st = map_option (\<lambda>(ps, st'). (0 # ps, st')) (alloc_fields A xs st)"
| "alloc_fields A (Some src # xs) st =
     Option.bind (alloc_string A src st) (\<lambda>(p, st1).
       map_option (\<lambda>(ps, st'). (p # ps, st')) (alloc_fields A xs st1))"

definition remove_string :: "ptr \<Rightarrow> store \<Rightarrow> store option" where
  "remove_string p st = map_option (\<lambda>pl. st\<lparr>so_pool := pl\<rparr>) (string_remove p (so_pool st))"

text \<open>Strings are removed when they are not \<^verbatim>\<open>NULL\<close>.\<close>

fun release_fields :: "ptr list \<Rightarrow> store \<Rightarrow> store option" where
  "release_fields [] st = Some st"
| "release_fields (p # ps) st =
     (if p = 0 then release_fields ps st else Option.bind (remove_string p st) (release_fields ps))"

section \<open>Requests\<close>

record request_mem =
  rp_self :: ptr
  rp_token :: ptr
  rp_body :: ptr
  rp_fields :: "ptr list"

definition request_body_destroy :: "ptr \<Rightarrow> ptr list \<Rightarrow> store \<Rightarrow> store option" where
  "request_body_destroy body strs st =
     (if body = 0 then Some st else Option.bind (release_fields strs st) (free_block body))"

definition request_destroy :: "request_mem option \<Rightarrow> store \<Rightarrow> store option" where
  "request_destroy req st =
     (case req of
        None \<Rightarrow> Some st
      | Some r \<Rightarrow>
          Option.bind (request_body_destroy (rp_body r) (rp_fields r) st) (free_block (rp_self r)))"

text \<open>The strings of a body that was parsed, and how each is made.\<close>

fun request_sources :: "request_header \<Rightarrow> bytes \<Rightarrow> request_body \<Rightarrow> source option list" where
  "request_sources header body (R_auth ra) =
     map (map_option Str) [ra_uname ra, ra_password ra, ra_phone ra, ra_email ra]"
| "request_sources header body (R_user ru) =
     [map_option (\<lambda>_. Str_n body (unat (rq_body_len header))) (ru_uname ru)]"
| "request_sources header body (R_conv rc) =
     [map_option (\<lambda>_. Str_n body (unat (rq_body_len header))) (rc_gname rc)]"
| "request_sources header body (R_chat rh) = []"
| "request_sources header body (R_msg rm) =
     [map_option (\<lambda>_. Str_n (drop 12 body) (unat (rq_body_len header - 12))) (rm_msg_content rm)]"

text \<open>
  When the body is rejected, \<^verbatim>\<open>request_parse_auth\<close> has already made the name and the password; the
  other parsers have made no string.
\<close>

definition rejected_sources :: "request_header \<Rightarrow> bytes \<Rightarrow> source option list option" where
  "rejected_sources header body =
     (if rq_group header \<noteq> 0 then Some []
      else
        case bindE (mem_read body 0 (unat (rq_body_len header))) (\<lambda>copy.
             bindE (field_tokenizer (copy @ [0]) 0) (\<lambda>(body1, rest1).
             bindE (field_tokenizer body1 rest1) (\<lambda>(body2, rest2).
             bindE (cstr body2 0) (\<lambda>uname.
             bindE (cstr body2 rest1) (\<lambda>password. Inr (uname, password)))))) of
          Inl _ \<Rightarrow> None
        | Inr (uname, password) \<Rightarrow> Some [Some (Str uname), Some (Str password), None, None])"

text \<open>The body, when the group has a parser, and the end of \<^verbatim>\<open>request_parse\<close>.\<close>

definition request_body_mem ::
    "allocator \<Rightarrow> request_header \<Rightarrow> bytes \<Rightarrow> ptr \<Rightarrow> ptr \<Rightarrow> store \<Rightarrow> (request_mem option \<times> store) option" where
  "request_body_mem A header buf self token st =
     Option.bind (calloc A st) (\<lambda>(body, st1).
       case request_parse_body header buf of
         Inl _ \<Rightarrow> None
       | Inr (Some b) \<Rightarrow>
           map_option (\<lambda>(strs, st'). (Some \<lparr>rp_self = self, rp_token = token,
               rp_body = body, rp_fields = strs\<rparr>, st'))
             (alloc_fields A (request_sources header (drop REQUEST_HEADER_LEN buf) b) st1)
       | Inr None \<Rightarrow>
           Option.bind (rejected_sources header (drop REQUEST_HEADER_LEN buf)) (\<lambda>srcs.
           Option.bind (alloc_fields A srcs st1) (\<lambda>(strs, st2).
           Option.bind (request_body_destroy body strs st2) (\<lambda>st3.
             map_option (\<lambda>st'. (None, st')) (free_block self st3)))))"

definition request_parse_mem :: "allocator \<Rightarrow> bytes \<Rightarrow> store \<Rightarrow> (request_mem option \<times> store) option" where
  "request_parse_mem A buf st =
     (case request_parse_header buf of
        Inl _ \<Rightarrow> None
      | Inr header \<Rightarrow>
          Option.bind (calloc A st) (\<lambda>(self, st1).
          Option.bind (alloc_string A (Mem_n (drop 16 buf) TOKEN_LEN) st1) (\<lambda>(token, st2).
            if 4 < rq_group header then map_option (\<lambda>st'. (None, st')) (free_block self st2)
            else request_body_mem A header buf self token st2)))"

text \<open>Requests that are parsed and destroyed one after the other, as \<^verbatim>\<open>handle_req\<close> does.\<close>

fun requests_served :: "allocator \<Rightarrow> bytes list \<Rightarrow> store \<Rightarrow> store option" where
  "requests_served A [] st = Some st"
| "requests_served A (buf # bufs) st =
     Option.bind (request_parse_mem A buf st) (\<lambda>(req, st1).
     Option.bind (request_destroy req st1) (requests_served A bufs))"

section \<open>Responses\<close>

record response_mem =
  sp_self :: ptr
  sp_body :: ptr
  sp_idls :: ptr
  sp_fields :: "ptr list"

definition response_body_destroy :: "ptr \<Rightarrow> ptr \<Rightarrow> ptr list \<Rightarrow> store \<Rightarrow> store option" where
  "response_body_destroy body idls strs st =
     (if body = 0 then Some st
      else
        Option.bind (if idls = 0 then Some st else free_block idls st) (\<lambda>st1.
        Option.bind (release_fields strs st1) (free_block body)))"

definition response_destroy :: "response_mem option \<Rightarrow> store \<Rightarrow> store option" where
  "response_destroy res st =
     (case res of
        None \<Rightarrow> Some st
      | Some r \<Rightarrow>
          Option.bind (response_body_destroy (sp_body r) (sp_idls r) (sp_fields r) st)
            (free_block (sp_self r)))"

fun response_sources :: "response_header \<Rightarrow> bytes \<Rightarrow> response_body \<Rightarrow> source option list" where
  "response_sources header body (S_auth sa) = [Some (Mem_n body TOKEN_LEN)]"
| "response_sources header body (S_user su) =
     map (map_option Str) [su_uname su, su_phone su, su_email su]"
| "response_sources header body (S_conv sc) =
     [map_option (\<lambda>_. Str_n (drop 4 body) (unat (rs_body_len header - 4))) (sc_gname sc)]"
| "response_sources header body (S_chat sh) = []"
| "response_sources header body (S_msg sm) =
     [map_option (\<lambda>_. if rs_action header = 6 then Str_n body (unat (rs_body_len header))
        else Str_n (drop 30 body) (unat (rs_body_len header - 30))) (sm_msg_content sm)]"

fun has_idls :: "response_body \<Rightarrow> bool" where
  "has_idls (S_auth sa) = False"
| "has_idls (S_user su) = (su_idls su \<noteq> None)"
| "has_idls (S_conv sc) = (sc_idls sc \<noteq> None)"
| "has_idls (S_chat sh) = (sh_idls sh \<noteq> None)"
| "has_idls (S_msg sm) = (sm_idls sm \<noteq> None)"

definition response_body_mem ::
    "allocator \<Rightarrow> response_header \<Rightarrow> bytes \<Rightarrow> ptr \<Rightarrow> store \<Rightarrow> (response_mem option \<times> store) option" where
  "response_body_mem A header buf self st =
     Option.bind (calloc A st) (\<lambda>(body, st1).
       case response_parse_body header buf RESPONSE_HEADER_LEN of
         Inl _ \<Rightarrow> None
       | Inr (Some b) \<Rightarrow>
           Option.bind (if has_idls b then calloc A st1 else Some (0, st1)) (\<lambda>(idls, st2).
             map_option (\<lambda>(strs, st'). (Some \<lparr>sp_self = self, sp_body = body,
                 sp_idls = idls, sp_fields = strs\<rparr>, st'))
               (alloc_fields A (response_sources header (drop RESPONSE_HEADER_LEN buf) b) st2))
       | Inr None \<Rightarrow>
           Option.bind (response_body_destroy body 0 [] st1) (\<lambda>st2.
             map_option (\<lambda>st'. (None, st')) (free_block self st2)))"

definition response_parse_mem :: "allocator \<Rightarrow> bytes \<Rightarrow> store \<Rightarrow> (response_mem option \<times> store) option" where
  "response_parse_mem A buf st =
     (case response_parse_header buf of
        Inl _ \<Rightarrow> None
      | Inr header \<Rightarrow>
          Option.bind (calloc A st) (\<lambda>(self, st1).
            if 4 < rs_group header then map_option (\<lambda>st'. (None, st')) (free_block self st1)
            else response_body_mem A header buf self st1))"

section \<open>Rows of the database\<close>

text \<open>
  A query for one row allocates the record first. When there is no row, some of the functions free
  it and some do not; \<open>frees\<close> says which. Without memory the result is \<^verbatim>\<open>NULL\<close>.
\<close>

record row_mem =
  rw_self :: ptr
  rw_fields :: "ptr list"

definition load_row :: "allocator \<Rightarrow> bool \<Rightarrow> source option list option \<Rightarrow> store \<Rightarrow> (row_mem option \<times> store) option" where
  "load_row A frees row st =
     (case calloc A st of
        None \<Rightarrow> Some (None, st)
      | Some (self, st1) \<Rightarrow>
          (case row of
             None \<Rightarrow>
               if frees then map_option (\<lambda>st'. (None, st')) (free_block self st1) else Some (None, st1)
           | Some srcs \<Rightarrow>
               map_option (\<lambda>(strs, st'). (Some \<lparr>rw_self = self, rw_fields = strs\<rparr>, st'))
                 (alloc_fields A srcs st1)))"

definition user_get_by_id_mem :: "allocator \<Rightarrow> user_schema option \<Rightarrow> store \<Rightarrow> (row_mem option \<times> store) option" where
  "user_get_by_id_mem A user =
     load_row A True (map_option (\<lambda>u. map (map_option Str)
       [us_uname u, us_password u, us_phone u, us_email u]) user)"

definition user_get_by_uname_mem :: "allocator \<Rightarrow> user_schema option \<Rightarrow> store \<Rightarrow> (row_mem option \<times> store) option" where
  "user_get_by_uname_mem A user =
     load_row A False (map_option (\<lambda>u. map (map_option Str) [us_uname u, us_password u, None, None]) user)"

definition conv_get_info_mem :: "allocator \<Rightarrow> conv_schema option \<Rightarrow> store \<Rightarrow> (row_mem option \<times> store) option" where
  "conv_get_info_mem A conv = load_row A True (map_option (\<lambda>v. [map_option Str (vs_name v)]) conv)"

definition chat_get_info_mem :: "allocator \<Rightarrow> chat_schema option \<Rightarrow> store \<Rightarrow> (row_mem option \<times> store) option" where
  "chat_get_info_mem A chat = load_row A True (map_option (\<lambda>_. []) chat)"

definition msg_get_detail_mem :: "allocator \<Rightarrow> msg_schema option \<Rightarrow> store \<Rightarrow> (row_mem option \<times> store) option" where
  "msg_get_detail_mem A msg = load_row A False (map_option (\<lambda>m. [map_option Str (mg_content m)]) msg)"

text \<open>These destructors call \<^verbatim>\<open>string_remove\<close> on \<^verbatim>\<open>NULL\<close>, too.\<close>

fun remove_strings :: "ptr list \<Rightarrow> store \<Rightarrow> store option" where
  "remove_strings [] st = Some st"
| "remove_strings (p # ps) st = Option.bind (remove_string p st) (remove_strings ps)"

definition row_free :: "row_mem option \<Rightarrow> store \<Rightarrow> store option" where
  "row_free row st =
     (case row of
        None \<Rightarrow> Some st
      | Some r \<Rightarrow> Option.bind (remove_strings (rw_fields r) st) (free_block (rw_self r)))"

definition user_free :: "row_mem option \<Rightarrow> store \<Rightarrow> store option" where
  "user_free = row_free"

definition conv_free :: "row_mem option \<Rightarrow> store \<Rightarrow> store option" where
  "conv_free = row_free"

definition chat_free :: "row_mem option \<Rightarrow> store \<Rightarrow> store option" where
  "chat_free = row_free"

definition msg_free :: "row_mem option \<Rightarrow> store \<Rightarrow> store option" where
  "msg_free = row_free"

section \<open>What is allocated is released\<close>

definition store_ok :: "store \<Rightarrow> bool" where
  "store_ok st \<longleftrightarrow> pool_ok (so_pool st) \<and> 0 \<notin> dom (strings_of st)"

lemma store_ok_blocks [simp]: "store_ok (st\<lparr>so_blocks := bs\<rparr>) = store_ok st"
  by (simp add: store_ok_def)

lemma register_cases:
  assumes "register q p s pl = Some pl'" and "pool_ok pl" "p \<notin> dom (pl_mem pl)" "q \<notin> dom (snd (pl_list pl))"
  shows "p \<noteq> 0 \<and> pool_ok pl' \<and> pl_mem pl' = (pl_mem pl)(p \<mapsto> s)"
proof -
  have "p \<noteq> 0" "q \<noteq> 0"
    using assms(1) by (auto simp: register_def sll_insert_node_def split: if_splits option.splits prod.splits)
  then show ?thesis
    using register_ok [OF assms(2) _ assms(3), of q s] assms(1,4) by (auto simp: sll_fresh_def)
qed

lemma construct_cases:
  assumes "construct src q p pl = Some pl'" and "pool_ok pl" "p \<notin> dom (pl_mem pl)" "q \<notin> dom (snd (pl_list pl))"
  shows "p \<noteq> 0 \<and> pool_ok pl' \<and> (\<exists>s. pl_mem pl' = (pl_mem pl)(p \<mapsto> s) \<and>
    (\<forall>bs n. src = Mem_n bs n \<longrightarrow> s = take n bs))"
  using assms register_cases [OF _ assms(2-4)]
  by (cases src)
    (fastforce simp: string_new_def string_new_n_def string_mem_n_def mem_read_def split: sum.splits if_splits)+

lemma malloc_fresh:
  assumes "malloc_ok A" and "A st \<noteq> 0"
  shows "A st \<notin> dom (strings_of st)" "A st \<notin> dom (snd (pl_list (so_pool st)))" "A st \<notin> so_blocks st"
  using assms by (auto simp: malloc_ok_def in_use_def)

lemma calloc_cases:
  assumes "malloc_ok A" and "calloc A st = Some (p, st')"
  shows "p \<noteq> 0" "p \<notin> so_blocks st" "st' = st\<lparr>so_blocks := insert p (so_blocks st)\<rparr>"
  using assms malloc_fresh [OF assms(1)] by (auto simp: calloc_def Let_def split: if_splits)

lemma alloc_string_cases:
  assumes "malloc_ok A" and "store_ok st" and "alloc_string A src st = Some (p, st')"
  shows "p \<notin> dom (strings_of st) \<and> store_ok st' \<and> so_blocks st' = so_blocks st \<and>
    (\<exists>s. strings_of st' = (strings_of st)(p \<mapsto> s) \<and> (\<forall>bs n. src = Mem_n bs n \<longrightarrow> s = take n bs))"
proof -
  let ?q = "A (st\<lparr>so_blocks := insert p (so_blocks st)\<rparr>)"
  obtain pl where pl: "construct src ?q p (so_pool st) = Some pl" "st' = st\<lparr>so_pool := pl\<rparr>" "p = A st"
    using assms(3) by (auto simp: alloc_string_def Let_def)
  have "p \<noteq> 0 \<and> ?q \<noteq> 0"
    using pl(1) by (cases src)
      (auto simp: string_new_def string_new_n_def string_mem_n_def register_def sll_insert_node_def
        split: sum.splits if_splits option.splits prod.splits)
  then have "p \<notin> dom (strings_of st)" "?q \<notin> dom (snd (pl_list (so_pool st)))"
    using malloc_fresh [OF assms(1)] pl(3) by fastforce+
  then show ?thesis
    using construct_cases [OF pl(1)] assms(2) pl(2) by (auto simp: store_ok_def)
qed

lemma remove_string_ok:
  assumes "store_ok st"
  shows "\<exists>st'. remove_string p st = Some st' \<and> store_ok st' \<and> so_blocks st' = so_blocks st \<and>
    strings_of st' = (strings_of st)(p := None)"
  using string_remove_ok [of "so_pool st" p] assms by (auto simp: remove_string_def store_ok_def)

lemma remove_strings_ok:
  "store_ok st \<Longrightarrow> \<exists>st'. remove_strings ps st = Some st' \<and> store_ok st' \<and> so_blocks st' = so_blocks st \<and>
     strings_of st' = strings_of st |` (- set ps)"
proof (induction ps arbitrary: st)
  case (Cons p ps)
  obtain st1 where st1: "remove_string p st = Some st1" "store_ok st1" "so_blocks st1 = so_blocks st"
    "strings_of st1 = (strings_of st)(p := None)"
    using remove_string_ok [OF Cons.prems] by blast
  then show ?case
    using Cons.IH [OF st1(2)] unfolding st1(3,4) restrict_free by simp
qed (simp add: restrict_map_def)

text \<open>On a store without a string at \<^verbatim>\<open>NULL\<close> the test for \<^verbatim>\<open>NULL\<close> makes no difference.\<close>

lemma release_fields_ok:
  "store_ok st \<Longrightarrow> \<exists>st'. release_fields ps st = Some st' \<and> store_ok st' \<and> so_blocks st' = so_blocks st \<and>
     strings_of st' = strings_of st |` (- set ps)"
proof (induction ps arbitrary: st)
  case (Cons p ps)
  show ?case
  proof (cases "p = 0")
    case True
    have "(strings_of st)(0 := None) = strings_of st"
      using Cons.prems by (auto simp: store_ok_def fun_eq_iff domIff)
    then show ?thesis
      using Cons.IH [OF Cons.prems] True restrict_free [of "strings_of st" 0 "set ps"] by simp
  next
    case False
    obtain st1 where st1: "remove_string p st = Some st1" "store_ok st1" "so_blocks st1 = so_blocks st"
      "strings_of st1 = (strings_of st)(p := None)"
      using remove_string_ok [OF Cons.prems] by blast
    then show ?thesis
      using Cons.IH [OF st1(2)] False unfolding st1(3,4) restrict_free by simp
  qed
qed (simp add: restrict_map_def)

lemma alloc_fields_cases:
  "malloc_ok A \<Longrightarrow> store_ok st \<Longrightarrow> alloc_fields A srcs st = Some (ps, st') \<Longrightarrow>
   store_ok st' \<and> so_blocks st' = so_blocks st \<and> strings_of st' |` (- set ps) = strings_of st"
proof (induction srcs arbitrary: st ps)
  case (Cons src srcs)
  show ?case
  proof (cases src)
    case None
    then obtain qs where qs: "alloc_fields A srcs st = Some (qs, st')" "ps = 0 # qs"
      using Cons.prems(3) by auto
    then have IH: "store_ok st' \<and> so_blocks st' = so_blocks st \<and> strings_of st' |` (- set qs) = strings_of st"
      using Cons.IH [OF Cons.prems(1,2)] by blast
    then have "strings_of st' |` (- set ps) = (strings_of st)(0 := None)"
      using qs(2) by (auto simp: restrict_map_def fun_eq_iff)
    then show ?thesis
      using IH Cons.prems(2) by (auto simp: store_ok_def fun_eq_iff domIff)
  next
    case (Some s)
    then obtain p st1 qs where p: "alloc_string A s st = Some (p, st1)"
      "alloc_fields A srcs st1 = Some (qs, st')" "ps = p # qs"
      using Cons.prems(3) by (auto simp: bind_eq_Some_conv)
    from alloc_string_cases [OF Cons.prems(1,2) p(1)] obtain c where
      c: "p \<notin> dom (strings_of st)" "store_ok st1" "so_blocks st1 = so_blocks st"
      "strings_of st1 = (strings_of st)(p \<mapsto> c)" by blast
    have IH: "store_ok st'" "so_blocks st' = so_blocks st1" "strings_of st' |` (- set qs) = strings_of st1"
      using Cons.IH [OF Cons.prems(1) c(2) p(2)] by blast+
    have "strings_of st' |` (- set ps) = (strings_of st1)(p := None)"
      unfolding IH(3) [symmetric] using p(3) by (auto simp: restrict_map_def fun_eq_iff)
    also have "\<dots> = strings_of st"
      using c(1,4) by (auto simp: fun_eq_iff domIff)
    finally show ?thesis
      using IH c by simp
  qed
qed (simp add: restrict_map_def)

lemma release_allocated:
  assumes "malloc_ok A" and "store_ok st" and "alloc_fields A srcs st = Some (ps, st')"
  shows "\<exists>st2. release_fields ps st' = Some st2 \<and> store_ok st2 \<and> so_blocks st2 = so_blocks st \<and>
    strings_of st2 = strings_of st"
  using release_fields_ok [of st' ps] alloc_fields_cases [OF assms] by auto

lemma request_body_released:
  assumes "malloc_ok A" and "store_ok st" and "calloc A st = Some (body, st1)"
    and "alloc_fields A srcs st1 = Some (ps, st2)"
  shows "\<exists>st3. request_body_destroy body ps st2 = Some st3 \<and> store_ok st3 \<and>
    so_blocks st3 = so_blocks st \<and> strings_of st3 = strings_of st"
proof -
  have body: "body \<noteq> 0" "body \<notin> so_blocks st" "st1 = st\<lparr>so_blocks := insert body (so_blocks st)\<rparr>"
    using calloc_cases [OF assms(1,3)] by simp_all
  then have "store_ok st1"
    using assms(2) by simp
  then obtain st3 where "release_fields ps st2 = Some st3" "store_ok st3" "so_blocks st3 = so_blocks st1"
    "strings_of st3 = strings_of st1"
    using release_allocated [OF assms(1) _ assms(4)] by blast
  then show ?thesis
    using body by (simp add: request_body_destroy_def free_block_def)
qed

section \<open>Leaks\<close>

text \<open>What the body and the record itself took is given back by \<^verbatim>\<open>request_destroy\<close>, or was before.\<close>

lemma request_body_balanced:
  assumes "malloc_ok A" and "store_ok st" and "self \<in> so_blocks st"
    and "request_body_mem A header buf self token st = Some (req, st1)"
  shows "\<exists>st2. request_destroy req st1 = Some st2 \<and> store_ok st2 \<and>
    so_blocks st2 = so_blocks st - {self} \<and> strings_of st2 = strings_of st"
proof -
  obtain body sa where body: "calloc A st = Some (body, sa)"
    using assms(4) by (auto simp: request_body_mem_def bind_eq_Some_conv)
  note released = request_body_released [OF assms(1,2) body]
  show ?thesis
  proof (cases "\<exists>b. request_parse_body header buf = Inr (Some b)")
    case True
    then obtain srcs ps where ps: "alloc_fields A srcs sa = Some (ps, st1)"
      and req: "req = Some \<lparr>rp_self = self, rp_token = token, rp_body = body, rp_fields = ps\<rparr>"
      using assms(4) body by (auto simp: request_body_mem_def)
    obtain sb where "request_body_destroy body ps st1 = Some sb" "store_ok sb" "so_blocks sb = so_blocks st"
      "strings_of sb = strings_of st"
      using released [OF ps] by blast
    then show ?thesis
      using assms(3) by (simp add: req request_destroy_def free_block_def)
  next
    case False
    then have "request_parse_body header buf = Inr None"
      using assms(4) body by (cases "request_parse_body header buf") (auto simp: request_body_mem_def)
    then obtain srcs ps sb sc where ps: "alloc_fields A srcs sa = Some (ps, sb)"
      and sc: "request_body_destroy body ps sb = Some sc" "free_block self sc = Some st1" and req: "req = None"
      using assms(4) body by (auto simp: request_body_mem_def bind_eq_Some_conv)
    have "store_ok sc" "so_blocks sc = so_blocks st" "strings_of sc = strings_of st"
      using released [OF ps] sc(1) by simp_all
    moreover have "st1 = sc\<lparr>so_blocks := so_blocks sc - {self}\<rparr>"
      using sc(2) by (simp add: free_block_def split: if_splits)
    ultimately show ?thesis
      by (simp add: req request_destroy_def)
  qed
qed

lemma request_token_stays:
  assumes "malloc_ok A" and "store_ok st" and "request_parse_mem A buf st = Some (req, st1)"
  shows "\<exists>st2 tok. request_destroy req st1 = Some st2 \<and> store_ok st2 \<and> so_blocks st2 = so_blocks st \<and>
    tok \<notin> dom (strings_of st) \<and> strings_of st2 = (strings_of st)(tok \<mapsto> take TOKEN_LEN (drop 16 buf))"
proof -
  obtain header self sa tok sb where self: "calloc A st = Some (self, sa)"
    and tok: "alloc_string A (Mem_n (drop 16 buf) TOKEN_LEN) sa = Some (tok, sb)"
    and run: "(if 4 < rq_group header then map_option (\<lambda>st'. (None, st')) (free_block self sb)
      else request_body_mem A header buf self tok sb) = Some (req, st1)"
    using assms(3) by (auto simp: request_parse_mem_def bind_eq_Some_conv split: sum.splits)
  have sa: "self \<notin> so_blocks st" "store_ok sa" "strings_of sa = strings_of st"
    "so_blocks sa = insert self (so_blocks st)"
    using calloc_cases [OF assms(1) self] assms(2) by simp_all
  have sb: "tok \<notin> dom (strings_of st)" "store_ok sb" "so_blocks sb = insert self (so_blocks st)"
    "strings_of sb = (strings_of st)(tok \<mapsto> take TOKEN_LEN (drop 16 buf))"
    using alloc_string_cases [OF assms(1) sa(2) tok] sa(3,4) by auto
  show ?thesis
  proof (cases "4 < rq_group header")
    case True
    then show ?thesis
      using run sb sa(1) by (auto simp: request_destroy_def free_block_def)
  next
    case False
    then show ?thesis
      using request_body_balanced [OF assms(1) sb(2), of self header buf tok req st1] run sb sa(1) by auto
  qed
qed

lemma finite_strings: "store_ok st \<Longrightarrow> finite (dom (strings_of st))"
  by (auto simp: store_ok_def pool_ok_def)

text \<open>
  The server leaks the token of every request: whatever requests are parsed and destroyed one
  after the other, well-formed or not, every block is given back, and the registry has exactly one
  string more for each request.
\<close>

theorem requests_leak_tokens:
  assumes "malloc_ok A" and "store_ok st" and "requests_served A bufs st = Some st'"
  shows "store_ok st' \<and> so_blocks st' = so_blocks st \<and>
    card (dom (strings_of st')) = card (dom (strings_of st)) + length bufs"
  using assms(2,3)
proof (induction bufs arbitrary: st)
  case (Cons buf bufs)
  then obtain req st1 where st1: "request_parse_mem A buf st = Some (req, st1)"
    by (auto simp: bind_eq_Some_conv)
  from request_token_stays [OF assms(1) Cons.prems(1) st1] obtain st2 tok where
    st2: "request_destroy req st1 = Some st2" "store_ok st2" "so_blocks st2 = so_blocks st"
    "tok \<notin> dom (strings_of st)" "strings_of st2 = (strings_of st)(tok \<mapsto> take TOKEN_LEN (drop 16 buf))"
    by blast
  have "requests_served A bufs st2 = Some st'"
    using Cons.prems(2) st1 st2(1) by simp
  moreover have "card (dom (strings_of st2)) = Suc (card (dom (strings_of st)))"
    unfolding st2(5) dom_fun_upd using st2(4) finite_strings [OF Cons.prems(1)] by simp
  ultimately show ?case
    using Cons.IH [OF st2(2)] st2(3) by simp
qed simp

text \<open>An allocator that takes the first free address of a list, for examples.\<close>

definition first_free :: "ptr list \<Rightarrow> allocator" where
  "first_free ps st = (case filter (\<lambda>p. p \<notin> in_use st) ps of [] \<Rightarrow> 0 | p # _ \<Rightarrow> p)"

lemma first_free_ok: "malloc_ok (first_free ps)"
proof -
  have "first_free ps st \<notin> in_use st" if nz: "first_free ps st \<noteq> 0" for st
  proof -
    obtain p qs where f: "filter (\<lambda>p. p \<notin> in_use st) ps = p # qs"
      using nz by (cases "filter (\<lambda>p. p \<notin> in_use st) ps") (simp_all add: first_free_def)
    then show ?thesis
      by (auto simp: first_free_def dest!: filter_eq_ConsD)
  qed
  then show ?thesis by (simp add: malloc_ok_def)
qed

definition empty_store :: store where
  "empty_store = \<lparr>so_pool = empty_pool, so_blocks = {}\<rparr>"

lemma empty_store_ok: "store_ok empty_store"
  using pool_ok_empty by (simp add: store_ok_def empty_store_def empty_pool_def)

theorem requests_leak_tokens_witness:
  "\<exists>st'. requests_served (first_free [1, 2, 3, 4, 5, 6, 7, 8]) [replicate 48 5, 3 # 2 # zeros 46] empty_store = Some st' \<and>
    card (dom (strings_of st')) = 2 \<and> so_blocks st' = {}"
proof -
  have "\<exists>st'. requests_served (first_free [1, 2, 3, 4, 5, 6, 7, 8]) [replicate 48 5, 3 # 2 # zeros 46] empty_store = Some st'"
    by (simp add: request_parse_mem_def request_body_mem_def request_parse_header_def request_parse_body_def
        request_parse_chat_def first_free_def in_use_def empty_store_def empty_pool_def calloc_def free_block_def
        alloc_string_def string_mem_n_def mem_read_def register_def sll_insert_node_def parse_uint32_from_buf_def
        request_destroy_def request_body_destroy_def TOKEN_LEN_def Let_def)
  then show ?thesis
    using requests_leak_tokens [OF first_free_ok empty_store_ok] by (fastforce simp: empty_store_def empty_pool_def)
qed

section \<open>Responses and rows are released\<close>

lemma response_body_balanced:
  assumes "malloc_ok A" and "store_ok st" and "self \<in> so_blocks st"
    and "response_body_mem A header buf self st = Some (res, st1)"
  shows "\<exists>st2. response_destroy res st1 = Some st2 \<and> store_ok st2 \<and>
    so_blocks st2 = so_blocks st - {self} \<and> strings_of st2 = strings_of st"
proof -
  obtain body sa where "calloc A st = Some (body, sa)"
    using assms(4) by (auto simp: response_body_mem_def bind_eq_Some_conv)
  note body = this calloc_cases [OF assms(1) this]
  show ?thesis
  proof (cases "\<exists>b. response_parse_body header buf RESPONSE_HEADER_LEN = Inr (Some b)")
    case True
    then obtain b where b: "response_parse_body header buf RESPONSE_HEADER_LEN = Inr (Some b)" by blast
    obtain srcs idls sb ps where idls: "(if has_idls b then calloc A sa else Some (0, sa)) = Some (idls, sb)"
      and ps: "alloc_fields A srcs sb = Some (ps, st1)"
      and res: "res = Some \<lparr>sp_self = self, sp_body = body, sp_idls = idls, sp_fields = ps\<rparr>"
      using assms(4) body(1) b by (auto simp: response_body_mem_def bind_eq_Some_conv)
    have sb: "store_ok sb" "strings_of sb = strings_of st"
      "so_blocks sb = (if idls = 0 then so_blocks sa else insert idls (so_blocks sa))"
      "idls \<noteq> 0 \<Longrightarrow> idls \<notin> so_blocks sa"
      using idls body(4) assms(2) calloc_cases [OF assms(1), of sa idls sb] by (auto split: if_splits)
    have s1: "store_ok st1" "so_blocks st1 = so_blocks sb" "strings_of st1 |` (- set ps) = strings_of sb"
      using alloc_fields_cases [OF assms(1) sb(1) ps] by simp_all
    define t where "t = st1\<lparr>so_blocks := insert body (so_blocks st)\<rparr>"
    have "so_blocks st1 = insert body (so_blocks st)" if "idls = 0"
      using that sb(3) s1(2) body(4) by simp
    then have t: "(if idls = 0 then Some st1 else free_block idls st1) = Some t"
      using sb(3,4) s1(2) body(4) by (auto simp: t_def free_block_def)
    obtain st2 where "release_fields ps t = Some st2" "store_ok st2" "so_blocks st2 = so_blocks t"
      "strings_of st2 = strings_of t |` (- set ps)"
      using release_fields_ok [of t ps] s1(1) unfolding t_def by auto
    then show ?thesis
      using t s1(3) sb(2) body(2,3) assms(3)
      by (auto simp: res response_destroy_def response_body_destroy_def free_block_def t_def)
  next
    case False
    then show ?thesis
      using assms(2,3,4) body
      by (auto simp: response_body_mem_def bind_eq_Some_conv response_destroy_def response_body_destroy_def
          free_block_def split: sum.splits option.splits if_splits)
  qed
qed



text \<open>
  A row that was found is given back by its destructor, also when fields are not set; without a
  row the functions that do not free the record keep one block for ever.
\<close>

lemma row_lifetime:
  assumes "malloc_ok A" and "store_ok st" and "load_row A frees row st = Some (r, st1)"
  shows "\<exists>st2. row_free r st1 = Some st2 \<and> store_ok st2 \<and> strings_of st2 = strings_of st \<and>
    so_blocks st2 = (if row = None \<and> \<not> frees \<and> A st \<noteq> 0 then insert (A st) (so_blocks st) else so_blocks st)"
proof (cases "calloc A st")
  case None
  then show ?thesis
    using assms(2,3) by (auto simp: load_row_def row_free_def calloc_def Let_def split: if_splits)
next
  case (Some x)
  then obtain self sa where self: "calloc A st = Some (self, sa)"
    by (cases x) auto
  note c = calloc_cases [OF assms(1) self]
  have A: "A st = self" "self \<noteq> 0"
    using self by (auto simp: calloc_def Let_def split: if_splits)
  show ?thesis
  proof (cases row)
    case None
    then show ?thesis
      using assms(2,3) self c A by (auto simp: load_row_def row_free_def free_block_def split: if_splits)
  next
    case (Some srcs)
    then obtain ps where ps: "alloc_fields A srcs sa = Some (ps, st1)"
      and r: "r = Some \<lparr>rw_self = self, rw_fields = ps\<rparr>"
      using assms(3) self by (auto simp: load_row_def)
    have "store_ok st1 \<and> so_blocks st1 = so_blocks sa \<and> strings_of st1 |` (- set ps) = strings_of sa"
      using alloc_fields_cases [OF assms(1) _ ps] c(3) assms(2) by simp
    then show ?thesis
      using remove_strings_ok [of st1 ps] c A Some by (auto simp: r row_free_def free_block_def)
  qed
qed

lemmas row_mem_defs = user_get_by_id_mem_def user_get_by_uname_mem_def conv_get_info_mem_def
  chat_get_info_mem_def msg_get_detail_mem_def user_free_def conv_free_def chat_free_def msg_free_def

text \<open>
  The functions that read a user by identifier, a conversation or a chat are balanced by their
  destructors; those that read a user by name or a message keep a block when there is none.
\<close>

theorem rows_are_released:
  assumes "malloc_ok A" and "store_ok st"
  shows "user_get_by_id_mem A u st = Some (r, st1) \<Longrightarrow>
      \<exists>st2. user_free r st1 = Some st2 \<and> so_blocks st2 = so_blocks st \<and> strings_of st2 = strings_of st"
    and "conv_get_info_mem A v st = Some (r, st1) \<Longrightarrow>
      \<exists>st2. conv_free r st1 = Some st2 \<and> so_blocks st2 = so_blocks st \<and> strings_of st2 = strings_of st"
    and "chat_get_info_mem A h st = Some (r, st1) \<Longrightarrow>
      \<exists>st2. chat_free r st1 = Some st2 \<and> so_blocks st2 = so_blocks st \<and> strings_of st2 = strings_of st"
    and "msg_get_detail_mem A (Some m) st = Some (r, st1) \<Longrightarrow>
      \<exists>st2. msg_free r st1 = Some st2 \<and> so_blocks st2 = so_blocks st \<and> strings_of st2 = strings_of st"
  unfolding row_mem_defs using row_lifetime [OF assms] by fastforce+

theorem missing_rows_leak:
  assumes "malloc_ok A" and "store_ok st" and "A st \<noteq> 0"
    and "user_get_by_uname_mem A None st = Some (r, st1) \<or> msg_get_detail_mem A None st = Some (r, st1)"
  shows "\<exists>st2. row_free r st1 = Some st2 \<and> so_blocks st2 = insert (A st) (so_blocks st) \<and> A st \<notin> so_blocks st"
proof -
  have "load_row A False None st = Some (r, st1)"
    using assms(4) by (simp add: row_mem_defs)
  with row_lifetime [OF assms(1,2)] malloc_fresh(3) [OF assms(1,3)] assms(3) show ?thesis
    by fastforce
qed

end
