(* ===== verification/Handler_Memory.thy ===== *)
theory Handler_Memory
  imports Handler_Facts Lifetime
begin

text \<open>
  The handlers of \<^verbatim>\<open>server/src/handler.c\<close> with the memory they use. The state is that of theory \<open>Handler\<close> together with
  the store of \<open>Lifetime\<close>: a query for a row allocates its record and its strings, a query for a list
  allocates a linked list of identifiers, and the handler reads them and gives them back, or does not. The
  faults of a handler are told apart: those of theory \<open>Handler\<close>, a \<^verbatim>\<open>NULL\<close> of \<^verbatim>\<open>malloc\<close> that is used unchecked, and a
  pointer to memory that is not allocated. Handlers that allocate nothing are those of theory \<open>Handler\<close>.
\<close>

section \<open>The state\<close>

datatype mem_fault = Fault fault | No_Memory | Bad_Pointer

type_synonym machine = "hstate \<times> store"
type_synonym 'a mres = "mem_fault + 'a"

definition bindM :: "'a mres \<Rightarrow> ('a \<Rightarrow> 'b mres) \<Rightarrow> 'b mres" where
  "bindM m k = (case m of Inl f \<Rightarrow> Inl f | Inr x \<Rightarrow> k x)"

definition lift :: "'a res \<Rightarrow> 'a mres" where
  "lift r = (case r of Inl f \<Rightarrow> Inl (Fault f) | Inr x \<Rightarrow> Inr x)"

definition on_state :: "(hstate \<Rightarrow> hstate res) \<Rightarrow> machine \<Rightarrow> machine mres" where
  "on_state f x = bindM (lift (f (fst x))) (\<lambda>s. Inr (s, snd x))"

definition on_store :: "(store \<Rightarrow> store option) \<Rightarrow> machine \<Rightarrow> machine mres" where
  "on_store f x = (case f (snd x) of None \<Rightarrow> Inl Bad_Pointer | Some st \<Rightarrow> Inr (fst x, st))"

definition sql_mem :: "(conn \<Rightarrow> 'a sqlres) \<Rightarrow> machine \<Rightarrow> ('a \<times> nat \<times> machine) mres" where
  "sql_mem f x = bindM (lift (sql f (fst x))) (\<lambda>(v, rc, s). Inr (v, rc, (s, snd x)))"

definition SQLITE_NOMEM :: nat where "SQLITE_NOMEM = 7"

text \<open>A function that reads a row returns \<^verbatim>\<open>NULL\<close> at once when there is no memory for the record.\<close>

definition query_row ::
    "allocator \<Rightarrow> (allocator \<Rightarrow> 'a option \<Rightarrow> store \<Rightarrow> (row_mem option \<times> store) option) \<Rightarrow>
     (conn \<Rightarrow> 'a option sqlres) \<Rightarrow> machine \<Rightarrow> ('a option \<times> row_mem option \<times> nat \<times> machine) mres" where
  "query_row A load f x =
     (if A (snd x) = 0 then Inr (None, None, SQLITE_NOMEM, x)
      else
        bindM (sql_mem f x) (\<lambda>(v, rc, y).
          case load A v (snd y) of
            None \<Rightarrow> Inl No_Memory
          | Some (r, st) \<Rightarrow> Inr (v, r, rc, (fst y, st))))"

text \<open>Following the pointer to a row: it is not \<^verbatim>\<open>NULL\<close>, and the record and its strings are allocated.\<close>

definition live_row :: "row_mem \<Rightarrow> store \<Rightarrow> bool" where
  "live_row r st \<longleftrightarrow> rw_self r \<in> so_blocks st \<and> list_all (\<lambda>p. p = 0 \<or> strings_of st p \<noteq> None) (rw_fields r)"

definition deref_row :: "'a option \<Rightarrow> row_mem option \<Rightarrow> machine \<Rightarrow> 'a mres" where
  "deref_row v r x =
     (case r of
        None \<Rightarrow> Inl (Fault Null_Deref)
      | Some row \<Rightarrow> if live_row row (snd x) then lift (deref v) else Inl Bad_Pointer)"

text \<open>The macro \<^verbatim>\<open>RESPONSE_ERR_FREE\<close>.\<close>

definition response_err_free ::
    "u32 \<Rightarrow> byte \<Rightarrow> byte \<Rightarrow> (store \<Rightarrow> store option) \<Rightarrow> machine \<Rightarrow> machine mres" where
  "response_err_free status grp action free x =
     bindM (on_store free x) (on_state (response_err status grp action))"

section \<open>Lists of identifiers\<close>

text \<open>\<^verbatim>\<open>new_jval_l\<close> of the \<^verbatim>\<open>int\<close> that the column is read as.\<close>

definition new_jval_l :: "64 word \<Rightarrow> jval" where
  "new_jval_l l = l"

fun insert_ids :: "allocator \<Rightarrow> u32 list \<Rightarrow> sll \<Rightarrow> store \<Rightarrow> (sll \<times> store) option" where
  "insert_ids A [] l st = Some (l, st)"
| "insert_ids A (i # is) l st =
     (let q = A st
      in case sll_insert_node q (new_jval_l (scast i)) l of
           None \<Rightarrow> None
         | Some l' \<Rightarrow> insert_ids A is l' (st\<lparr>so_blocks := insert q (so_blocks st)\<rparr>))"

text \<open>The identifiers are inserted at the front in the order of the rows, so the list is in the opposite order.\<close>

definition query_list ::
    "allocator \<Rightarrow> (conn \<Rightarrow> u32 list sqlres) \<Rightarrow> machine \<Rightarrow> (sll \<times> nat \<times> machine) mres" where
  "query_list A f x =
     bindM (sql_mem f x) (\<lambda>(ids, rc, y).
       case insert_ids A (rev ids) (0, Map.empty) (snd y) of
         None \<Rightarrow> Inl No_Memory
       | Some (l, st) \<Rightarrow> Inr (l, rc, (fst y, st)))"

text \<open>The loop that copies the list into an array, and \<^verbatim>\<open>sll_remove\<close>, which frees the nodes.\<close>

fun read_ids :: "heap \<Rightarrow> nat \<Rightarrow> ptr \<Rightarrow> u32 list option" where
  "read_ids h 0 iter = Some []"
| "read_ids h (Suc n) iter =
     (case h iter of
        None \<Rightarrow> None
      | Some nd \<Rightarrow> map_option (\<lambda>is. ucast (val nd) # is) (read_ids h n (next nd)))"

partial_function (option) remove_ids_loop :: "ptr \<Rightarrow> heap \<Rightarrow> store \<Rightarrow> store option" where
  "remove_ids_loop head h st =
     (if head = 0 then Some st
      else case h head of
        None \<Rightarrow> None
      | Some nd \<Rightarrow>
          (case free_block head st of
             None \<Rightarrow> None
           | Some st' \<Rightarrow> remove_ids_loop (next nd) (h(head := None)) st'))"

definition remove_ids :: "sll \<Rightarrow> store \<Rightarrow> store option" where
  "remove_ids l st = remove_ids_loop (fst l) (snd l) st"

definition reply_ids :: "(u32 \<Rightarrow> u32 list \<Rightarrow> bytes \<Rightarrow> bytes res) \<Rightarrow> sll \<Rightarrow> machine \<Rightarrow> machine mres" where
  "reply_ids f l x =
     (case sll_length l of
        None \<Rightarrow> Inl Bad_Pointer
      | Some len \<Rightarrow>
          (case read_ids (snd l) len (fst l) of
             None \<Rightarrow> Inl Bad_Pointer
           | Some idls \<Rightarrow>
               bindM (on_state (respond (f (of_nat len) idls)) x) (on_store (remove_ids l))))"

section \<open>The handlers\<close>

definition handle_auth_login_mem :: "allocator \<Rightarrow> env \<Rightarrow> request_auth \<Rightarrow> machine \<Rightarrow> machine mres" where
  "handle_auth_login_mem A E ra x =
     bindM (query_row A user_get_by_uname_mem (user_get_by_uname (e_sql E) (ra_uname ra)) x)
       (\<lambda>(user, r, rc, x1).
       if sql_is_err rc then response_err_free 500 0 1 (user_free r) x1
       else if rc = SQLITE_EMPTY then response_err_free 404 0 1 (user_free r) x1
       else
         bindM (lift (deref (ra_password ra))) (\<lambda>password.
         bindM (deref_row user r x1) (\<lambda>u.
         bindM (lift (deref (us_password u))) (\<lambda>stored.
           case hash_str (e_md5 E) password of
             None \<Rightarrow> Inl (Fault Uninitialised)
           | Some hashed_password \<Rightarrow>
               if hashed_password \<noteq> stored then response_err_free 403 0 1 (user_free r) x1
               else
                 bindM (on_state (respond (make_response_auth_login 200
                   (make_token (e_encrypt E) (e_now E) (e_addr E) (us_id u)) (us_id u))) x1)
                   (on_store (user_free r))))))"

definition handle_user_get_info_mem :: "allocator \<Rightarrow> env \<Rightarrow> request_user \<Rightarrow> machine \<Rightarrow> machine mres" where
  "handle_user_get_info_mem A E ru x =
     bindM (query_row A user_get_by_id_mem (user_get_by_id (e_sql E) (ru_user_id ru)) x)
       (\<lambda>(user, r, rc, x1).
       if sql_is_err rc then response_err_free 500 1 1 (user_free r) x1
       else if rc = SQLITE_EMPTY then response_err_free 404 1 1 (user_free r) x1
       else
         bindM (deref_row user r x1) (\<lambda>u.
         bindM (lift (deref (us_uname u))) (\<lambda>uname.
         bindM (lift (deref (us_phone u))) (\<lambda>phone.
         bindM (lift (deref (us_email u))) (\<lambda>email.
           bindM (on_state (respond (make_response_user_get_info 200 uname phone email)) x1)
             (on_store (user_free r)))))))"

definition handle_user_search_mem ::
    "allocator \<Rightarrow> env \<Rightarrow> request_header \<Rightarrow> request_user \<Rightarrow> machine \<Rightarrow> machine mres" where
  "handle_user_search_mem A E header ru x =
     bindM (query_list A (user_search_by_uname (e_sql E) (ru_uname ru) (at_least_0 (rq_limit header))
         (at_least_0 (rq_offset header))) x) (\<lambda>(ls, rc, x1).
       if sql_is_err rc then response_err_free 500 1 2 (remove_ids ls) x1
       else reply_ids (make_response_user_search 200) ls x1)"

text \<open>The record of the conversation is not freed after the answer.\<close>

definition handle_conv_get_info_mem :: "allocator \<Rightarrow> env \<Rightarrow> request_conv \<Rightarrow> machine \<Rightarrow> machine mres" where
  "handle_conv_get_info_mem A E rconv x =
     bindM (query_row A conv_get_info_mem (conv_get_info (e_sql E) (rc_conv_id rconv)) x)
       (\<lambda>(conv, r, rc, x1).
       if sql_is_err rc then response_err_free 500 2 4 (conv_free r) x1
       else if rc = SQLITE_EMPTY then response_err_free 404 2 4 (conv_free r) x1
       else
         bindM (deref_row conv r x1) (\<lambda>v.
         bindM (lift (deref (vs_name v))) (\<lambda>name.
           on_state (respond (make_response_conv_get_info 200 (vs_admin_id v) name)) x1)))"

definition handle_conv_get_members_mem ::
    "allocator \<Rightarrow> env \<Rightarrow> request_header \<Rightarrow> request_conv \<Rightarrow> machine \<Rightarrow> machine mres" where
  "handle_conv_get_members_mem A E header rconv x =
     bindM (sql_mem (conv_is_member (e_sql E) (rc_conv_id rconv) (rq_user_id header)) x)
       (\<lambda>(is_member, rc, x1).
       if sql_is_err rc then on_state (response_err 500 2 5) x1
       else if \<not> is_member then on_state (response_err 403 2 5) x1
       else
         bindM (query_list A (conv_get_members (e_sql E) (rc_conv_id rconv)) x1) (\<lambda>(ls, rc, x2).
           if sql_is_err rc then response_err_free 500 2 5 (remove_ids ls) x2
           else reply_ids (make_response_conv_get_members 200) ls x2))"

definition handle_conv_get_list_mem :: "allocator \<Rightarrow> env \<Rightarrow> request_header \<Rightarrow> machine \<Rightarrow> machine mres" where
  "handle_conv_get_list_mem A E header x =
     bindM (query_list A (user_get_conv_list (e_sql E) (rq_user_id header) (at_least_0 (rq_limit header))
         (at_least_0 (rq_offset header))) x) (\<lambda>(ls, rc, x1).
       if sql_is_err rc then response_err_free 500 2 6 (remove_ids ls) x1
       else reply_ids (make_response_conv_get_list 200) ls x1)"

definition handle_chat_get_list_mem :: "allocator \<Rightarrow> env \<Rightarrow> request_header \<Rightarrow> machine \<Rightarrow> machine mres" where
  "handle_chat_get_list_mem A E header x =
     bindM (query_list A (user_get_chat_list (e_sql E) (rq_user_id header) (at_least_0 (rq_limit header))
         (at_least_0 (rq_offset header))) x) (\<lambda>(ls, rc, x1).
       if sql_is_err rc then response_err_free 500 3 2 (remove_ids ls) x1
       else reply_ids (make_response_chat_get_list 200) ls x1)"

definition handle_chat_get_info_mem ::
    "allocator \<Rightarrow> env \<Rightarrow> request_header \<Rightarrow> request_chat \<Rightarrow> machine \<Rightarrow> machine mres" where
  "handle_chat_get_info_mem A E header rchat x =
     bindM (query_row A chat_get_info_mem (chat_get_info (e_sql E) (rh_chat_id rchat)) x)
       (\<lambda>(chat, r, rc, x1).
       if sql_is_err rc then response_err_free 500 3 3 (chat_free r) x1
       else
         bindM (deref_row chat r x1) (\<lambda>h.
           if cs_member1 h \<noteq> rq_user_id header \<and> cs_member2 h \<noteq> rq_user_id header
           then response_err_free 403 3 3 (chat_free r) x1
           else
             bindM (on_state (respond (make_response_chat_get_info 200 (cs_member1 h) (cs_member2 h))) x1)
               (on_store (chat_free r))))"

text \<open>The test of the membership; \<open>free\<close> is what its refusals give back.\<close>

definition require_member_mem ::
    "env \<Rightarrow> request_header \<Rightarrow> u32 \<Rightarrow> u32 \<Rightarrow> byte \<Rightarrow> (store \<Rightarrow> store option) \<Rightarrow> (machine \<Rightarrow> machine mres) \<Rightarrow>
     machine \<Rightarrow> machine mres" where
  "require_member_mem E header conv_id chat_id action free k x =
     bindM (sql_mem (conv_is_member (e_sql E) conv_id (rq_user_id header)) x) (\<lambda>(is_member, rc, x1).
       if sql_is_err rc then response_err_free 500 4 action free x1
       else if is_member then k x1
       else
         bindM (sql_mem (chat_is_member (e_sql E) chat_id (rq_user_id header)) x1)
           (\<lambda>(is_member, rc, x2).
           if sql_is_err rc then response_err_free 500 4 action free x2
           else if \<not> is_member then response_err_free 403 4 action free x2
           else k x2))"

definition handle_msg_get_all_mem ::
    "allocator \<Rightarrow> env \<Rightarrow> request_header \<Rightarrow> request_msg \<Rightarrow> machine \<Rightarrow> machine mres" where
  "handle_msg_get_all_mem A E header rm x =
     (let limit = at_least_0 (rq_limit header); offset = at_least_0 (rq_offset header);
          chat_id = rm_chat_id rm; conv_id = rm_conv_id rm
      in require_member_mem E header conv_id chat_id 0 Some (\<lambda>x1.
           bindM (query_list A (if 0 < chat_id then msg_chat_get_all (e_sql E) chat_id limit offset
                                else msg_conv_get_all (e_sql E) conv_id limit offset) x1) (\<lambda>(ls, rc, x2).
             if sql_is_err rc then response_err_free 500 4 0 (remove_ids ls) x2
             else if rc = SQLITE_EMPTY then response_err_free 404 4 0 (remove_ids ls) x2
             else reply_ids (make_response_msg_get_all 200) ls x2)) x)"

definition with_msg_mem ::
    "allocator \<Rightarrow> env \<Rightarrow> request_header \<Rightarrow> u32 \<Rightarrow> byte \<Rightarrow>
     (msg_schema \<Rightarrow> row_mem option \<Rightarrow> machine \<Rightarrow> machine mres) \<Rightarrow> machine \<Rightarrow> machine mres" where
  "with_msg_mem A E header msg_id action k x =
     bindM (query_row A msg_get_detail_mem (msg_get_detail (e_sql E) msg_id) x) (\<lambda>(msg, r, rc, x1).
       if sql_is_err rc then response_err_free 500 4 action (msg_free r) x1
       else if rc = SQLITE_EMPTY then response_err_free 404 4 action (msg_free r) x1
       else
         bindM (deref_row msg r x1) (\<lambda>m.
           require_member_mem E header (mg_conv_id m) (mg_chat_id m) action (msg_free r) (k m r) x1))"

definition handle_msg_get_detail_mem ::
    "allocator \<Rightarrow> env \<Rightarrow> request_header \<Rightarrow> request_msg \<Rightarrow> machine \<Rightarrow> machine mres" where
  "handle_msg_get_detail_mem A E header rm x =
     with_msg_mem A E header (rm_msg_id rm) 1 (\<lambda>m r x1.
       bindM (on_state (respond (make_response_msg_get_detail 200 (detail_of m))) x1) (\<lambda>x2.
       bindM (sql_mem (msg_delivered (e_sql E) (rm_msg_id rm)) x2) (\<lambda>(_, _, x3).
         on_store (msg_free r) x3))) x"

definition handle_msg_delete_mem ::
    "allocator \<Rightarrow> env \<Rightarrow> request_header \<Rightarrow> request_msg \<Rightarrow> machine \<Rightarrow> machine mres" where
  "handle_msg_delete_mem A E header rm x =
     with_msg_mem A E header (rm_msg_id rm) 3 (\<lambda>m r x1.
       bindM (sql_mem (msg_delete (e_sql E) (mg_id m)) x1) (\<lambda>(_, rc, x2).
         if sql_is_err rc then response_err_free 500 4 3 (msg_free r) x2
         else bindM (on_state (respond (make_response_msg_delete 200)) x2) (on_store (msg_free r)))) x"

definition handle_notify_new_msg_mem :: "allocator \<Rightarrow> env \<Rightarrow> request_header \<Rightarrow> machine \<Rightarrow> machine mres" where
  "handle_notify_new_msg_mem A E header x =
     bindM (query_list A (msg_get_msg_sent (e_sql E) (rq_user_id header)) x) (\<lambda>(ls, rc, x1).
       if sql_is_err rc then on_state (response_err 500 4 4) x1
       else reply_ids (make_response_msg_notify_new 200) ls x1)"

definition handle_notify_del_msg_mem ::
    "allocator \<Rightarrow> env \<Rightarrow> request_header \<Rightarrow> request_msg \<Rightarrow> machine \<Rightarrow> machine mres" where
  "handle_notify_del_msg_mem A E header rm x =
     bindM (query_list A (msg_get_msg_del (e_sql E) (rq_user_id header) (rm_conv_id rm) (rm_chat_id rm)) x)
       (\<lambda>(ls, rc, x1).
       if sql_is_err rc then on_state (response_err 500 4 4) x1
       else reply_ids (make_response_msg_notify_del 200) ls x1)"

text \<open>The file is opened and sent when the record of the message has been freed; its path was copied before.\<close>

definition stream_file :: "env \<Rightarrow> bytes \<Rightarrow> hstate \<Rightarrow> hstate res" where
  "stream_file E path s =
     (case h_files s path of
        None \<Rightarrow> Inr s
      | Some content \<Rightarrow>
          if \<not> e_fstat_ok E then Inr s
          else download_loop (h_downloads s) content (int (length content)) s)"

definition send_stored_file_mem :: "env \<Rightarrow> msg_schema \<Rightarrow> row_mem option \<Rightarrow> machine \<Rightarrow> machine mres" where
  "send_stored_file_mem E m r x =
     bindM (lift (deref (mg_content m))) (\<lambda>path.
     bindM (lift (cstr (path @ [0]) (length STORAGE))) (\<lambda>name.
     bindM (on_state (into_buf (make_response_msg_download_file 200 (mg_content_length m) name)) x) (\<lambda>x1.
       case write_client (fst x1) of (n, s2) \<Rightarrow>
         if n \<noteq> int BUFSIZ
         then
           bindM (on_store (msg_free r) (s2, snd x1))
             (on_state (\<lambda>s. Inr ((close_sock s)\<lparr>h_close_conn := True\<rparr>)))
         else bindM (on_store (msg_free r) (s2, snd x1)) (on_state (stream_file E path)))))"

definition handle_msg_download_file_mem ::
    "allocator \<Rightarrow> env \<Rightarrow> request_header \<Rightarrow> request_msg \<Rightarrow> machine \<Rightarrow> machine mres" where
  "handle_msg_download_file_mem A E header rm x =
     with_msg_mem A E header (rm_msg_id rm) 6 (\<lambda>m r x1.
       if mg_content_type m \<noteq> 1 then response_err_free 400 4 6 (msg_free r) x1
       else send_stored_file_mem E m r x1) x"

section \<open>Dispatch\<close>

definition dispatch_user_mem ::
    "allocator \<Rightarrow> env \<Rightarrow> request_header \<Rightarrow> request_user \<Rightarrow> machine \<Rightarrow> machine mres" where
  "dispatch_user_mem A E header ru x =
     (if rq_action header = 0 then on_state handle_logout x
      else if rq_action header = 1 then handle_user_get_info_mem A E ru x
      else if rq_action header = 2 then handle_user_search_mem A E header ru x
      else Inr x)"

definition dispatch_conv_mem ::
    "allocator \<Rightarrow> env \<Rightarrow> request_header \<Rightarrow> request_conv \<Rightarrow> machine \<Rightarrow> machine mres" where
  "dispatch_conv_mem A E header rconv x =
     (if rq_action header = 0 then on_state (handle_conv_create E header rconv) x
      else if rq_action header = 1 then on_state (handle_conv_drop E header rconv) x
      else if rq_action header = 2 then on_state (handle_conv_join E header rconv) x
      else if rq_action header = 3 then on_state (handle_conv_quit E header rconv) x
      else if rq_action header = 4 then handle_conv_get_info_mem A E rconv x
      else if rq_action header = 5 then handle_conv_get_members_mem A E header rconv x
      else if rq_action header = 6 then handle_conv_get_list_mem A E header x
      else Inr x)"

definition dispatch_chat_mem ::
    "allocator \<Rightarrow> env \<Rightarrow> request_header \<Rightarrow> request_chat \<Rightarrow> machine \<Rightarrow> machine mres" where
  "dispatch_chat_mem A E header rchat x =
     (if rq_action header = 0 then on_state (handle_chat_create E header rchat) x
      else if rq_action header = 1 then on_state (handle_chat_drop E header rchat) x
      else if rq_action header = 2 then handle_chat_get_list_mem A E header x
      else if rq_action header = 3 then handle_chat_get_info_mem A E header rchat x
      else Inr x)"

definition dispatch_msg_mem ::
    "allocator \<Rightarrow> env \<Rightarrow> request_header \<Rightarrow> request_msg \<Rightarrow> machine \<Rightarrow> machine mres" where
  "dispatch_msg_mem A E header rm x =
     (if rq_action header = 0 then handle_msg_get_all_mem A E header rm x
      else if rq_action header = 1 then handle_msg_get_detail_mem A E header rm x
      else if rq_action header = 2 then on_state (handle_msg_send E header rm) x
      else if rq_action header = 3 then handle_msg_delete_mem A E header rm x
      else if rq_action header = 4 then handle_notify_new_msg_mem A E header x
      else if rq_action header = 5 then handle_notify_del_msg_mem A E header rm x
      else if rq_action header = 6 then handle_msg_download_file_mem A E header rm x
      else Inr x)"

definition dispatch_body_mem ::
    "allocator \<Rightarrow> env \<Rightarrow> request_header \<Rightarrow> request_body \<Rightarrow> machine \<Rightarrow> machine mres" where
  "dispatch_body_mem A E header body x =
     (case body of
        R_auth ra \<Rightarrow>
          if rq_action header = 0 then on_state (handle_auth_register E ra) x
          else if rq_action header = 1 then handle_auth_login_mem A E ra x
          else Inr x
      | R_user ru \<Rightarrow> dispatch_user_mem A E header ru x
      | R_conv rconv \<Rightarrow> dispatch_conv_mem A E header rconv x
      | R_chat rchat \<Rightarrow> dispatch_chat_mem A E header rchat x
      | R_msg rm \<Rightarrow> dispatch_msg_mem A E header rm x)"

definition handle_request_mem :: "allocator \<Rightarrow> env \<Rightarrow> request option \<Rightarrow> machine \<Rightarrow> machine mres" where
  "handle_request_mem A E req x =
     (case req of
        None \<Rightarrow> on_state (reply_plain (make_err_response 400 0xFF 0xFF)) x
      | Some r \<Rightarrow>
          let header = rq_header r
          in if rq_group header = 0 then dispatch_body_mem A E header (rq_body r) x
             else if verify_token (e_decrypt E) (e_now E) (e_addr E) (rq_user_id header)
                       (rq_token header) \<le> 0
             then on_state (reply_plain (make_err_response 403 (rq_group header) (rq_action header))) x
             else dispatch_body_mem A E header (rq_body r) x)"

text \<open>The whole of \<^verbatim>\<open>handle_req\<close>: the request is parsed, handled and destroyed.\<close>

definition handle_req_mem :: "allocator \<Rightarrow> env \<Rightarrow> recv_ev list \<Rightarrow> machine \<Rightarrow> machine mres" where
  "handle_req_mem A E evs x =
     bindM (lift (recv_loop evs 0 (h_buf (fst x)))) (\<lambda>(n, b).
       let s0 = (fst x)\<lparr>h_buf := b\<rparr>
       in case n of
            None \<Rightarrow> Inr (close_sock s0, snd x)
          | Some _ \<Rightarrow>
              bindM (lift (request_parse b)) (\<lambda>req.
                case request_parse_mem A b (snd x) of
                  None \<Rightarrow> Inl No_Memory
                | Some (mem, st1) \<Rightarrow>
                    bindM (handle_request_mem A E req (s0, st1)) (\<lambda>x1.
                    bindM (on_state (\<lambda>s. Inr (rearm E s)) x1) (on_store (request_destroy mem)))))"

end
