(* ===== verification/Memory_Safety.thy ===== *)
theory Memory_Safety
  imports Handler_Memory
begin

text \<open>
  Relating the handlers with memory to those without. \<open>grown\<close> says how many blocks and strings a store has more
  than another, \<open>mirrors\<close> that a result with memory is the one without, on a store that has grown as stated. The
  rules of \<open>mirror_rules\<close> follow the statements of the handlers, so that theory \<open>Memory_Handlers\<close> goes through each
  handler once.
\<close>

section \<open>Sequencing\<close>

lemma bindM_simps [simp]: "bindM (Inr x) k = k x" "bindM (Inl e) k = Inl e"
  by (simp_all add: bindM_def)

lemma lift_simps [simp]: "lift (Inr x) = Inr x" "lift (Inl f) = Inl (Fault f)"
  by (simp_all add: lift_def)

section \<open>What stays in the store\<close>

text \<open>The store has \<open>b\<close> blocks and \<open>n\<close> strings more than before, and what was there is as it was.\<close>

definition grown :: "nat \<Rightarrow> nat \<Rightarrow> store \<Rightarrow> store \<Rightarrow> bool" where
  "grown b n st st' \<longleftrightarrow> store_ok st' \<and>
     (\<exists>bs. finite bs \<and> card bs = b \<and> bs \<inter> so_blocks st = {} \<and> so_blocks st' = so_blocks st \<union> bs) \<and>
     (\<exists>ss. finite ss \<and> card ss = n \<and> ss \<inter> dom (strings_of st) = {} \<and> ss \<subseteq> dom (strings_of st') \<and>
       strings_of st' |` (- ss) = strings_of st)"

lemma grown_0:
  "grown 0 0 st st' \<longleftrightarrow> store_ok st' \<and> so_blocks st' = so_blocks st \<and> strings_of st' = strings_of st"
  by (auto simp: grown_def restrict_map_def)

lemma grown_refl: "store_ok st \<Longrightarrow> grown 0 0 st st"
  by (simp add: grown_0)

lemma grown_ok: "grown b n st st' \<Longrightarrow> store_ok st'"
  by (simp add: grown_def)

lemma grown_dom: "grown b n st st' \<Longrightarrow> dom (strings_of st) \<subseteq> dom (strings_of st')"
  unfolding grown_def by (metis Int_lower1 dom_restrict)

lemma restrict_restrict_Un: "(m |` (- A)) |` (- B) = m |` (- (A \<union> B))"
  by (auto simp: restrict_map_def)

lemma grown_trans:
  assumes "grown b n st st1" and "grown b' n' st1 st2"
  shows "grown (b + b') (n + n') st st2"
proof -
  obtain bs cs where bs: "finite bs" "card bs = b" "bs \<inter> so_blocks st = {}" "so_blocks st1 = so_blocks st \<union> bs"
    and cs: "finite cs" "card cs = b'" "cs \<inter> so_blocks st1 = {}" "so_blocks st2 = so_blocks st1 \<union> cs"
    using assms unfolding grown_def by blast
  obtain ss ts where ss: "finite ss" "card ss = n" "ss \<inter> dom (strings_of st) = {}" "ss \<subseteq> dom (strings_of st1)"
      "strings_of st1 |` (- ss) = strings_of st"
    and ts: "finite ts" "card ts = n'" "ts \<inter> dom (strings_of st1) = {}" "ts \<subseteq> dom (strings_of st2)"
      "strings_of st2 |` (- ts) = strings_of st1"
    using assms unfolding grown_def by blast
  have dom: "dom (strings_of st1) = dom (strings_of st2) - ts" "dom (strings_of st) = dom (strings_of st1) - ss"
    by (auto simp flip: ts(5) ss(5))
  have "card (bs \<union> cs) = b + b'"
    using bs(1,2,4) cs(1,2,3) by (subst card_Un_disjoint) auto
  moreover have "card (ss \<union> ts) = n + n'"
    using ss(1,2,4) ts(1,2,3) by (subst card_Un_disjoint) auto
  moreover have "strings_of st2 |` (- (ss \<union> ts)) = strings_of st"
    using ss(5) ts(5) restrict_restrict_Un [of "strings_of st2" ts ss] by (simp add: Un_commute)
  moreover have "(bs \<union> cs) \<inter> so_blocks st = {}" "so_blocks st2 = so_blocks st \<union> (bs \<union> cs)"
    using bs(3,4) cs(3,4) by auto
  moreover have "(ss \<union> ts) \<inter> dom (strings_of st) = {}" "ss \<union> ts \<subseteq> dom (strings_of st2)"
    using ss(3,4) ts(3,4) dom by auto
  ultimately show ?thesis
    unfolding grown_def using grown_ok [OF assms(2)] bs(1) cs(1) ss(1) ts(1) finite_UnI by blast
qed

text \<open>
  There is room for \<open>w\<close> allocations when \<^verbatim>\<open>malloc\<close> does not refuse at any store that has all that was there
  before and fewer than \<open>w\<close> addresses more.
\<close>

definition room :: "allocator \<Rightarrow> nat \<Rightarrow> store \<Rightarrow> bool" where
  "room A w st \<longleftrightarrow> (\<forall>st1. in_use st \<subseteq> in_use st1 \<longrightarrow> card (in_use st1 - in_use st) < w \<longrightarrow> A st1 \<noteq> 0)"

lemma room_now: "room A w st \<Longrightarrow> 0 < w \<Longrightarrow> A st \<noteq> 0"
  by (auto simp: room_def)

lemma room_later:
  assumes "room A w st" and "in_use st \<subseteq> in_use st1" and "card (in_use st1 - in_use st) + v \<le> w"
  shows "room A v st1"
  unfolding room_def
proof (intro allI impI)
  fix st2
  assume st2: "in_use st1 \<subseteq> in_use st2" "card (in_use st2 - in_use st1) < v"
  have "card (in_use st2 - in_use st) \<le> card (in_use st2 - in_use st1) + card (in_use st1 - in_use st)"
    by (rule order_trans [OF card_mono card_Un_le]) auto
  then have "card (in_use st2 - in_use st) < w"
    using assms(3) st2(2) by simp
  then show "A st2 \<noteq> 0"
    using assms(1,2) st2(1) unfolding room_def by blast
qed

lemma room_mono: "room A w st \<Longrightarrow> v \<le> w \<Longrightarrow> room A v st"
  by (rule room_later) auto

lemma card_insert_diff: "card (insert p B - B) \<le> 1"
  by (rule order_trans [OF card_mono [of "{p}"]]) auto

lemma in_use_block [simp]: "in_use (st\<lparr>so_blocks := insert p bs\<rparr>) = insert p (in_use (st\<lparr>so_blocks := bs\<rparr>))"
  by (auto simp: in_use_def)

lemma in_use_same_blocks [simp]: "st\<lparr>so_blocks := so_blocks st\<rparr> = st"
  by simp

subsection \<open>Rows\<close>

text \<open>A source that can be read: only the memory can be missing.\<close>

fun readable :: "source \<Rightarrow> bool" where
  "readable (Str s) = True"
| "readable (Str_n s n) = (\<exists>x. cstrn s 0 n = Inr x)"
| "readable (Mem_n s n) = (\<exists>x. mem_read s 0 n = Inr x)"

lemma alloc_string_None:
  assumes "alloc_string A src st = None" and "readable src"
  shows "\<not> room A 2 st"
proof
  let ?q = "A (st\<lparr>so_blocks := insert (A st) (so_blocks st)\<rparr>)"
  assume room: "room A 2 st"
  have "A st \<noteq> 0"
    using room_now [OF room] by simp
  moreover have "room A 1 (st\<lparr>so_blocks := insert (A st) (so_blocks st)\<rparr>)"
    by (rule room_later [OF room]) (use card_insert_diff [of "A st" "in_use st"] in auto)
  then have "?q \<noteq> 0"
    by (rule room_now) simp
  ultimately show False
    using assms by (cases src) (auto simp: alloc_string_def Let_def string_new_def string_new_n_def string_mem_n_def
        register_def sll_insert_node_def split: if_splits option.splits prod.splits)
qed

lemma alloc_string_in_use:
  assumes "alloc_string A src st = Some (p, st1)"
  shows "p \<noteq> 0" "\<exists>q. in_use st1 = insert p (insert q (in_use st))"
  using assms
  by (cases src; auto simp: alloc_string_def Let_def string_new_def string_new_n_def string_mem_n_def register_def
        sll_insert_node_def in_use_def split: if_splits option.splits prod.splits sum.splits)+

lemma alloc_string_room:
  assumes "alloc_string A src st = Some (p, st1)" and "room A (w + 2) st"
  shows "room A w st1"
proof -
  obtain q where q: "in_use st1 = insert p (insert q (in_use st))"
    using alloc_string_in_use(2) [OF assms(1)] by blast
  have "card (in_use st1 - in_use st) \<le> card {p, q}"
    unfolding q by (rule card_mono) auto
  also have "\<dots> \<le> 2"
    by (simp add: card_insert_if)
  finally show ?thesis
    using room_later [OF assms(2), of st1 w] q by auto
qed

lemma alloc_fields_None:
  "alloc_fields A srcs st = None \<Longrightarrow> list_all (\<lambda>s. \<forall>x. s = Some x \<longrightarrow> readable x) srcs \<Longrightarrow>
   \<not> room A (2 * length srcs) st"
proof (induction srcs arbitrary: st)
  case (Cons src srcs)
  show ?case
  proof (cases src)
    case None
    then show ?thesis
      using Cons room_mono [of A "2 * length (src # srcs)" st "2 * length srcs"] by auto
  next
    case (Some s)
    show ?thesis
    proof (cases "alloc_string A s st")
      case None
      then have "\<not> room A 2 st"
        using Cons.prems(2) Some by (intro alloc_string_None) auto
      then show ?thesis
        using room_mono [of A "2 * length (src # srcs)" st 2] by auto
    next
      case (Some x)
      obtain p st1 where x: "x = (p, st1)" by fastforce
      have "alloc_fields A srcs st1 = None"
        using Cons.prems \<open>src = Some s\<close> Some x by simp
      then have "\<not> room A (2 * length srcs) st1"
        using Cons.IH Cons.prems(2) by simp
      then show ?thesis
        using alloc_string_room [of A s st p st1 "2 * length srcs"] Some x by auto
    qed
  qed
qed simp

lemma Str_readable [simp]: "list_all (\<lambda>s. \<forall>x. s = Some x \<longrightarrow> readable x) (map (map_option Str) srcs)"
  by (auto simp: list_all_iff)

lemma alloc_fields_live:
  "malloc_ok A \<Longrightarrow> store_ok st \<Longrightarrow> alloc_fields A srcs st = Some (ps, st') \<Longrightarrow>
   grown 0 (length (filter (\<lambda>s. s \<noteq> None) srcs)) st st' \<and> list_all (\<lambda>p. p = 0 \<or> strings_of st' p \<noteq> None) ps"
proof (induction srcs arbitrary: st ps)
  case Nil
  then show ?case by (simp add: grown_refl)
next
  case (Cons src srcs)
  show ?case
  proof (cases src)
    case None
    then show ?thesis using Cons by auto
  next
    case (Some s)
    then obtain p st1 qs where p: "alloc_string A s st = Some (p, st1)"
      and qs: "alloc_fields A srcs st1 = Some (qs, st')" "ps = p # qs"
      using Cons.prems by (auto simp: bind_eq_Some_conv)
    obtain c where c: "p \<notin> dom (strings_of st)" "store_ok st1" "so_blocks st1 = so_blocks st"
      and st1: "strings_of st1 = (strings_of st)(p \<mapsto> c)"
      using alloc_string_cases [OF Cons.prems(1,2) p] by blast
    then have "grown 0 1 st st1"
      using c by (auto simp: grown_def restrict_map_def fun_eq_iff domIff intro!: exI [of _ "{p}"])
    moreover note IH = Cons.IH [OF Cons.prems(1) c(2) qs(1)]
    ultimately have "grown 0 (Suc (length (filter (\<lambda>s. s \<noteq> None) srcs))) st st'"
      using grown_trans [of 0 1 st st1] by fastforce
    moreover have "strings_of st' p \<noteq> None"
      using IH grown_dom [of 0 _ st1 st'] st1 by (fastforce simp: domIff)
    ultimately show ?thesis
      using IH st1 qs(2) Some by auto
  qed
qed


text \<open>A row that was read, as its handler finds it: it can be read, and it can be freed.\<close>

definition row_state :: "bool \<Rightarrow> nat \<Rightarrow> 'a option \<Rightarrow> row_mem option \<Rightarrow> store \<Rightarrow> store \<Rightarrow> bool" where
  "row_state frees n v r st st1 \<longleftrightarrow>
     (case v of
        None \<Rightarrow> r = None \<and> grown (if frees then 0 else 1) 0 st st1
      | Some _ \<Rightarrow> (\<exists>row st2. r = Some row \<and> live_row row st1 \<and> grown 1 n st st1 \<and>
          row_free r st1 = Some st2 \<and> grown 0 0 st st2))"

lemma load_row_state:
  fixes v :: "'a option"
  assumes "malloc_ok A" and "store_ok st" and "A st \<noteq> 0"
    and row: "row = map_option (\<lambda>x. map (map_option Str) (srcs x)) v"
    and n: "\<And>x. v = Some x \<Longrightarrow> n = length (filter (\<lambda>s. s \<noteq> None) (srcs x))"
    and w: "\<And>x. v = Some x \<Longrightarrow> 2 * length (srcs x) < w"
  shows "(case load_row A frees row st of None \<Rightarrow> \<not> room A w st | Some (r, st1) \<Rightarrow> row_state frees n v r st st1)"
proof -
  obtain self sa where self: "calloc A st = Some (self, sa)"
    using assms(3) by (simp add: calloc_def Let_def)
  note c = calloc_cases [OF assms(1) self]
  have ok: "store_ok sa"
    using assms(2) c(3) by simp
  have g: "grown 1 0 st sa"
    using assms(2) c by (auto simp: grown_def restrict_map_def intro!: exI [of _ "{self}"])
  show ?thesis
  proof (cases v)
    case None
    then show ?thesis
      using row self c g assms(2) by (auto simp: load_row_def row_state_def free_block_def grown_0)
  next
    case (Some x)
    show ?thesis
    proof (cases "alloc_fields A (map (map_option Str) (srcs x)) sa")
      case None
      then have "\<not> room A (2 * length (srcs x)) sa"
        using alloc_fields_None [OF None Str_readable] by simp
      then have "\<not> room A w st"
        using room_later [of A w st sa "2 * length (srcs x)"] w [OF Some] c(3) card_insert_diff [of self "in_use st"] by auto
      then show ?thesis
        using Some row self None by (simp add: load_row_def)
    next
      case (Some y)
      obtain ps st1 where ps: "alloc_fields A (map (map_option Str) (srcs x)) sa = Some (ps, st1)"
        using Some by (cases y) auto
      let ?r = "\<lparr>rw_self = self, rw_fields = ps\<rparr>"
      have load: "load_row A frees row st = Some (Some ?r, st1)"
        using \<open>v = Some x\<close> row self ps by (simp add: load_row_def)
      have f: "store_ok st1" "so_blocks st1 = so_blocks sa" "strings_of st1 |` (- set ps) = strings_of sa"
        using alloc_fields_cases [OF assms(1) ok ps] by simp_all
      have l: "grown 0 n sa st1" "list_all (\<lambda>p. p = 0 \<or> strings_of st1 p \<noteq> None) ps"
        using alloc_fields_live [OF assms(1) ok ps] n [OF \<open>v = Some x\<close>] by (simp_all add: filter_map comp_def)
      obtain st2 where "remove_strings ps st1 = Some st2" "store_ok st2" "so_blocks st2 = so_blocks st1"
        "strings_of st2 = strings_of st1 |` (- set ps)"
        using remove_strings_ok [OF f(1)] by blast
      then have "\<exists>st2. row_free (Some ?r) st1 = Some st2 \<and> grown 0 0 st st2"
        using f c by (auto simp: row_free_def free_block_def grown_0)
      moreover have "live_row ?r st1"
        using l(2) f(2) c(3) by (simp add: live_row_def)
      moreover have "grown 1 n st st1"
        using grown_trans [OF g l(1)] by simp
      ultimately show ?thesis
        using load \<open>v = Some x\<close> by (simp add: row_state_def)
    qed
  qed
qed

lemma row_state_free:
  "row_state frees n v r st st1 \<Longrightarrow>
   \<exists>st2. row_free r st1 = Some st2 \<and> grown (if v = None \<and> \<not> frees then 1 else 0) 0 st st2"
  by (auto simp: row_state_def row_free_def split: option.splits)

subsection \<open>Lists\<close>

lemma insert_ids_None: "insert_ids A is l st = None \<Longrightarrow> \<not> room A (length is) st"
proof (induction "is" arbitrary: l st)
  case (Cons i "is")
  let ?st = "st\<lparr>so_blocks := insert (A st) (so_blocks st)\<rparr>"
  show ?case
  proof
    assume room: "room A (length (i # is)) st"
    have "A st \<noteq> 0"
      using room_now [OF room] by simp
    then obtain l' where "insert_ids A is l' ?st = None"
      using Cons.prems by (auto simp: Let_def sll_insert_node_def split: prod.splits)
    then have "\<not> room A (length is) ?st"
      by (rule Cons.IH)
    then show False
      using room_later [OF room, of ?st "length is"] card_insert_diff [of "A st" "in_use st"] by auto
  qed
qed simp

text \<open>The nodes of a list in the store, on top of another store.\<close>

definition ids_at :: "u32 list \<Rightarrow> sll \<Rightarrow> store \<Rightarrow> store \<Rightarrow> bool" where
  "ids_at ids l st st1 \<longleftrightarrow> sll_owns l (map (\<lambda>i. new_jval_l (scast i)) ids) \<and> dom (snd l) \<inter> so_blocks st = {} \<and>
     st1 = st\<lparr>so_blocks := so_blocks st \<union> dom (snd l)\<rparr>"

lemma insert_ids_at:
  assumes "malloc_ok A"
  shows "insert_ids A is l st1 = Some (l', st2) \<Longrightarrow> ids_at ids l st st1 \<Longrightarrow> ids_at (rev is @ ids) l' st st2"
proof (induction "is" arbitrary: l st1 ids)
  case (Cons i "is")
  let ?q = "A st1" and ?st = "st1\<lparr>so_blocks := insert (A st1) (so_blocks st1)\<rparr>"
  have nz: "?q \<noteq> 0"
    using Cons.prems(1) by (auto simp: Let_def sll_insert_node_def split: prod.splits if_splits)
  then have new: "?q \<notin> so_blocks st1"
    using malloc_fresh [OF assms] by blast
  then have "sll_fresh ?q l"
    using nz Cons.prems(2) unfolding sll_fresh_def ids_at_def by simp
  then obtain l1 where l1: "sll_insert_node ?q (new_jval_l (scast i)) l = Some l1"
      "sll_owns l1 (new_jval_l (scast i) # map (\<lambda>i. new_jval_l (scast i)) ids)"
    using sll_owns_insert Cons.prems(2) unfolding ids_at_def by blast
  moreover have "dom (snd l1) = insert ?q (dom (snd l))"
    using l1(1) nz by (auto simp: sll_insert_node_def split: prod.splits)
  ultimately have "ids_at (i # ids) l1 st ?st"
    using Cons.prems(2) new unfolding ids_at_def by simp
  then show ?case
    using Cons.IH [of l1 ?st "i # ids"] Cons.prems(1) l1(1) by (simp add: Let_def)
qed simp

lemma ids_at_empty: "ids_at [] (0, Map.empty) st st"
  by (auto simp: ids_at_def sll_owns_def)

lemma read_ids_seg:
  "sll_seg h p xs 0 \<Longrightarrow> read_ids h (length xs) p = Some (map (\<lambda>x. ucast (snd x)) xs)"
  by (induction xs arbitrary: p) (auto split: option.splits)

lemma ucast_scast_id [simp]: "ucast (scast (i :: u32) :: 64 word) = i"
  by (rule bit_word_eqI) (simp add: bit_simps)

lemma ids_read:
  assumes "ids_at ids l st st1"
  shows "sll_length l = Some (length ids) \<and> read_ids (snd l) (length ids) (fst l) = Some ids"
proof -
  obtain xs where xs: "sll_at l xs" "map snd xs = map (\<lambda>i. new_jval_l (scast i)) ids"
    using assms by (auto simp: ids_at_def sll_owns_def)
  have len: "length xs = length ids"
    using arg_cong [OF xs(2), of length] by simp
  have "map (\<lambda>x. ucast (snd x)) xs = map ucast (map snd xs)" by simp
  also have "\<dots> = ids"
    unfolding xs(2) by (simp add: new_jval_l_def comp_def)
  finally have "read_ids (snd l) (length ids) (fst l) = Some ids"
    using read_ids_seg [of "snd l" "fst l" xs] xs(1) len by (simp add: sll_at_def)
  moreover have "sll_length l = Some (length ids)"
    using sll_owns_length [of l "map (\<lambda>i. new_jval_l (scast i)) ids"] assms by (simp add: ids_at_def)
  ultimately show ?thesis by simp
qed

lemma remove_ids_seg:
  "sll_seg h p xs 0 \<Longrightarrow> distinct (map fst xs) \<Longrightarrow> fst ` set xs \<subseteq> so_blocks st \<Longrightarrow>
   remove_ids_loop p h st = Some (st\<lparr>so_blocks := so_blocks st - fst ` set xs\<rparr>)"
proof (induction xs arbitrary: p h st)
  case Nil
  then show ?case by (simp add: remove_ids_loop.simps)
next
  case (Cons x xs)
  obtain a v where x: "x = (a, v)" by fastforce
  then obtain nd where nd: "p = a" "a \<noteq> 0" "h a = Some nd" "sll_seg h (next nd) xs 0"
    using Cons.prems(1) by (auto split: option.splits)
  have "a \<notin> fst ` set xs"
    using Cons.prems(2) x by simp
  then have "sll_seg (h(a := None)) (next nd) xs 0" "fst ` set xs \<subseteq> so_blocks st - {a}"
    using nd(4) Cons.prems(3) sll_seg_upd [of a xs h None "next nd" 0] by auto
  then have "remove_ids_loop (next nd) (h(a := None)) (st\<lparr>so_blocks := so_blocks st - {a}\<rparr>) =
      Some (st\<lparr>so_blocks := so_blocks st - {a} - fst ` set xs\<rparr>)"
    using Cons.prems(2) by (subst Cons.IH) simp_all
  then show ?case
    using nd Cons.prems(3) x by (subst remove_ids_loop.simps) (simp add: free_block_def Diff_insert2 [symmetric])
qed

lemma ids_removed:
  assumes "ids_at ids l st st1"
  shows "remove_ids l st1 = Some st"
proof -
  obtain xs where xs: "sll_at l xs" "fst ` set xs = dom (snd l)"
    using assms unfolding ids_at_def sll_owns_def by blast
  have st1: "st1 = st\<lparr>so_blocks := so_blocks st \<union> dom (snd l)\<rparr>" "so_blocks st \<union> dom (snd l) - dom (snd l) = so_blocks st"
    using assms by (auto simp: ids_at_def)
  show ?thesis
    unfolding remove_ids_def
    by (subst remove_ids_seg [of _ _ xs]) (use xs st1 in \<open>auto simp: sll_at_def\<close>)
qed

section \<open>Handlers with memory follow those without\<close>

text \<open>
  \<open>mirrors A w st P m n\<close>: the result \<open>m\<close> of a handler with memory is that of the handler without, \<open>n\<close>, and
  \<open>P\<close> holds of the store, unless there was no room for \<open>w\<close> allocations; a bad pointer is never followed.
\<close>

definition mirrors :: "allocator \<Rightarrow> nat \<Rightarrow> store \<Rightarrow> (store \<Rightarrow> bool) \<Rightarrow> machine mres \<Rightarrow> hstate res \<Rightarrow> bool" where
  "mirrors A w st P m n \<longleftrightarrow>
     (case m of
        Inr (s', st') \<Rightarrow> n = Inr s' \<and> P st'
      | Inl (Fault f) \<Rightarrow> n = Inl f
      | Inl No_Memory \<Rightarrow> \<not> room A w st
      | Inl Bad_Pointer \<Rightarrow> False)"

named_theorems mirror_rules \<open>rules for the statements of the handlers with memory\<close>

lemma mirrors_Inr [mirror_rules]: "P st' \<Longrightarrow> mirrors A w st P (Inr (s, st')) (Inr s)"
  by (simp add: mirrors_def)

lemma mirrors_Inl [mirror_rules]: "mirrors A w st P (Inl (Fault f)) (Inl f)"
  by (simp add: mirrors_def)

lemma mirrors_if [mirror_rules]:
  "(b \<Longrightarrow> mirrors A w st P m n) \<Longrightarrow> (\<not> b \<Longrightarrow> mirrors A w st P m' n') \<Longrightarrow>
   mirrors A w st P (if b then m else m') (if b then n else n')"
  by simp

lemma mirrors_option [mirror_rules]:
  "(x = None \<Longrightarrow> mirrors A w st P m n) \<Longrightarrow> (\<And>y. x = Some y \<Longrightarrow> mirrors A w st P (k y) (k' y)) \<Longrightarrow>
   mirrors A w st P (case x of None \<Rightarrow> m | Some y \<Rightarrow> k y) (case x of None \<Rightarrow> n | Some y \<Rightarrow> k' y)"
  by (cases x) simp_all

lemma mirrors_lift [mirror_rules]:
  "(\<And>x. r = Inr x \<Longrightarrow> mirrors A w st P (k x) (k' x)) \<Longrightarrow> mirrors A w st P (bindM (lift r) k) (bindE r k')"
  by (cases r) (simp_all add: mirrors_Inl)

lemma mirrors_on_state [mirror_rules]: "P st1 \<Longrightarrow> mirrors A w st P (on_state f (s, st1)) (f s)"
  by (cases "f s") (simp_all add: on_state_def mirrors_def)

lemma mirrors_state_bind [mirror_rules]:
  "(\<And>s'. f s = Inr s' \<Longrightarrow> mirrors A w st P (k (s', st1)) (k' s')) \<Longrightarrow>
   mirrors A w st P (bindM (on_state f (s, st1)) k) (bindE (f s) k')"
  by (cases "f s") (simp_all add: on_state_def mirrors_def)

lemma mirrors_err_free [mirror_rules]:
  "\<exists>st2. free st1 = Some st2 \<and> P st2 \<Longrightarrow>
   mirrors A w st P (response_err_free a b c free (s, st1)) (response_err a b c s)"
  by (auto simp: response_err_free_def on_store_def intro: mirrors_on_state)

lemma mirrors_reply_free [mirror_rules]:
  "\<exists>st2. free st1 = Some st2 \<and> P st2 \<Longrightarrow>
   mirrors A w st P (bindM (on_state f (s, st1)) (on_store free)) (f s)"
  by (cases "f s") (auto simp: on_state_def on_store_def mirrors_def)

lemma mirrors_store [mirror_rules]:
  "\<exists>st2. free st1 = Some st2 \<and> P st2 \<Longrightarrow> mirrors A w st P (on_store free (s, st1)) (Inr s)"
  by (auto simp: on_store_def mirrors_def)

lemma mirrors_store_bind:
  "\<exists>st2. free st1 = Some st2 \<and> mirrors A w st P (k (s, st2)) n \<Longrightarrow>
   mirrors A w st P (bindM (on_store free (s, st1)) k) n"
  by (auto simp: on_store_def)

lemma mirrors_sql [mirror_rules]:
  "(\<And>v rc c. f (h_conn s) = Inr (v, rc, c) \<Longrightarrow>
      mirrors A w st P (k v rc (s\<lparr>h_conn := c\<rparr>, st1)) (k' v rc (s\<lparr>h_conn := c\<rparr>))) \<Longrightarrow>
   mirrors A w st P (bindM (sql_mem f (s, st1)) (\<lambda>(v, rc, x). k v rc x)) (bindE (sql f s) (\<lambda>(v, rc, s'). k' v rc s'))"
  by (cases "f (h_conn s)") (auto simp: sql_mem_def sql_def mirrors_Inl)

lemma mirrors_deref_row [mirror_rules]:
  assumes "row_state frees n v r st st1"
    and "\<And>x. v = Some x \<Longrightarrow> mirrors A w st' P (k x) (k' x)"
  shows "mirrors A w st' P (bindM (deref_row v r (s, st1)) k) (bindE (deref v) k')"
  using assms by (cases v) (auto simp: deref_row_def row_state_def deref_def intro: mirrors_Inl)

lemma mirrors_row:
  assumes "malloc_ok A" and "store_ok st" and "A st \<noteq> 0"
    and "\<And>x. load A x st = load_row A frees (map_option (\<lambda>y. map (map_option Str) (srcs y)) x) st"
    and w: "\<And>x. 2 * length (srcs x) < w"
    and "\<And>v rc c r st1. f (h_conn s) = Inr (v, rc, c) \<Longrightarrow>
      row_state frees (case v of None \<Rightarrow> 0 | Some x \<Rightarrow> length (filter (\<lambda>s. s \<noteq> None) (srcs x))) v r st st1 \<Longrightarrow>
      mirrors A w st P (k v r rc (s\<lparr>h_conn := c\<rparr>, st1)) (k' v rc (s\<lparr>h_conn := c\<rparr>))"
  shows "mirrors A w st P (bindM (query_row A load f (s, st)) (\<lambda>(v, r, rc, x). k v r rc x))
    (bindE (sql f s) (\<lambda>(v, rc, s'). k' v rc s'))"
proof (cases "f (h_conn s)")
  case (Inl e)
  then show ?thesis
    using assms(3) by (simp add: query_row_def sql_mem_def sql_def mirrors_def)
next
  case (Inr y)
  obtain v rc c where y: "f (h_conn s) = Inr (v, rc, c)"
    using Inr by (cases y) auto
  have st: "case load_row A frees (map_option (\<lambda>y. map (map_option Str) (srcs y)) v) st of
      None \<Rightarrow> \<not> room A w st
    | Some (r, st1) \<Rightarrow>
        row_state frees (case v of None \<Rightarrow> 0 | Some x \<Rightarrow> length (filter (\<lambda>s. s \<noteq> None) (srcs x))) v r st st1"
    by (rule load_row_state [OF assms(1-3) refl]) (simp_all add: w)
  show ?thesis
  proof (cases "load A v st")
    case None
    then show ?thesis
      using st assms(3) y by (simp add: query_row_def sql_mem_def sql_def mirrors_def assms(4))
  next
    case (Some z)
    obtain r st1 where "load A v st = Some (r, st1)"
      using Some by (cases z) auto
    then show ?thesis
      using st assms(3) assms(6) [OF y] y by (simp add: query_row_def sql_mem_def sql_def assms(4))
  qed
qed

lemma mirrors_list:
  assumes "malloc_ok A" and w: "\<And>ids rc c. f (h_conn s) = Inr (ids, rc, c) \<Longrightarrow> length ids \<le> w"
    and "\<And>ids rc c l st1. f (h_conn s) = Inr (ids, rc, c) \<Longrightarrow> ids_at ids l st st1 \<Longrightarrow>
      mirrors A w st P (k l rc (s\<lparr>h_conn := c\<rparr>, st1)) (k' ids rc (s\<lparr>h_conn := c\<rparr>))"
  shows "mirrors A w st P (bindM (query_list A f (s, st)) (\<lambda>(l, rc, x). k l rc x))
    (bindE (sql f s) (\<lambda>(ids, rc, s'). k' ids rc s'))"
proof (cases "f (h_conn s)")
  case (Inl e)
  then show ?thesis
    by (simp add: query_list_def sql_mem_def sql_def mirrors_def)
next
  case (Inr y)
  obtain ids rc c where y: "f (h_conn s) = Inr (ids, rc, c)"
    using Inr by (cases y) auto
  have "ids_at ids l st st1" if "insert_ids A (rev ids) (0, Map.empty) st = Some (l, st1)" for l st1
    using insert_ids_at [OF assms(1) that ids_at_empty] by simp
  note at = this
  show ?thesis
  proof (cases "insert_ids A (rev ids) (0, Map.empty) st")
    case None
    then show ?thesis
      using insert_ids_None [OF None] room_mono [of A w st "length ids"] w [OF y] y
      by (auto simp: query_list_def sql_mem_def sql_def mirrors_def)
  next
    case (Some z)
    obtain l st1 where "insert_ids A (rev ids) (0, Map.empty) st = Some (l, st1)"
      using Some by (cases z) auto
    then show ?thesis
      using at assms(3) [OF y] y by (simp add: query_list_def sql_mem_def sql_def)
  qed
qed

lemma mirrors_reply_ids [mirror_rules]:
  assumes "ids_at ids l st1 st2" and "P st1"
  shows "mirrors A w st P (reply_ids f l (s, st2)) (respond (f (of_nat (length ids)) ids) s)"
  using ids_read [OF assms(1)] ids_removed [OF assms(1)] assms(2)
  by (auto simp: reply_ids_def intro!: mirrors_reply_free)

end
