(* ===== verification/Memory_Handlers.thy ===== *)
theory Memory_Handlers
  imports Memory_Safety
begin

text \<open>
  Every handler with memory does what the handler without memory does, and the store afterwards has exactly the
  records and strings more that the handler forgets: the record of a user or a message that is not there,
  and the record of a conversation that is answered with its name.
\<close>

section \<open>Every handler\<close>

lemma loads:
  "user_get_by_uname_mem A u st = load_row A False (map_option (\<lambda>u. map (map_option Str) [us_uname u, us_password u, None, None]) u) st"
  "user_get_by_id_mem A u st = load_row A True (map_option (\<lambda>u. map (map_option Str) [us_uname u, us_password u, us_phone u, us_email u]) u) st"
  "conv_get_info_mem A v st = load_row A True (map_option (\<lambda>v. map (map_option Str) [vs_name v]) v) st"
  "chat_get_info_mem A h st = load_row A True (map_option (\<lambda>_. map (map_option Str) []) h) st"
  "msg_get_detail_mem A m st = load_row A False (map_option (\<lambda>m. map (map_option Str) [mg_content m]) m) st"
  by (simp_all add: row_mem_defs)

lemma row_needs: "2 * length [a, b, c, d] < (9 :: nat)" "2 * length [a] < (9 :: nat)" "2 * length [] < (9 :: nat)"
  by simp_all

lemmas mirrors_rows =
  mirrors_row [where load = user_get_by_uname_mem, OF _ _ _ loads(1) row_needs(1)]
  mirrors_row [where load = user_get_by_id_mem, OF _ _ _ loads(2) row_needs(1)]
  mirrors_row [where load = conv_get_info_mem, OF _ _ _ loads(3) row_needs(2)]
  mirrors_row [where load = chat_get_info_mem, OF _ _ _ loads(4) row_needs(3)]
  mirrors_row [where load = msg_get_detail_mem, OF _ _ _ loads(5) row_needs(2)]

text \<open>The records that a query keeps when it finds no row.\<close>

definition rows_lost :: "(conn \<Rightarrow> 'a option sqlres) \<Rightarrow> hstate \<Rightarrow> nat" where
  "rows_lost f s = (case f (h_conn s) of Inr (None, _) \<Rightarrow> 1 | _ \<Rightarrow> 0)"

lemma row_free_lost:
  assumes "row_state False n v r st st1" and "f (h_conn s) = Inr (v, rc, c)"
  shows "\<exists>st2. row_free r st1 = Some st2 \<and> grown (rows_lost f s) 0 st st2"
  using row_state_free [OF assms(1)] assms(2) by (cases v) (simp_all add: rows_lost_def)

lemma row_free_all:
  "row_state True n v r st st1 \<Longrightarrow> \<exists>st2. row_free r st1 = Some st2 \<and> grown 0 0 st st2"
  using row_state_free [of True] by fastforce

lemma login_mirrors:
  assumes "malloc_ok A" "store_ok st" "A st \<noteq> 0"
  shows "mirrors A 9 st (grown (rows_lost (user_get_by_uname (e_sql E) (ra_uname ra)) s) 0 st)
    (handle_auth_login_mem A E ra (s, st)) (handle_auth_login E ra s)"
  unfolding handle_auth_login_mem_def handle_auth_login_def user_free_def
  by (intro mirror_rules mirrors_rows(1) assms) (auto intro: row_free_lost)

lemma user_get_info_mirrors:
  assumes "malloc_ok A" "store_ok st" "A st \<noteq> 0"
  shows "mirrors A 9 st (grown 0 0 st) (handle_user_get_info_mem A E ru (s, st)) (handle_user_get_info E ru s)"
  unfolding handle_user_get_info_mem_def handle_user_get_info_def user_free_def
  by (intro mirror_rules mirrors_rows(2) assms) (auto intro: row_free_all)

lemma chat_get_info_mirrors:
  assumes "malloc_ok A" "store_ok st" "A st \<noteq> 0"
  shows "mirrors A 9 st (grown 0 0 st) (handle_chat_get_info_mem A E header rchat (s, st)) (handle_chat_get_info E header rchat s)"
  unfolding handle_chat_get_info_mem_def handle_chat_get_info_def chat_free_def
  by (intro mirror_rules mirrors_rows(4) assms) (auto intro: row_free_all)

lemma conv_info_rc: "conv_get_info Q i c = Inr (Some v, rc, c') \<Longrightarrow> rc = SQLITE_OK"
  by (auto simp: conv_get_info_def bindE_eq_Inr_iff split: prod.splits option.splits)

text \<open>The record of a conversation and its name stay after an answer.\<close>

definition convs_kept :: "env \<Rightarrow> request_conv \<Rightarrow> hstate \<Rightarrow> nat" where
  "convs_kept E rconv s =
     (case conv_get_info (e_sql E) (rc_conv_id rconv) (h_conn s) of Inr (Some _, _) \<Rightarrow> 1 | _ \<Rightarrow> 0)"

lemma conv_get_info_mirrors:
  assumes "malloc_ok A" "store_ok st" "A st \<noteq> 0"
  shows "mirrors A 9 st (grown (convs_kept E rconv s) (convs_kept E rconv s) st)
    (handle_conv_get_info_mem A E rconv (s, st)) (handle_conv_get_info E rconv s)"
  unfolding handle_conv_get_info_mem_def handle_conv_get_info_def conv_free_def
proof (rule mirrors_rows(3) [OF assms], intro mirror_rules)
  fix v rc c r st1
  assume q: "conv_get_info (e_sql E) (rc_conv_id rconv) (h_conn s) = Inr (v, rc, c)"
    and st1: "row_state True (case v of None \<Rightarrow> 0 | Some x \<Rightarrow> length (filter (\<lambda>s. s \<noteq> None) [vs_name x])) v r st st1"
  have "\<exists>st2. row_free r st1 = Some st2 \<and> grown (convs_kept E rconv s) (convs_kept E rconv s) st st2"
    if "sql_is_err rc \<or> rc = SQLITE_EMPTY"
  proof -
    have "v = None"
      using that q by (cases v) (auto dest: conv_info_rc simp: sql_is_err_def sql_is_ok_def SQLITE_OK_def SQLITE_EMPTY_def)
    then show ?thesis
      using row_free_all [OF st1] q by (simp add: convs_kept_def)
  qed
  then show "sql_is_err rc \<Longrightarrow> \<exists>st2. row_free r st1 = Some st2 \<and> grown (convs_kept E rconv s) (convs_kept E rconv s) st st2"
    and "rc = SQLITE_EMPTY \<Longrightarrow> \<exists>st2. row_free r st1 = Some st2 \<and> grown (convs_kept E rconv s) (convs_kept E rconv s) st st2"
    by simp_all
  show "row_state True (case v of None \<Rightarrow> 0 | Some x \<Rightarrow> length (filter (\<lambda>s. s \<noteq> None) [vs_name x])) v r st st1"
    by (rule st1)
  fix x name
  assume "v = Some x" and name: "deref (vs_name x) = Inr name"
  then show "grown (convs_kept E rconv s) (convs_kept E rconv s) st st1"
    using st1 q by (auto simp: row_state_def convs_kept_def deref_def split: option.splits)
qed

text \<open>How many identifiers a list has, when it is read at once and after the test of the membership.\<close>

definition list_len :: "(conn \<Rightarrow> u32 list sqlres) \<Rightarrow> conn \<Rightarrow> nat" where
  "list_len f c = (case f c of Inr (ids, _) \<Rightarrow> length ids | Inl _ \<Rightarrow> 0)"

definition conn_after :: "(conn \<Rightarrow> 'a sqlres) \<Rightarrow> conn \<Rightarrow> conn" where
  "conn_after f c = (case f c of Inr (_, _, c') \<Rightarrow> c' | Inl _ \<Rightarrow> c)"

lemma list_len_Inr [simp]: "f c = Inr (ids, rc, c') \<Longrightarrow> list_len f c = length ids"
  by (simp add: list_len_def)

lemma conn_after_Inr [simp]: "f c = Inr (v, rc, c') \<Longrightarrow> conn_after f c = c'"
  by (simp add: conn_after_def)

lemma require_member_mirrors [mirror_rules]:
  assumes "\<exists>st2. free st1 = Some st2 \<and> P st2"
    and k: "\<And>c c1. c1 = conn_after (conv_is_member (e_sql E) cid (rq_user_id header)) (h_conn s) \<Longrightarrow>
      c = c1 \<or> c = conn_after (chat_is_member (e_sql E) hid (rq_user_id header)) c1 \<Longrightarrow>
      mirrors A w st P (k (s\<lparr>h_conn := c\<rparr>, st1)) (k' (s\<lparr>h_conn := c\<rparr>))"
  shows "mirrors A w st P (require_member_mem E header cid hid action free k (s, st1))
    (require_member E header cid hid action k' s)"
  unfolding require_member_mem_def require_member_def
  by (intro mirror_rules assms(1)) (use k [OF refl] in simp_all)

lemma with_msg_mirrors:
  assumes "malloc_ok A" "store_ok st" "A st \<noteq> 0"
    and "\<And>m r c st1 st2. row_free r st1 = Some st2 \<Longrightarrow> P st2 \<Longrightarrow>
      mirrors A 9 st P (k m r (s\<lparr>h_conn := c\<rparr>, st1)) (k' m (s\<lparr>h_conn := c\<rparr>))"
    and P: "P = grown (rows_lost (msg_get_detail (e_sql E) mid) s) 0 st"
  shows "mirrors A 9 st P (with_msg_mem A E header mid action k (s, st)) (with_msg E header mid action k' s)"
  unfolding with_msg_mem_def with_msg_def msg_free_def
proof (intro mirror_rules mirrors_rows(5) assms(1-3))
  fix v rc c r st1
  assume "msg_get_detail (e_sql E) mid (h_conn s) = Inr (v, rc, c)"
    and st1: "row_state False (case v of None \<Rightarrow> 0 | Some x \<Rightarrow> length (filter (\<lambda>s. s \<noteq> None) [mg_content x])) v r st st1"
  then show "\<exists>st2. row_free r st1 = Some st2 \<and> P st2"
    unfolding P by (intro row_free_lost)
  then show "\<exists>st2. row_free r st1 = Some st2 \<and> P st2" "\<exists>st2. row_free r st1 = Some st2 \<and> P st2"
    and "mirrors A 9 st P (k m r (s\<lparr>h_conn := c, h_conn := ca\<rparr>, st1)) (k' m (s\<lparr>h_conn := c, h_conn := ca\<rparr>))" for m ca
    using assms(4) by auto
qed auto

lemma stream_file_eq:
  "send_stored_file E m s =
     bindE (deref (mg_content m)) (\<lambda>path.
     bindE (cstr (path @ [0]) (length STORAGE)) (\<lambda>name.
     bindE (into_buf (make_response_msg_download_file 200 (mg_content_length m) name) s) (\<lambda>s1.
       case write_client s1 of (n, s2) \<Rightarrow>
         if n \<noteq> int BUFSIZ then Inr ((close_sock s2)\<lparr>h_close_conn := True\<rparr>) else stream_file E path s2)))"
  unfolding send_stored_file_def stream_file_def ..

lemma send_stored_file_mirrors:
  assumes "row_free r st1 = Some st2" and "P st2"
  shows "mirrors A 9 st P (send_stored_file_mem E m r (s, st1)) (send_stored_file E m s)"
  unfolding send_stored_file_mem_def stream_file_eq msg_free_def
  by (intro mirror_rules, simp split: prod.split)
    (use assms in \<open>auto intro!: mirrors_store_bind mirrors_on_state mirrors_if\<close>)


lemma msg_row_mirrors:
  assumes "malloc_ok A" "store_ok st" "A st \<noteq> 0" and P: "P = grown (rows_lost (msg_get_detail (e_sql E) (rm_msg_id rm)) s) 0 st"
  shows "mirrors A 9 st P (handle_msg_get_detail_mem A E header rm (s, st)) (handle_msg_get_detail E header rm s)"
    and "mirrors A 9 st P (handle_msg_delete_mem A E header rm (s, st)) (handle_msg_delete E header rm s)"
    and "mirrors A 9 st P (handle_msg_download_file_mem A E header rm (s, st)) (handle_msg_download_file E header rm s)"
  unfolding handle_msg_get_detail_mem_def handle_msg_get_detail_def handle_msg_delete_mem_def handle_msg_delete_def
    handle_msg_download_file_mem_def handle_msg_download_file_def msg_free_def P
  by (rule with_msg_mirrors [OF assms(1-3)], intro mirror_rules send_stored_file_mirrors, auto)+

text \<open>Without memory for the record, all of them answer with 500 and leave the store as it is.\<close>

lemma row_handlers_refuse:
  assumes "A st = 0" and "store_ok st"
  shows "mirrors A w st (grown 0 0 st) (handle_auth_login_mem A E ra (s, st)) (response_err 500 0 1 s)"
    and "mirrors A w st (grown 0 0 st) (handle_user_get_info_mem A E ru (s, st)) (response_err 500 1 1 s)"
    and "mirrors A w st (grown 0 0 st) (handle_conv_get_info_mem A E rconv (s, st)) (response_err 500 2 4 s)"
    and "mirrors A w st (grown 0 0 st) (handle_chat_get_info_mem A E header rchat (s, st)) (response_err 500 3 3 s)"
    and "mirrors A w st (grown 0 0 st) (handle_msg_get_detail_mem A E header rm (s, st)) (response_err 500 4 1 s)"
    and "mirrors A w st (grown 0 0 st) (handle_msg_delete_mem A E header rm (s, st)) (response_err 500 4 3 s)"
    and "mirrors A w st (grown 0 0 st) (handle_msg_download_file_mem A E header rm (s, st)) (response_err 500 4 6 s)"
proof -
  have "mirrors A w st (grown 0 0 st) (response_err_free 500 g a (row_free None) (s, st)) (response_err 500 g a s)" for g a
    by (rule mirrors_err_free) (simp add: row_free_def grown_refl assms)
  moreover have "sql_is_err SQLITE_NOMEM"
    by (simp add: sql_is_err_def sql_is_ok_def SQLITE_NOMEM_def SQLITE_OK_def SQLITE_ROW_def SQLITE_DONE_def SQLITE_EMPTY_def)
  moreover have "query_row A load f (s, st) = Inr (None, None, SQLITE_NOMEM, (s, st))" for load and f :: "conn \<Rightarrow> 'a option sqlres"
    using assms(1) by (simp add: query_row_def)
  ultimately show "mirrors A w st (grown 0 0 st) (handle_auth_login_mem A E ra (s, st)) (response_err 500 0 1 s)"
    and "mirrors A w st (grown 0 0 st) (handle_user_get_info_mem A E ru (s, st)) (response_err 500 1 1 s)"
    and "mirrors A w st (grown 0 0 st) (handle_conv_get_info_mem A E rconv (s, st)) (response_err 500 2 4 s)"
    and "mirrors A w st (grown 0 0 st) (handle_chat_get_info_mem A E header rchat (s, st)) (response_err 500 3 3 s)"
    and "mirrors A w st (grown 0 0 st) (handle_msg_get_detail_mem A E header rm (s, st)) (response_err 500 4 1 s)"
    and "mirrors A w st (grown 0 0 st) (handle_msg_delete_mem A E header rm (s, st)) (response_err 500 4 3 s)"
    and "mirrors A w st (grown 0 0 st) (handle_msg_download_file_mem A E header rm (s, st)) (response_err 500 4 6 s)"
    using assms(1)
    by (simp_all add: handle_auth_login_mem_def handle_user_get_info_mem_def handle_conv_get_info_mem_def
        handle_chat_get_info_mem_def handle_msg_get_detail_mem_def handle_msg_delete_mem_def
        handle_msg_download_file_mem_def with_msg_mem_def user_free_def conv_free_def chat_free_def msg_free_def query_row_def)
qed

text \<open>The two notifications do not free the list when the query fails, and then there is none.\<close>

lemma failed_list:
  assumes "msg_get_msg_sent Q u c = Inr (ids, rc, c') \<or> msg_get_msg_del Q u v h c = Inr (ids, rc, c')"
    and "sql_is_err rc" and "ids_at ids l st st1"
  shows "st1 = st"
proof -
  have "ids = []"
    using assms(1,2)
    by (auto simp: msg_get_msg_sent_def msg_get_msg_del_def sql_get_list_def sql_is_err_def sql_is_ok_def
        split: prod.splits if_splits)
  then show ?thesis
    using assms(3) by (auto simp: ids_at_def sll_owns_def)
qed

definition members_len :: "env \<Rightarrow> request_header \<Rightarrow> request_conv \<Rightarrow> conn \<Rightarrow> nat" where
  "members_len E header rconv c =
     list_len (conv_get_members (e_sql E) (rc_conv_id rconv))
       (conn_after (conv_is_member (e_sql E) (rc_conv_id rconv) (rq_user_id header)) c)"

definition page_len :: "env \<Rightarrow> request_header \<Rightarrow> request_msg \<Rightarrow> conn \<Rightarrow> nat" where
  "page_len E header rm c =
     (let limit = at_least_0 (rq_limit header); offset = at_least_0 (rq_offset header);
          f = (if 0 < rm_chat_id rm then msg_chat_get_all (e_sql E) (rm_chat_id rm) limit offset
               else msg_conv_get_all (e_sql E) (rm_conv_id rm) limit offset);
          c1 = conn_after (conv_is_member (e_sql E) (rm_conv_id rm) (rq_user_id header)) c;
          c2 = conn_after (chat_is_member (e_sql E) (rm_chat_id rm) (rq_user_id header)) c1
      in max (list_len f c1) (list_len f c2))"

lemma page_len_bound:
  assumes "c1 = conn_after (conv_is_member (e_sql E) (rm_conv_id rm) (rq_user_id header)) c"
    and "c' = c1 \<or> c' = conn_after (chat_is_member (e_sql E) (rm_chat_id rm) (rq_user_id header)) c1"
    and "(if 0 < rm_chat_id rm
      then msg_chat_get_all (e_sql E) (rm_chat_id rm) (at_least_0 (rq_limit header)) (at_least_0 (rq_offset header))
      else msg_conv_get_all (e_sql E) (rm_conv_id rm) (at_least_0 (rq_limit header)) (at_least_0 (rq_offset header))) c' =
      Inr (ids, rc, c'')"
  shows "length ids \<le> page_len E header rm c"
proof -
  define f where "f = (if 0 < rm_chat_id rm
    then msg_chat_get_all (e_sql E) (rm_chat_id rm) (at_least_0 (rq_limit header)) (at_least_0 (rq_offset header))
    else msg_conv_get_all (e_sql E) (rm_conv_id rm) (at_least_0 (rq_limit header)) (at_least_0 (rq_offset header)))"
  have "list_len f c' = length ids"
    using assms(3) unfolding f_def [symmetric] by simp
  then show ?thesis
    using assms(2) unfolding page_len_def Let_def assms(1) f_def [symmetric] by auto
qed

lemma list_handlers_mirror:
  assumes "malloc_ok A" "store_ok st"
  shows "mirrors A (list_len (user_search_by_uname (e_sql E) (ru_uname ru) (at_least_0 (rq_limit header))
      (at_least_0 (rq_offset header))) (h_conn s)) st (grown 0 0 st)
      (handle_user_search_mem A E header ru (s, st)) (handle_user_search E header ru s)"
    and "mirrors A (members_len E header rconv (h_conn s)) st (grown 0 0 st)
      (handle_conv_get_members_mem A E header rconv (s, st)) (handle_conv_get_members E header rconv s)"
    and "mirrors A (list_len (user_get_conv_list (e_sql E) (rq_user_id header) (at_least_0 (rq_limit header))
      (at_least_0 (rq_offset header))) (h_conn s)) st (grown 0 0 st)
      (handle_conv_get_list_mem A E header (s, st)) (handle_conv_get_list E header s)"
    and "mirrors A (list_len (user_get_chat_list (e_sql E) (rq_user_id header) (at_least_0 (rq_limit header))
      (at_least_0 (rq_offset header))) (h_conn s)) st (grown 0 0 st)
      (handle_chat_get_list_mem A E header (s, st)) (handle_chat_get_list E header s)"
    and "mirrors A (page_len E header rm (h_conn s)) st (grown 0 0 st)
      (handle_msg_get_all_mem A E header rm (s, st)) (handle_msg_get_all E header rm s)"
    and "mirrors A (list_len (msg_get_msg_sent (e_sql E) (rq_user_id header)) (h_conn s)) st (grown 0 0 st)
      (handle_notify_new_msg_mem A E header (s, st)) (handle_notify_new_msg E header s)"
    and "mirrors A (list_len (msg_get_msg_del (e_sql E) (rq_user_id header) (rm_conv_id rm) (rm_chat_id rm)) (h_conn s))
      st (grown 0 0 st) (handle_notify_del_msg_mem A E header rm (s, st)) (handle_notify_del_msg E header rm s)"
  unfolding handle_user_search_mem_def handle_user_search_def handle_conv_get_members_mem_def handle_conv_get_members_def
    handle_conv_get_list_mem_def handle_conv_get_list_def handle_chat_get_list_mem_def handle_chat_get_list_def
    handle_msg_get_all_mem_def handle_msg_get_all_def Let_def handle_notify_new_msg_mem_def handle_notify_new_msg_def
    handle_notify_del_msg_mem_def handle_notify_del_msg_def
  by (intro mirror_rules mirrors_list assms, auto intro: mirror_rules page_len_bound [OF refl]
      dest: failed_list [OF disjI1] failed_list [OF disjI2] simp: grown_refl assms ids_removed members_len_def)+

text \<open>The messages that are asked for and not there.\<close>

definition msgs_lost :: "env \<Rightarrow> request_header \<Rightarrow> request_msg \<Rightarrow> hstate \<Rightarrow> nat" where
  "msgs_lost E header rm s =
     (if rq_action header \<in> {1, 3, 6} then rows_lost (msg_get_detail (e_sql E) (rm_msg_id rm)) s else 0)"

section \<open>Every request\<close>

text \<open>How many records and how many strings a request leaves behind.\<close>

definition body_keeps :: "env \<Rightarrow> request_header \<Rightarrow> request_body \<Rightarrow> hstate \<Rightarrow> nat \<times> nat" where
  "body_keeps E header body s =
     (case body of
        R_auth ra \<Rightarrow>
          (if rq_action header = 1 then rows_lost (user_get_by_uname (e_sql E) (ra_uname ra)) s else 0, 0)
      | R_conv rconv \<Rightarrow>
          (if rq_action header = 4 then convs_kept E rconv s else 0,
           if rq_action header = 4 then convs_kept E rconv s else 0)
      | R_msg rm \<Rightarrow> (msgs_lost E header rm s, 0)
      | _ \<Rightarrow> (0, 0))"

definition request_keeps :: "env \<Rightarrow> request option \<Rightarrow> hstate \<Rightarrow> nat \<times> nat" where
  "request_keeps E req s =
     (case req of
        None \<Rightarrow> (0, 0)
      | Some r \<Rightarrow>
          let header = rq_header r
          in if rq_group header \<noteq> 0 \<and> verify_token (e_decrypt E) (e_now E) (e_addr E) (rq_user_id header)
                  (rq_token header) \<le> 0
             then (0, 0)
             else body_keeps E header (rq_body r) s)"

text \<open>How many addresses it takes meanwhile: a record of a row has up to four strings, each with its node.\<close>

definition body_needs :: "env \<Rightarrow> request_header \<Rightarrow> request_body \<Rightarrow> conn \<Rightarrow> nat" where
  "body_needs E header body c =
     (let limit = at_least_0 (rq_limit header); offset = at_least_0 (rq_offset header); uid = rq_user_id header
      in case body of
           R_auth ra \<Rightarrow> if rq_action header = 1 then 9 else 0
         | R_user ru \<Rightarrow>
             if rq_action header = 1 then 9
             else if rq_action header = 2 then list_len (user_search_by_uname (e_sql E) (ru_uname ru) limit offset) c
             else 0
         | R_conv rconv \<Rightarrow>
             if rq_action header = 4 then 9
             else if rq_action header = 5 then members_len E header rconv c
             else if rq_action header = 6 then list_len (user_get_conv_list (e_sql E) uid limit offset) c
             else 0
         | R_chat rchat \<Rightarrow>
             if rq_action header = 2 then list_len (user_get_chat_list (e_sql E) uid limit offset) c
             else if rq_action header = 3 then 9
             else 0
         | R_msg rm \<Rightarrow>
             if rq_action header = 0 then page_len E header rm c
             else if rq_action header = 4 then list_len (msg_get_msg_sent (e_sql E) uid) c
             else if rq_action header = 5 then list_len (msg_get_msg_del (e_sql E) uid (rm_conv_id rm) (rm_chat_id rm)) c
             else if rq_action header \<in> {1, 3, 6} then 9
             else 0)"

definition request_needs :: "env \<Rightarrow> request option \<Rightarrow> conn \<Rightarrow> nat" where
  "request_needs E req c = (case req of None \<Rightarrow> 0 | Some r \<Rightarrow> body_needs E (rq_header r) (rq_body r) c)"

text \<open>
  What comes out of a request: the result of the handler without memory, or a refusal with 500 when there is no
  memory for the record of a row.
\<close>

definition outcome ::
    "allocator \<Rightarrow> nat \<Rightarrow> store \<Rightarrow> nat \<times> nat \<Rightarrow> machine mres \<Rightarrow> hstate res \<Rightarrow> hstate \<Rightarrow> bool" where
  "outcome A w st k m r s \<longleftrightarrow>
     mirrors A w st (grown (fst k) (snd k) st) m r \<or>
     0 < w \<and> A st = 0 \<and> (\<exists>g a. mirrors A w st (grown 0 0 st) m (response_err 500 g a s))"

lemma outcome_same: "mirrors A w st (grown 0 0 st) m r \<Longrightarrow> outcome A w st (0, 0) m r s"
  by (simp add: outcome_def)

lemma outcome_row:
  "(A st \<noteq> 0 \<Longrightarrow> mirrors A 9 st (grown b n st) m r) \<Longrightarrow>
   (A st = 0 \<Longrightarrow> mirrors A 9 st (grown 0 0 st) m (response_err 500 g a s)) \<Longrightarrow> outcome A 9 st (b, n) m r s"
  by (auto simp: outcome_def)

lemma body_outcome:
  assumes "malloc_ok A" "store_ok st"
  shows "outcome A (body_needs E header body (h_conn s)) st (body_keeps E header body s)
    (dispatch_body_mem A E header body (s, st)) (dispatch_body E header body s) s"
proof -
  note same = outcome_same [OF mirrors_on_state] outcome_same [OF mirrors_Inr] grown_refl assms(2)
  note lists = list_handlers_mirror [OF assms, THEN outcome_same]
  note rows = outcome_row [OF login_mirrors [OF assms] row_handlers_refuse(1) [OF _ assms(2)]]
    outcome_row [OF user_get_info_mirrors [OF assms] row_handlers_refuse(2) [OF _ assms(2)]]
    outcome_row [OF conv_get_info_mirrors [OF assms] row_handlers_refuse(3) [OF _ assms(2)]]
    outcome_row [OF chat_get_info_mirrors [OF assms] row_handlers_refuse(4) [OF _ assms(2)]]
    outcome_row [OF msg_row_mirrors(1) [OF assms _ refl] row_handlers_refuse(5) [OF _ assms(2)]]
    outcome_row [OF msg_row_mirrors(2) [OF assms _ refl] row_handlers_refuse(6) [OF _ assms(2)]]
    outcome_row [OF msg_row_mirrors(3) [OF assms _ refl] row_handlers_refuse(7) [OF _ assms(2)]]
  show ?thesis
  proof (cases body)
    case (R_auth ra)
    then show ?thesis
      using rows same by (simp add: Let_def body_keeps_def body_needs_def dispatch_body_mem_def dispatch_body_def)
  qed (use rows lists same in \<open>simp_all add: Let_def body_keeps_def body_needs_def dispatch_body_mem_def dispatch_body_def msgs_lost_def
      dispatch_user_mem_def dispatch_user_def dispatch_conv_mem_def dispatch_conv_def dispatch_chat_mem_def
      dispatch_chat_def dispatch_msg_mem_def dispatch_msg_def\<close>)
qed

lemma request_outcome:
  assumes "malloc_ok A" "store_ok st"
  shows "outcome A (request_needs E req (h_conn s)) st (request_keeps E req s)
    (handle_request_mem A E req (s, st)) (handle_request E req s) s"
  using body_outcome [OF assms] outcome_same [OF mirrors_on_state] grown_refl [OF assms(2)]
  by (cases req) (simp_all add: request_needs_def request_keeps_def handle_request_mem_def handle_request_def Let_def)

end
