(* ===== verification/Memory_Requests.thy ===== *)
theory Memory_Requests
  imports Memory_Handlers Exchange
begin

text \<open>
  A whole request with its memory: it is parsed, handled and destroyed. The blocks of the request are given back
  however its handler has grown the store; the token stays, with what the handler forgets. A pointer to memory that
  was freed is never followed.
\<close>

section \<open>The request between its parsing and its destruction\<close>

definition held :: "request_mem option \<Rightarrow> store \<Rightarrow> store \<Rightarrow> bool" where
  "held mem st st1 \<longleftrightarrow> store_ok st1 \<and>
     (case mem of
        None \<Rightarrow> grown 0 1 st st1
      | Some r \<Rightarrow> \<exists>tok x. tok \<notin> dom (strings_of st) \<and> rp_body r \<noteq> 0 \<and> rp_self r \<noteq> rp_body r \<and>
          {rp_self r, rp_body r} \<inter> so_blocks st = {} \<and> so_blocks st1 = so_blocks st \<union> {rp_self r, rp_body r} \<and>
          list_all (\<lambda>p. p = 0 \<or> strings_of st1 p \<noteq> None) (rp_fields r) \<and>
          strings_of st1 |` (- set (rp_fields r)) = (strings_of st)(tok \<mapsto> x))"

lemma grown_one_string:
  assumes "store_ok st'" "so_blocks st' = so_blocks st" "tok \<notin> dom (strings_of st)"
    "strings_of st' = (strings_of st)(tok \<mapsto> x)"
  shows "grown 0 1 st st'"
  unfolding grown_def
  by (intro conjI exI [of _ "{}"] exI [of _ "{tok}"]) (use assms in \<open>auto simp: restrict_map_def fun_eq_iff domIff\<close>)

text \<open>Strings of the request are removed from a registry to which others were added in between.\<close>

lemma strings_after_release:
  fixes m m1 m2 :: "ptr \<rightharpoonup> bytes"
  assumes tok: "tok \<notin> dom m" "m1 |` (- F) = m(tok \<mapsto> x)" and F: "F \<subseteq> dom m1 \<union> {0}" "0 \<notin> dom m2"
    and ss: "finite ss" "ss \<inter> dom m1 = {}" "ss \<subseteq> dom m2" "m2 |` (- ss) = m1"
  shows "card (insert tok ss) = Suc (card ss)" "insert tok ss \<inter> dom m = {}" "insert tok ss \<subseteq> dom (m2 |` (- F))"
    "(m2 |` (- F)) |` (- insert tok ss) = m"
proof -
  have t: "tok \<in> dom m1" "tok \<notin> F"
    using fun_cong [OF tok(2), of tok] by (auto simp: restrict_map_def split: if_splits)
  have dom: "dom m \<subseteq> dom m1" "dom m1 \<subseteq> dom m2"
    using arg_cong [OF tok(2), of dom] arg_cong [OF ss(4), of dom] by auto
  show "card (insert tok ss) = Suc (card ss)"
    using t ss(1,2) by (subst card_insert_disjoint) auto
  show "insert tok ss \<inter> dom m = {}"
    using dom(1) tok(1) ss(2) by blast
  have "ss \<inter> F = {}"
    using F ss(2,3) by blast
  then show "insert tok ss \<subseteq> dom (m2 |` (- F))"
    using t dom(2) ss(3) unfolding dom_restrict by blast
  have "(m2 |` (- F)) |` (- insert tok ss) = ((m2 |` (- ss)) |` (- F)) |` (- {tok})"
    by (auto simp: restrict_map_def fun_eq_iff)
  also have "\<dots> = m"
    unfolding ss(4) tok(2) using tok(1) by (auto simp: restrict_map_def fun_eq_iff domIff)
  finally show "(m2 |` (- F)) |` (- insert tok ss) = m" .
qed

lemma held_destroyed:
  assumes "held mem st st1" and "grown b n st1 st2"
  shows "\<exists>st3. request_destroy mem st2 = Some st3 \<and> grown b (Suc n) st st3"
proof (cases mem)
  case None
  then have "grown 0 1 st st1"
    using assms(1) by (simp add: held_def)
  then show ?thesis
    using grown_trans [OF _ assms(2)] None by (fastforce simp: request_destroy_def)
next
  case (Some r)
  let ?F = "set (rp_fields r)" and ?B = "{rp_self r, rp_body r}"
  obtain tok x where h: "tok \<notin> dom (strings_of st)" "strings_of st1 |` (- ?F) = (strings_of st)(tok \<mapsto> x)"
      "list_all (\<lambda>p. p = 0 \<or> strings_of st1 p \<noteq> None) (rp_fields r)"
      "rp_body r \<noteq> 0" "rp_self r \<noteq> rp_body r" "?B \<inter> so_blocks st = {}" "so_blocks st1 = so_blocks st \<union> ?B"
    using assms(1) Some by (auto simp: held_def)
  obtain bs where bs: "finite bs" "card bs = b" "bs \<inter> so_blocks st1 = {}" "so_blocks st2 = so_blocks st1 \<union> bs"
    using assms(2) unfolding grown_def by blast
  obtain ss where ss: "finite ss" "ss \<inter> dom (strings_of st1) = {}" "ss \<subseteq> dom (strings_of st2)"
      "strings_of st2 |` (- ss) = strings_of st1" "card ss = n"
    using assms(2) unfolding grown_def by blast
  obtain sa where sa: "release_fields (rp_fields r) st2 = Some sa" "store_ok sa" "so_blocks sa = so_blocks st2"
      "strings_of sa = strings_of st2 |` (- ?F)"
    using release_fields_ok [OF grown_ok [OF assms(2)]] by blast
  let ?st = "sa\<lparr>so_blocks := so_blocks st2 - {rp_body r} - {rp_self r}\<rparr>"
  have "request_destroy mem st2 = Some ?st"
    using Some sa(1,3) bs(4) h(4,5,7)
    by (simp add: request_destroy_def request_body_destroy_def free_block_def)
  moreover have "so_blocks ?st = so_blocks st \<union> bs" "bs \<inter> so_blocks st = {}"
    using h(6,7) bs(3,4) by auto
  moreover have "?F \<subseteq> dom (strings_of st1) \<union> {0}" "0 \<notin> dom (strings_of st2)"
    using h(3) grown_ok [OF assms(2)] by (auto simp: list_all_iff store_ok_def)
  note strings_after_release [OF h(1,2) this ss(1-4)]
  ultimately show ?thesis
    using sa(2,4) bs(1,2) ss(1,5) unfolding grown_def
    by (intro exI [of _ ?st] conjI exI [of _ bs] exI [of _ "insert tok ss"]) simp_all
qed

lemma body_held:
  assumes A: "malloc_ok A" and st: "store_ok st" and self: "self \<in> so_blocks st" "self \<notin> so_blocks st0" "self \<noteq> 0"
    and st0: "so_blocks st = insert self (so_blocks st0)" "tok \<notin> dom (strings_of st0)"
      "strings_of st = (strings_of st0)(tok \<mapsto> x)"
    and parse: "request_body_mem A header buf self tok st = Some (mem, st1)"
  shows "held mem st0 st1"
proof -
  obtain body sa where body: "calloc A st = Some (body, sa)"
    using parse by (auto simp: request_body_mem_def bind_eq_Some_conv)
  note c = calloc_cases [OF A body]
  have sa: "store_ok sa"
    using st c(3) by simp
  show ?thesis
  proof (cases "\<exists>b. request_parse_body header buf = Inr (Some b)")
    case True
    then obtain srcs ps where ps: "alloc_fields A srcs sa = Some (ps, st1)"
      and mem: "mem = Some \<lparr>rp_self = self, rp_token = tok, rp_body = body, rp_fields = ps\<rparr>"
      using parse body by (auto simp: request_body_mem_def)
    have "store_ok st1" "so_blocks st1 = so_blocks sa" "strings_of st1 |` (- set ps) = strings_of sa"
      "list_all (\<lambda>p. p = 0 \<or> strings_of st1 p \<noteq> None) ps"
      using alloc_fields_cases [OF A sa ps] alloc_fields_live [OF A sa ps] by simp_all
    then show ?thesis
      using c self st0 unfolding mem held_def by auto
  next
    case False
    then have "request_destroy mem st1 = Some st1" "mem = None"
      using parse body by (auto simp: request_body_mem_def bind_eq_Some_conv request_destroy_def
          split: sum.splits option.splits)
    moreover obtain st2 where "request_destroy mem st1 = Some st2" "store_ok st2" "so_blocks st2 = so_blocks st - {self}"
      "strings_of st2 = strings_of st"
      using request_body_balanced [OF A st self(1) parse] by blast
    ultimately show ?thesis
      using grown_one_string [of st1 st0 tok x] st0 self(2) by (simp add: held_def)
  qed
qed

lemma parse_held:
  assumes A: "malloc_ok A" and st: "store_ok st" and parse: "request_parse_mem A buf st = Some (mem, st1)"
  shows "held mem st st1"
proof -
  obtain header self sa tok sb where self: "calloc A st = Some (self, sa)"
    and tok: "alloc_string A (Mem_n (drop 16 buf) TOKEN_LEN) sa = Some (tok, sb)"
    and run: "(if 4 < rq_group header then map_option (\<lambda>st'. (None, st')) (free_block self sb)
      else request_body_mem A header buf self tok sb) = Some (mem, st1)"
    using parse by (auto simp: request_parse_mem_def bind_eq_Some_conv split: sum.splits)
  note c = calloc_cases [OF A self]
  have sa: "store_ok sa"
    using st c(3) by simp
  obtain x where sb: "tok \<notin> dom (strings_of st)" "store_ok sb" "so_blocks sb = insert self (so_blocks st)"
    "strings_of sb = (strings_of st)(tok \<mapsto> x)"
    using alloc_string_cases [OF A sa tok] c(3) by auto
  show ?thesis
  proof (cases "4 < rq_group header")
    case True
    then have "mem = None" "st1 = sb\<lparr>so_blocks := so_blocks st\<rparr>"
      using run sb(3) c(2) by (auto simp: free_block_def)
    then show ?thesis
      using grown_one_string [of st1 st tok x] sb by (simp add: held_def)
  next
    case False
    then show ?thesis
      using body_held [OF A sb(2) _ c(2,1) sb(3,1,4)] run sb(3) by simp
  qed
qed

section \<open>Room for a request\<close>

lemma calloc_room: "calloc A st = Some (p, st1) \<Longrightarrow> room A (w + 1) st \<Longrightarrow> room A w st1"
  by (rule room_later [of A "w + 1" st])
    (use card_insert_diff [of p "in_use st"] in \<open>auto simp: calloc_def Let_def split: if_splits\<close>)

lemma calloc_None: "calloc A st = None \<Longrightarrow> \<not> room A (w + 1) st"
  using room_now [of A "w + 1" st] by (auto simp: calloc_def Let_def split: if_splits)

lemma alloc_fields_room:
  "alloc_fields A srcs st = Some (ps, st1) \<Longrightarrow> room A (w + 2 * length srcs) st \<Longrightarrow> room A w st1"
proof (induction srcs arbitrary: st ps)
  case (Cons src srcs)
  show ?case
  proof (cases src)
    case None
    then show ?thesis
      using Cons.IH [of st] Cons.prems room_mono [of A "w + 2 * length (src # srcs)" st "w + 2 * length srcs"] by auto
  next
    case (Some s)
    then obtain p sa qs where p: "alloc_string A s st = Some (p, sa)" and qs: "alloc_fields A srcs sa = Some (qs, st1)"
      using Cons.prems by (auto simp: bind_eq_Some_conv)
    have "room A (w + 2 * length srcs) sa"
      using alloc_string_room [OF p] Cons.prems(2) by (simp add: add.assoc)
    then show ?thesis
      by (rule Cons.IH [OF qs])
  qed
qed simp

lemma cstrn_drop: "cstrn a k n = Inr x \<Longrightarrow> cstrn (drop k a) 0 n = Inr x"
  by (auto simp: cstrn_def split: if_splits)

lemma request_sources_readable:
  assumes "request_parse_body header buf = Inr (Some b)"
  shows "list_all (\<lambda>s. \<forall>x. s = Some x \<longrightarrow> readable x) (request_sources header (drop REQUEST_HEADER_LEN buf) b)"
    and "length (request_sources header (drop REQUEST_HEADER_LEN buf) b) \<le> 4"
proof -
  show "length (request_sources header (drop REQUEST_HEADER_LEN buf) b) \<le> 4"
    by (cases b) simp_all
  have msg: "drop 12 (drop REQUEST_HEADER_LEN buf) = drop (REQUEST_HEADER_LEN + 12) buf"
    by (simp add: add.commute)
  show "list_all (\<lambda>s. \<forall>x. s = Some x \<longrightarrow> readable x) (request_sources header (drop REQUEST_HEADER_LEN buf) b)"
  proof (cases b)
    case (R_auth ra)
    then show ?thesis by (auto simp: list_all_iff)
  qed (use assms in \<open>auto simp: request_parse_body_def request_parse_auth_def request_parse_user_def request_parse_conv_def
      request_parse_chat_def request_parse_msg_def bindE_eq_Inr_iff Let_def msg
      simp del: drop_drop dest: cstrn_drop split: if_splits prod.splits\<close>)
qed

lemma rejected_sources_Some:
  assumes "request_parse_body header buf = Inr None" and "\<not> 4 < rq_group header"
  shows "\<exists>srcs. rejected_sources header (drop REQUEST_HEADER_LEN buf) = Some srcs \<and>
    list_all (\<lambda>s. \<forall>x. s = Some x \<longrightarrow> readable x) srcs \<and> length srcs \<le> 4"
proof (cases "rq_group header = 0")
  case True
  then have "request_parse_auth header buf REQUEST_HEADER_LEN = Inr None"
    using assms(1) by (simp add: request_parse_body_def)
  then show ?thesis
    using True
    by (auto simp: request_parse_auth_def rejected_sources_def bindE_eq_Inr_iff mem_read_def split: prod.splits if_splits)
next
  case False
  then show ?thesis by (simp add: rejected_sources_def)
qed

lemma parse_None:
  assumes A: "malloc_ok A" and st: "store_ok st" and parse: "request_parse buf = Inr req" "request_parse_mem A buf st = None"
  shows "\<not> room A 12 st"
proof
  assume room: "room A 12 st"
  obtain header rb where header: "request_parse_header buf = Inr header" and rb: "request_parse_body header buf = Inr rb"
    using parse(1) by (auto simp: request_parse_def bindE_eq_Inr_iff)
  obtain self sa where self: "calloc A st = Some (self, sa)"
    using calloc_None [of A st 11] room by fastforce
  note c = calloc_cases [OF A self]
  have sa: "store_ok sa" "room A 11 sa"
    using st c(3) calloc_room [OF self, of 11] room by simp_all
  have "readable (Mem_n (drop 16 buf) TOKEN_LEN)"
    using header by (auto simp: request_parse_header_def bindE_eq_Inr_iff mem_read_def split: if_splits)
  then obtain tok sb where tok: "alloc_string A (Mem_n (drop 16 buf) TOKEN_LEN) sa = Some (tok, sb)"
    using alloc_string_None [of A "Mem_n (drop 16 buf) TOKEN_LEN" sa] room_mono [OF sa(2), of 2] by fastforce
  have sb: "store_ok sb" "so_blocks sb = so_blocks sa" "room A 9 sb"
    using alloc_string_cases [OF A sa(1) tok] alloc_string_room [OF tok, of 9] sa(2) by simp_all
  obtain body sc where body: "calloc A sb = Some (body, sc)"
    using calloc_None [of A sb 8] sb(3) by fastforce
  have sc: "store_ok sc" "room A 8 sc"
    using sb calloc_cases(3) [OF A body] calloc_room [OF body, of 8] by simp_all
  have alloc: "\<exists>ps sd. alloc_fields A srcs sc = Some (ps, sd)"
    if "list_all (\<lambda>s. \<forall>x. s = Some x \<longrightarrow> readable x) srcs" "length srcs \<le> 4" for srcs
    using alloc_fields_None [OF _ that(1), of A sc] room_mono [OF sc(2), of "2 * length srcs"] that(2) by fastforce
  show False
  proof (cases rb)
    case (Some b)
    then show False
      using parse(2) header self tok body rb alloc [OF request_sources_readable [OF rb [unfolded Some]]] c(3) sb(2)
      by (auto simp: request_parse_mem_def request_body_mem_def free_block_def split: if_splits)
  next
    case None
    show False
    proof (cases "4 < rq_group header")
      case True
      then show False
        using parse(2) header self tok c(3) sb(2) by (auto simp: request_parse_mem_def free_block_def)
    next
      case False
      obtain srcs where srcs: "rejected_sources header (drop REQUEST_HEADER_LEN buf) = Some srcs"
        and "list_all (\<lambda>s. \<forall>x. s = Some x \<longrightarrow> readable x) srcs" "length srcs \<le> 4"
        using rejected_sources_Some [of header buf] rb None False by blast
      from alloc [OF this(2,3)] obtain ps sd where ps: "alloc_fields A srcs sc = Some (ps, sd)"
        by blast
      obtain se where "request_body_destroy body ps sd = Some se" "so_blocks se = so_blocks sb"
        using request_body_released [OF A sb(1) body ps] by blast
      then show False
        using parse(2) header self tok body rb None False srcs ps c(3) sb(2)
        by (auto simp: request_parse_mem_def request_body_mem_def free_block_def)
    qed
  qed
qed

lemma parse_room:
  assumes A: "malloc_ok A" and parse: "request_parse buf = Inr (Some r)" "request_parse_mem A buf st = Some (mem, st1)"
    and room: "room A (w + 12) st"
  shows "room A w st1"
proof -
  obtain header b where header: "request_parse_header buf = Inr header"
    and b: "request_parse_body header buf = Inr (Some b)"
    using parse(1) by (auto simp: request_parse_def bindE_eq_Inr_iff)
  then have "\<not> 4 < rq_group header"
    by (auto simp: request_parse_body_def split: if_splits)
  then obtain self sa tok sb body sc ps where self: "calloc A st = Some (self, sa)"
    and tok: "alloc_string A (Mem_n (drop 16 buf) TOKEN_LEN) sa = Some (tok, sb)"
    and body: "calloc A sb = Some (body, sc)"
    and ps: "alloc_fields A (request_sources header (drop REQUEST_HEADER_LEN buf) b) sc = Some (ps, st1)"
    using parse(2) header b by (auto simp: request_parse_mem_def request_body_mem_def bind_eq_Some_conv)
  have "room A (w + 11) sa"
    using calloc_room [OF self, of "w + 11"] room by (simp add: add.commute add.left_commute)
  then have "room A (w + 9) sb"
    using alloc_string_room [OF tok, of "w + 9"] by (simp add: add.commute add.left_commute)
  then have "room A (w + 8) sc"
    using calloc_room [OF body, of "w + 8"] by (simp add: add.commute add.left_commute)
  then have "room A (w + 2 * length (request_sources header (drop REQUEST_HEADER_LEN buf) b)) sc"
    using request_sources_readable(2) [OF b] by (elim room_mono) simp
  then show ?thesis
    by (rule alloc_fields_room [OF ps])
qed

lemma request_room:
  assumes "malloc_ok A" "request_parse buf = Inr req" "request_parse_mem A buf st = Some (mem, st1)"
    and "room A (request_needs E req c + 12) st"
  shows "room A (request_needs E req c) st1"
proof (cases req)
  case None
  then show ?thesis by (simp add: request_needs_def room_def)
next
  case (Some r)
  then show ?thesis
    using parse_room [OF assms(1) _ assms(3,4)] assms(2) by simp
qed

section \<open>Whole requests\<close>

lemma grown_keeps: "grown b n st st' \<Longrightarrow> so_blocks st \<subseteq> so_blocks st' \<and> strings_of st \<subseteq>\<^sub>m strings_of st'"
  unfolding grown_def by (auto simp: map_le_def restrict_map_def fun_eq_iff) (metis option.distinct(1))

lemma outcome_total:
  assumes "outcome A w st k m r s" and "room A w st"
  shows "case r of Inl f \<Rightarrow> m = Inl (Fault f) | Inr s' \<Rightarrow> \<exists>st'. m = Inr (s', st') \<and> grown (fst k) (snd k) st st'"
proof -
  have "mirrors A w st (grown (fst k) (snd k) st) m r"
    using assms room_now [of A w st] by (auto simp: outcome_def)
  then show ?thesis
    using assms(2) by (auto simp: mirrors_def split: sum.splits prod.splits mem_fault.splits)
qed

lemma outcome_safe:
  assumes "outcome A w st k m r s"
  shows "m \<noteq> Inl Bad_Pointer" and "m = Inr (s', st') \<Longrightarrow> \<exists>b n. grown b n st st'"
  using assms by (auto simp: outcome_def mirrors_def)

text \<open>What a request that has arrived needs and leaves behind, with its own memory.\<close>

definition arrived :: "recv_ev list \<Rightarrow> hstate \<Rightarrow> request option option" where
  "arrived evs s =
     (case recv_loop evs 0 (h_buf s) of
        Inr (Some _, b) \<Rightarrow> (case request_parse b of Inr req \<Rightarrow> Some req | Inl _ \<Rightarrow> None)
      | _ \<Rightarrow> None)"

definition req_needs :: "env \<Rightarrow> recv_ev list \<Rightarrow> hstate \<Rightarrow> nat" where
  "req_needs E evs s = (case arrived evs s of None \<Rightarrow> 0 | Some req \<Rightarrow> request_needs E req (h_conn s) + 12)"

definition req_keeps :: "env \<Rightarrow> recv_ev list \<Rightarrow> hstate \<Rightarrow> nat \<times> nat" where
  "req_keeps E evs s =
     (case arrived evs s of None \<Rightarrow> (0, 0) | Some req \<Rightarrow> apsnd Suc (request_keeps E req s))"

lemma request_keeps_buf [simp]: "request_keeps E req (s\<lparr>h_buf := b\<rparr>) = request_keeps E req s"
  by (simp add: request_keeps_def body_keeps_def rows_lost_def convs_kept_def msgs_lost_def Let_def
      split: option.splits request_body.splits)

text \<open>
  C13: Serving a request with its memory is serving it without, as long as there is room for what it needs: a fault or
  the same state comes out, and the store has exactly what \<open>req_keeps\<close> says more than before, which is the
  token of the request, the record of a user or of a message that was asked for in vain, and the record of a
  conversation that was answered with its name.
\<close>

theorem handle_req_memory_exact:
  assumes A: "malloc_ok A" and st: "store_ok st" and room: "room A (req_needs E evs s) st"
  shows "case handle_req E evs s of
      Inl f \<Rightarrow> handle_req_mem A E evs (s, st) = Inl (Fault f)
    | Inr s' \<Rightarrow> \<exists>st'. handle_req_mem A E evs (s, st) = Inr (s', st') \<and>
        grown (fst (req_keeps E evs s)) (snd (req_keeps E evs s)) st st'"
proof (cases "arrived evs s")
  case None
  then show ?thesis
    using st by (auto simp: arrived_def req_keeps_def handle_req_def handle_req_mem_def grown_refl
        split: sum.splits option.splits prod.splits)
next
  case (Some req)
  obtain n b where b: "recv_loop evs 0 (h_buf s) = Inr (Some n, b)" and req: "request_parse b = Inr req"
    using Some by (auto simp: arrived_def split: sum.splits prod.splits option.splits)
  let ?s = "s\<lparr>h_buf := b\<rparr>"
  have room: "room A (request_needs E req (h_conn s) + 12) st"
    using room Some by (simp add: req_needs_def)
  then obtain mem st1 where mem: "request_parse_mem A b st = Some (mem, st1)"
    using parse_None [OF A st req] room_mono [of A _ st 12] by fastforce
  note held = parse_held [OF A st mem]
  have "store_ok st1"
    using held by (simp add: held_def)
  note out = request_outcome [OF A this, of E req ?s]
  have "room A (request_needs E req (h_conn ?s)) st1"
    using request_room [OF A req mem room] by simp
  note total = outcome_total [OF out this]
  show ?thesis
  proof (cases "handle_request E req ?s")
    case (Inl f)
    then show ?thesis
      using total b req mem by (simp add: handle_req_def handle_req_mem_def)
  next
    case (Inr s')
    then obtain st2 where st2: "handle_request_mem A E req (?s, st1) = Inr (s', st2)"
      "grown (fst (request_keeps E req s)) (snd (request_keeps E req s)) st1 st2"
      using total by auto
    obtain st3 where "request_destroy mem st2 = Some st3"
      "grown (fst (request_keeps E req s)) (Suc (snd (request_keeps E req s))) st st3"
      using held_destroyed [OF held st2(2)] by blast
    then show ?thesis
      using Inr st2(1) b req mem Some
      by (simp add: handle_req_def handle_req_mem_def req_keeps_def on_state_def on_store_def)
  qed
qed


section \<open>An example\<close>

lemma first_free_room:
  assumes "distinct ps" "set ps \<inter> in_use st = {}" "0 \<notin> set ps" "w \<le> length ps"
  shows "room (first_free ps) w st"
  unfolding room_def
proof (intro allI impI)
  fix st1
  assume st1: "card (in_use st1 - in_use st) < w"
  show "first_free ps st1 \<noteq> 0"
  proof
    assume "first_free ps st1 = 0"
    then have "filter (\<lambda>p. p \<notin> in_use st1) ps = []"
      using assms(3) by (auto simp: first_free_def split: list.splits dest!: filter_eq_ConsD)
    then have "set ps \<subseteq> in_use st1 - in_use st"
      using assms(2) by (auto simp: filter_empty_conv)
    then have "card (set ps) \<le> card (in_use st1 - in_use st)"
      by (intro card_mono) simp_all
    then show False
      using st1 assms(1,4) distinct_card by fastforce
  qed
qed

lemma arrived_call:
  assumes "length (h_buf s) = BUFSIZ + 1" and "length buf = BUFSIZ" and "length tok = TOKEN_LEN"
    and "call_ok q" and "encode_call (tok, uid, q) buf = Inr b"
  shows "arrived [Recv_data b] s = Some (call_view (tok, uid, q))"
proof -
  have len: "length b = BUFSIZ"
    using encode_call_length [OF assms(5)] assms(2) by simp
  then have "b \<noteq> []" by (auto simp: BUFSIZ_def)
  then have "recv_loop (map Recv_data [b] @ []) (length ([] :: bytes)) ([] @ h_buf s) =
      Inr (Some BUFSIZ, [] @ concat [b] @ drop (length (concat [b])) (h_buf s))"
    using assms(1) len by (intro recv_loop_fill) simp_all
  moreover have "request_parse (b @ drop BUFSIZ (h_buf s)) = Inr (call_view (tok, uid, q))"
    using assms by (intro encode_call_parse) (simp_all add: call_wf_def REQUEST_LEN_def)
  ultimately show ?thesis
    using len by (simp add: arrived_def)
qed

text \<open>A client logs in with a name that the database does not have.\<close>

definition stray_login :: bytes where
  "stray_login = (case encode_call (zeros TOKEN_LEN, 0, Auth_login [97] [98]) (zeros BUFSIZ) of Inr b \<Rightarrow> b | Inl _ \<Rightarrow> [])"

lemma stray_call_ok: "call_ok (Auth_login [97] [98])"
  by (auto simp: auth_field_def is_field_def is_cstr_def BODY_DELIMITER_def request_sizes)

lemma stray_login_made: "encode_call (zeros TOKEN_LEN, 0, Auth_login [97] [98]) (zeros BUFSIZ) = Inr stray_login"
  using rq.enc_total [of "(zeros TOKEN_LEN, 0, Auth_login [97] [98])" "zeros BUFSIZ"] stray_call_ok
  by (auto simp: stray_login_def call_wf_def REQUEST_LEN_def)

lemma unknown_user:
  "user_get_by_uname (e_sql example_env) (Some [97]) (start_conn empty_db) = Inr (None, SQLITE_EMPTY, start_conn empty_db)"
  using user_get_by_uname_quiet [of "start_conn empty_db" "[97]" "e_sql example_env"]
  by (simp add: plain_def QUOTE_def empty_db_def)

lemma stray_served:
  "arrived [Recv_data stray_login] (example_state empty_db) = Some (call_view (zeros TOKEN_LEN, 0, Auth_login [97] [98]))"
  "\<exists>s'. handle_req example_env [Recv_data stray_login] (example_state empty_db) = Inr s'"
proof -
  show "arrived [Recv_data stray_login] (example_state empty_db) = Some (call_view (zeros TOKEN_LEN, 0, Auth_login [97] [98]))"
    by (rule arrived_call [OF _ _ _ stray_call_ok stray_login_made]) simp_all
  let ?s = "(example_state empty_db)\<lparr>h_buf := stray_login @ drop BUFSIZ (h_buf (example_state empty_db))\<rparr>"
  have "length (h_buf ?s) = BUFSIZ + 1"
    using encode_call_length [OF stray_login_made] by simp
  then obtain s' where "response_err 404 0 1 (?s\<lparr>h_conn := start_conn empty_db\<rparr>) = Inr s'"
    using refusal [of "?s\<lparr>h_conn := start_conn empty_db\<rparr>" 404 0 1] by auto
  then have "handle_request example_env (Some \<lparr>rq_header = call_header (zeros TOKEN_LEN) 0 (Auth_login [97] [98]),
      rq_body = call_body (Auth_login [97] [98])\<rparr>) ?s = Inr s'"
    using unknown_user by (simp add: handle_request_def dispatch_body_def handle_auth_login_def sql_def Let_def
        sql_is_err_def sql_is_ok_def SQLITE_EMPTY_def SQLITE_OK_def)
  then show "\<exists>s'. handle_req example_env [Recv_data stray_login] (example_state empty_db) = Inr s'"
    using serve_call [OF _ _ _ stray_call_ok stray_login_made, of "example_state empty_db" example_env] by simp
qed

lemma stray_needs:
  "req_needs example_env [Recv_data stray_login] (example_state empty_db) = 21"
  "req_keeps example_env [Recv_data stray_login] (example_state empty_db) = (1, 1)"
  using unknown_user
  by (simp_all add: req_needs_def req_keeps_def stray_served(1) call_view_def request_needs_def request_keeps_def
      body_needs_def body_keeps_def rows_lost_def Let_def)

definition addresses :: "ptr list" where
  "addresses = map of_nat [1..<22]"

lemma addresses_room: "room (first_free addresses) 21 empty_store"
proof (rule first_free_room)
  show "distinct addresses" "set addresses \<inter> in_use empty_store = {}" "0 \<notin> set addresses" "21 \<le> length addresses"
    by (simp_all add: addresses_def in_use_def empty_store_def empty_pool_def upt_rec)
qed

theorem handle_req_memory_exact_witness:
  "\<exists>s' st'. handle_req_mem (first_free addresses) example_env [Recv_data stray_login] (example_state empty_db, empty_store) =
     Inr (s', st') \<and> grown 1 1 empty_store st'"
  using handle_req_memory_exact [OF first_free_ok empty_store_ok, of addresses example_env "[Recv_data stray_login]"
      "example_state empty_db"] addresses_room stray_served(2)
  by (auto simp: stray_needs)


end
