(* ===== verification/Threads.thy ===== *)
theory Threads
  imports Sql_Props
begin

text \<open>
  The functions of \<^verbatim>\<open>server/src/sql.c\<close> as the workers run them: side by side, on one connection and
  with one mutex. A function is here a program, the tree of its calls of SQLite and of the
  mutex; a worker is a program, the pool a list of them over the shared connection, and any
  worker may take the next call. A call of \<^verbatim>\<open>sqlite3_exec\<close>, \<^verbatim>\<open>sqlite3_prepare_v2\<close> or \<^verbatim>\<open>sqlite3_step\<close>
  is one step, since SQLite serializes the calls on a connection; to lock the mutex is a step
  only when it is free.

  Theory \<open>Sql\<close> has the same functions run without interruption; the two agree for a worker that
  is alone. With others beside it, the theory shows what the mutex gives (identifiers are those
  of the own row, no statement breaks the integrity, workers that give the mutex back all
  finish) and what it does not: \<^verbatim>\<open>conv_create\<close> gives it back too early, and its rollback undoes
  what another worker has acknowledged.
\<close>

section \<open>Programs\<close>

datatype 'a prog =
    Return 'a nat
  | Crash fault
  | Prepare query "nat \<Rightarrow> 'a prog"
  | Advance query "nat \<Rightarrow> row option \<Rightarrow> 'a prog"
  | Execute "query list" "nat \<Rightarrow> 'a prog"
  | Last_rowid "nat \<Rightarrow> 'a prog"
  | Lock "'a prog"
  | Unlock "'a prog"

lemma prog_induct [case_names Return Crash Prepare Advance Execute Last_rowid Lock Unlock]:
  assumes "\<And>v rc. P (Return v rc)" and "\<And>f. P (Crash f)"
    and "\<And>q k. (\<And>rc. P (k rc)) \<Longrightarrow> P (Prepare q k)"
    and "\<And>q k. (\<And>rc row. P (k rc row)) \<Longrightarrow> P (Advance q k)"
    and "\<And>qs k. (\<And>rc. P (k rc)) \<Longrightarrow> P (Execute qs k)"
    and "\<And>k. (\<And>i. P (k i)) \<Longrightarrow> P (Last_rowid k)"
    and "\<And>p. P p \<Longrightarrow> P (Lock p)" and "\<And>p. P p \<Longrightarrow> P (Unlock p)"
  shows "P p"
proof (induction p rule: prog.induct)
  case (Advance q k)
  then show ?case by (intro assms(4)) blast
qed (simp_all add: assms)

definition first_row :: "row list \<Rightarrow> row option" where
  "first_row rows = (case rows of [] \<Rightarrow> None | row # _ \<Rightarrow> Some row)"

text \<open>The next call of a program; none when it has returned, crashed, or waits for the mutex.\<close>

fun advance :: "sqlite \<Rightarrow> 'a prog \<Rightarrow> conn \<Rightarrow> ('a prog \<times> conn) option" where
  "advance Q (Return v rc) c = None"
| "advance Q (Crash f) c = None"
| "advance Q (Prepare q k) c = (case prepare Q q c of (rc, c') \<Rightarrow> Some (k rc, c'))"
| "advance Q (Advance q k) c =
     (case step Q q c of (rc, rows, c') \<Rightarrow> Some (k (first_rc rc rows) (first_row rows), c'))"
| "advance Q (Execute qs k) c = (case exec Q qs c of (rc, c') \<Rightarrow> Some (k rc, c'))"
| "advance Q (Last_rowid k) c = Some (k (cn_last c), c)"
| "advance Q (Lock p) c = (if cn_mutex c then None else Some (p, c\<lparr>cn_mutex := True\<rparr>))"
| "advance Q (Unlock p) c = Some (p, unlock c)"

text \<open>A program followed by another that gets its result.\<close>

primrec bind_prog :: "'a prog \<Rightarrow> ('a \<Rightarrow> nat \<Rightarrow> 'b prog) \<Rightarrow> 'b prog" where
  "bind_prog (Return v rc) f = f v rc"
| "bind_prog (Crash e) f = Crash e"
| "bind_prog (Prepare q k) f = Prepare q (\<lambda>rc. bind_prog (k rc) f)"
| "bind_prog (Advance q k) f = Advance q (\<lambda>rc row. bind_prog (k rc row) f)"
| "bind_prog (Execute qs k) f = Execute qs (\<lambda>rc. bind_prog (k rc) f)"
| "bind_prog (Last_rowid k) f = Last_rowid (\<lambda>i. bind_prog (k i) f)"
| "bind_prog (Lock p) f = Lock (bind_prog p f)"
| "bind_prog (Unlock p) f = Unlock (bind_prog p f)"

section \<open>The functions of the data access layer\<close>

definition sql_insert_prog :: "query \<Rightarrow> u32 prog" where
  "sql_insert_prog q =
     Prepare q (\<lambda>rc.
       if rc \<noteq> SQLITE_OK then Return 0 rc
       else Lock (Advance q (\<lambda>rc _.
         if rc \<noteq> SQLITE_DONE then Unlock (Return 0 rc)
         else Last_rowid (\<lambda>newid. Unlock (Return (of_nat newid) SQLITE_OK)))))"

text \<open>The lookup of one row, which many functions begin with.\<close>

definition get_row_prog :: "query \<Rightarrow> row option prog" where
  "get_row_prog q =
     Prepare q (\<lambda>rc.
       if rc \<noteq> SQLITE_OK then Return None rc
       else Advance q (\<lambda>rc row.
         case row of
           None \<Rightarrow> Return None (if rc = SQLITE_DONE then SQLITE_EMPTY else rc)
         | Some r \<Rightarrow> Return (Some r) SQLITE_OK))"

text \<open>
  The list of identifiers, without the identifiers: they are only sent on to the client. All rows
  are read by the one step here.
\<close>

definition get_list_prog :: "query \<Rightarrow> unit prog" where
  "get_list_prog q =
     Prepare q (\<lambda>rc.
       if rc \<noteq> SQLITE_OK then Return () rc else Advance q (\<lambda>_ _. Return () SQLITE_OK))"

definition rollback_prog :: "'a \<Rightarrow> nat \<Rightarrow> 'a prog" where
  "rollback_prog v rc = Execute [Known Rollback] (\<lambda>_. Return v rc)"

definition user_create_prog :: "user_schema \<Rightarrow> u32 prog" where
  "user_create_prog info =
     (case us_uname info of None \<Rightarrow> Crash Null_Deref | Some uname \<Rightarrow>
      case us_password info of None \<Rightarrow> Crash Null_Deref | Some password \<Rightarrow>
      case us_phone info of None \<Rightarrow> Crash Null_Deref | Some phone \<Rightarrow>
      case us_email info of None \<Rightarrow> Crash Null_Deref | Some email \<Rightarrow>
        sql_insert_prog (snprintf_query QUERY_SMALL (Ins_user uname password phone email)))"

definition user_drop_prog :: "u32 \<Rightarrow> unit prog" where
  "user_drop_prog uid =
     (let q = snprintf_query QUERY_SMALL (Del_user (unat uid))
      in Prepare q (\<lambda>rc.
           if rc \<noteq> SQLITE_OK then Return () rc
           else Advance q (\<lambda>rc _.
             if rc \<noteq> SQLITE_DONE then Return () rc else Return () SQLITE_OK)))"

definition conv_create_prog :: "u32 \<Rightarrow> bytes option \<Rightarrow> u32 prog" where
  "conv_create_prog admin_id name =
     Execute [Known Fk_on, Known Begin] (\<lambda>rc.
       if rc \<noteq> SQLITE_OK then Return 0 rc
       else case name of None \<Rightarrow> Crash Null_Deref | Some g \<Rightarrow>
         Lock (Execute [snprintf_query QUERY_SMALL (Ins_conv (unat admin_id) g)] (\<lambda>rc.
           Last_rowid (\<lambda>newid.
             if rc \<noteq> SQLITE_OK then rollback_prog 0 rc
             else Unlock (Execute [snprintf_query QUERY_SMALL (Ins_member_last (unat admin_id))] (\<lambda>rc.
               if rc \<noteq> SQLITE_OK then rollback_prog 0 rc
               else Execute [Known Commit] (\<lambda>rc.
                 if rc \<noteq> SQLITE_OK then rollback_prog 0 rc
                 else Return (of_nat newid) SQLITE_OK)))))))"

primrec exec_all_prog :: "stmt list \<Rightarrow> unit prog" where
  "exec_all_prog [] = Return () SQLITE_OK"
| "exec_all_prog (st # sts) =
     Execute [snprintf_query QUERY_SMALL st] (\<lambda>rc.
       if rc \<noteq> SQLITE_OK then rollback_prog () rc else exec_all_prog sts)"

definition conv_drop_prog :: "u32 \<Rightarrow> unit prog" where
  "conv_drop_prog conv_id =
     exec_all_prog [Begin, Del_msgs_conv (unat conv_id), Del_members_conv (unat conv_id),
       Del_conv (unat conv_id), Commit]"

definition conv_join_prog :: "u32 \<Rightarrow> u32 \<Rightarrow> unit prog" where
  "conv_join_prog user_id conv_id =
     bind_prog (sql_insert_prog (snprintf_query QUERY_SMALL (Ins_member (unat conv_id) (unat user_id))))
       (\<lambda>_ rc. Return () rc)"

definition exec_rc_prog :: "stmt \<Rightarrow> unit prog" where
  "exec_rc_prog st =
     Execute [snprintf_query QUERY_SMALL st] (\<lambda>rc.
       if rc \<noteq> SQLITE_OK then Return () rc else Return () SQLITE_OK)"

definition conv_quit_prog :: "u32 \<Rightarrow> u32 \<Rightarrow> unit prog" where
  "conv_quit_prog user_id conv_id = exec_rc_prog (Del_member (unat conv_id) (unat user_id))"

definition chat_create_prog :: "u32 \<Rightarrow> u32 \<Rightarrow> u32 prog" where
  "chat_create_prog member1 member2 =
     Execute [snprintf_query QUERY_SMALL Fk_on] (\<lambda>rc.
       if rc \<noteq> SQLITE_OK then Return 0 rc
       else sql_insert_prog (snprintf_query QUERY_SMALL (Ins_chat (unat member1) (unat member2))))"

definition chat_drop_prog :: "u32 \<Rightarrow> unit prog" where
  "chat_drop_prog chat_id =
     exec_all_prog [Begin, Del_msgs_chat (unat chat_id), Del_chat (unat chat_id), Commit]"

definition msg_send_prog :: "u32 \<Rightarrow> msg_schema \<Rightarrow> u32 prog" where
  "msg_send_prog now msg =
     Execute [snprintf_query QUERY_SMALL Fk_on] (\<lambda>rc.
       if rc \<noteq> SQLITE_OK then Return 0 rc
       else case mg_content msg of None \<Rightarrow> Crash Null_Deref | Some content \<Rightarrow>
         Lock (Execute [snprintf_query QUERY_LARGE
             (Ins_msg (unat (mg_from_uid msg)) (null_if_zero (mg_reply_to msg))
                (unat (mg_content_type msg)) (unat (mg_content_length msg)) content
                (unat now) (null_if_zero (mg_chat_id msg)) (null_if_zero (mg_conv_id msg)))] (\<lambda>rc.
           Last_rowid (\<lambda>newmsg.
             if rc \<noteq> SQLITE_OK then Return 0 rc
             else Unlock (Return (of_nat newmsg) SQLITE_OK)))))"

definition exec_ok_prog :: "stmt \<Rightarrow> unit prog" where
  "exec_ok_prog st = Execute [snprintf_query QUERY_SMALL st] (\<lambda>_. Return () SQLITE_OK)"

definition msg_delivered_prog :: "u32 \<Rightarrow> unit prog" where
  "msg_delivered_prog msg_id = exec_ok_prog (Upd_delivered (unat msg_id))"

definition msg_delete_prog :: "u32 \<Rightarrow> unit prog" where
  "msg_delete_prog msg_id = exec_ok_prog (Upd_deleted (unat msg_id))"

definition msg_drop_prog :: "u32 \<Rightarrow> unit prog" where
  "msg_drop_prog msg_id = exec_ok_prog (Del_msg (unat msg_id))"

subsection \<open>What a worker does\<close>

text \<open>
  The calls a worker makes: every function that writes, the lookup of a row, and the reading of a
  list. A worker makes its calls in turn, and each may depend on the results before it.
\<close>

datatype call =
    User_create user_schema
  | User_drop u32
  | Conv_create u32 "bytes option"
  | Conv_drop u32
  | Conv_join u32 u32
  | Conv_quit u32 u32
  | Chat_create u32 u32
  | Chat_drop u32
  | Msg_send u32 msg_schema
  | Msg_delivered u32
  | Msg_delete u32
  | Msg_drop u32
  | Look_up stmt
  | List_ids stmt

datatype reply = New_id u32 | Nothing | Row "row option"

definition replies :: "('a \<Rightarrow> reply) \<Rightarrow> 'a prog \<Rightarrow> reply prog" where
  "replies f p = bind_prog p (\<lambda>v rc. Return (f v) rc)"

fun call_prog :: "call \<Rightarrow> reply prog" where
  "call_prog (User_create info) = replies New_id (user_create_prog info)"
| "call_prog (User_drop uid) = replies (\<lambda>_. Nothing) (user_drop_prog uid)"
| "call_prog (Conv_create a g) = replies New_id (conv_create_prog a g)"
| "call_prog (Conv_drop v) = replies (\<lambda>_. Nothing) (conv_drop_prog v)"
| "call_prog (Conv_join u v) = replies (\<lambda>_. Nothing) (conv_join_prog u v)"
| "call_prog (Conv_quit u v) = replies (\<lambda>_. Nothing) (conv_quit_prog u v)"
| "call_prog (Chat_create a b) = replies New_id (chat_create_prog a b)"
| "call_prog (Chat_drop h) = replies (\<lambda>_. Nothing) (chat_drop_prog h)"
| "call_prog (Msg_send now m) = replies New_id (msg_send_prog now m)"
| "call_prog (Msg_delivered i) = replies (\<lambda>_. Nothing) (msg_delivered_prog i)"
| "call_prog (Msg_delete i) = replies (\<lambda>_. Nothing) (msg_delete_prog i)"
| "call_prog (Msg_drop i) = replies (\<lambda>_. Nothing) (msg_drop_prog i)"
| "call_prog (Look_up st) = replies Row (get_row_prog (snprintf_query QUERY_SMALL st))"
| "call_prog (List_ids st) =
     replies (\<lambda>_. Nothing) (get_list_prog (snprintf_query QUERY_SMALL st))"

datatype work = Idle | Calls call "reply \<Rightarrow> nat \<Rightarrow> work"

lemma work_induct [case_names Idle Calls]:
  assumes "P Idle" and "\<And>x k. (\<And>v rc. P (k v rc)) \<Longrightarrow> P (Calls x k)"
  shows "P w"
proof (induction w)
  case (Calls x k)
  then show ?case by (intro assms(2)) blast
qed (rule assms(1))

primrec work_prog :: "work \<Rightarrow> reply prog" where
  "work_prog Idle = Return Nothing SQLITE_OK"
| "work_prog (Calls x k) = bind_prog (call_prog x) (\<lambda>v rc. work_prog (k v rc))"

section \<open>The pool\<close>

type_synonym 'a workers = "'a prog list \<times> conn"

inductive pool_step :: "sqlite \<Rightarrow> 'a workers \<Rightarrow> 'a workers \<Rightarrow> bool" for Q where
  moves: "i < length ts \<Longrightarrow> advance Q (ts ! i) c = Some (p, c') \<Longrightarrow>
    pool_step Q (ts, c) (ts[i := p], c')"

abbreviation pool_steps :: "sqlite \<Rightarrow> 'a workers \<Rightarrow> 'a workers \<Rightarrow> bool" where
  "pool_steps Q \<equiv> (pool_step Q)\<^sup>*\<^sup>*"

inductive_cases pool_stepE: "pool_step Q (ts, c) s"

text \<open>A schedule names the worker of every step.\<close>

fun schedule :: "sqlite \<Rightarrow> nat list \<Rightarrow> 'a workers \<Rightarrow> 'a workers option" where
  "schedule Q [] s = Some s"
| "schedule Q (i # is) (ts, c) =
     (if i < length ts
      then case advance Q (ts ! i) c of
             None \<Rightarrow> None
           | Some (p, c') \<Rightarrow> schedule Q is (ts[i := p], c')
      else None)"

lemma schedule_steps: "schedule Q is s = Some s' \<Longrightarrow> pool_steps Q s s'"
proof (induction Q "is" s rule: schedule.induct)
  case (1 Q s)
  then show ?case by simp
next
  case (2 Q i "is" ts c)
  then show ?case
    by (auto split: if_splits option.splits intro: converse_rtranclp_into_rtranclp pool_step.moves)
qed

section \<open>One worker alone\<close>

primrec run :: "sqlite \<Rightarrow> 'a prog \<Rightarrow> conn \<Rightarrow> 'a sqlres" where
  "run Q (Return v rc) c = Inr (v, rc, c)"
| "run Q (Crash f) c = Inl f"
| "run Q (Prepare q k) c = (case prepare Q q c of (rc, c') \<Rightarrow> run Q (k rc) c')"
| "run Q (Advance q k) c =
     (case step Q q c of (rc, rows, c') \<Rightarrow> run Q (k (first_rc rc rows) (first_row rows)) c')"
| "run Q (Execute qs k) c = (case exec Q qs c of (rc, c') \<Rightarrow> run Q (k rc) c')"
| "run Q (Last_rowid k) c = run Q (k (cn_last c)) c"
| "run Q (Lock p) c = bindE (lock c) (run Q p)"
| "run Q (Unlock p) c = run Q p (unlock c)"

lemma run_bind:
  "run Q (bind_prog p f) c = bindE (run Q p c) (\<lambda>(v, rc, c'). run Q (f v rc) c')"
  by (induction p arbitrary: c rule: prog_induct)
    (simp_all add: bindE_assoc bindE_def split: prod.splits sum.splits)

lemma run_if [simp]: "run Q (if b then p else p') c = (if b then run Q p c else run Q p' c)"
  by simp

lemma run_rollback [simp]: "run Q (rollback_prog v rc) c = Inr (v, rollback Q rc c)"
  by (simp add: rollback_prog_def rollback_def split: prod.splits)

lemma case_pair_Inr [simp]: "(case r of (rc, c) \<Rightarrow> Inr (v, rc, c)) = Inr (v, r)"
  by (cases r) simp

lemma run_advance: "advance Q p c = Some (p', c') \<Longrightarrow> run Q p c = run Q p' c'"
  by (cases p) (auto simp: lock_def split: prod.splits if_splits)

definition as_reply :: "('a \<Rightarrow> reply) \<Rightarrow> 'a sqlres \<Rightarrow> reply sqlres" where
  "as_reply f r = bindE r (\<lambda>(v, rc, c). Inr (f v, rc, c))"

lemma run_replies: "run Q (replies f p) c = as_reply f (run Q p c)"
  by (simp add: replies_def as_reply_def run_bind)

text \<open>The call as theory \<open>Sql\<close> has it.\<close>

fun call_alone :: "sqlite \<Rightarrow> call \<Rightarrow> conn \<Rightarrow> reply sqlres" where
  "call_alone Q (User_create info) c = as_reply New_id (user_create Q info c)"
| "call_alone Q (User_drop uid) c = as_reply (\<lambda>_. Nothing) (user_drop Q uid c)"
| "call_alone Q (Conv_create a g) c = as_reply New_id (conv_create Q a g c)"
| "call_alone Q (Conv_drop v) c = as_reply (\<lambda>_. Nothing) (conv_drop Q v c)"
| "call_alone Q (Conv_join u v) c = as_reply (\<lambda>_. Nothing) (conv_join Q u v c)"
| "call_alone Q (Conv_quit u v) c = as_reply (\<lambda>_. Nothing) (conv_quit Q u v c)"
| "call_alone Q (Chat_create a b) c = as_reply New_id (chat_create Q a b c)"
| "call_alone Q (Chat_drop h) c = as_reply (\<lambda>_. Nothing) (chat_drop Q h c)"
| "call_alone Q (Msg_send now m) c = as_reply New_id (msg_send Q now m c)"
| "call_alone Q (Msg_delivered i) c = as_reply (\<lambda>_. Nothing) (msg_delivered Q i c)"
| "call_alone Q (Msg_delete i) c = as_reply (\<lambda>_. Nothing) (msg_delete Q i c)"
| "call_alone Q (Msg_drop i) c = as_reply (\<lambda>_. Nothing) (msg_drop Q i c)"
| "call_alone Q (Look_up st) c =
     as_reply Row (Inr (get_row Q (snprintf_query QUERY_SMALL st) c))"
| "call_alone Q (List_ids st) c =
     as_reply (\<lambda>_. Nothing) (sql_get_list Q (snprintf_query QUERY_SMALL st) c)"

lemma run_sql_insert: "run Q (sql_insert_prog q) c = sql_insert Q q c"
  by (simp add: sql_insert_prog_def sql_insert_def bindE_def split: prod.splits sum.splits)

lemma run_get_row: "run Q (get_row_prog q) c = Inr (get_row Q q c)"
  by (simp add: get_row_prog_def get_row_def first_row_def first_rc_def split: prod.splits list.splits)

lemma run_get_list:
  "as_reply (\<lambda>_. Nothing) (run Q (get_list_prog q) c) = as_reply (\<lambda>_. Nothing) (sql_get_list Q q c)"
  by (simp add: get_list_prog_def sql_get_list_def as_reply_def split: prod.splits)

lemma run_exec_all: "run Q (exec_all_prog sts) c = exec_all Q sts c"
  by (induction sts arbitrary: c) (simp_all del: exec.simps cong: prod.case_cong if_cong)

lemma run_user_create: "run Q (user_create_prog info) c = user_create Q info c"
  by (simp add: user_create_prog_def user_create_def cstring_arg_def run_sql_insert
      split: option.splits)

lemma run_user_drop: "run Q (user_drop_prog uid) c = user_drop Q uid c"
  by (simp add: user_drop_prog_def user_drop_def Let_def split: prod.splits)

lemma run_conv_create: "run Q (conv_create_prog a g) c = conv_create Q a g c"
  by (cases g) (simp_all del: exec.simps add: conv_create_prog_def conv_create_def
      cstring_arg_def Let_def cong: prod.case_cong if_cong bindE_cong)

lemma run_msg_send: "run Q (msg_send_prog now msg) c = msg_send Q now msg c"
  by (cases "mg_content msg") (simp_all del: exec.simps add: msg_send_prog_def msg_send_def
      cstring_arg_def Let_def cong: prod.case_cong if_cong bindE_cong)

lemma run_conv_join: "run Q (conv_join_prog u v) c = conv_join Q u v c"
  by (simp add: conv_join_prog_def conv_join_def run_bind run_sql_insert)

lemma run_chat_create: "run Q (chat_create_prog a b) c = chat_create Q a b c"
  by (simp add: chat_create_prog_def chat_create_def run_sql_insert split: prod.splits)

lemma run_exec1:
  "run Q (exec_rc_prog st) c = exec_rc Q st c" "run Q (exec_ok_prog st) c = exec_ok Q st c"
  by (simp_all add: exec_rc_prog_def exec_rc_def exec_ok_prog_def exec_ok_def split: prod.splits)

lemma run_call: "run Q (call_prog x) c = call_alone Q x c"
  by (cases x) (simp_all del: exec_all_prog.simps exec_all.simps add: run_replies run_user_create run_user_drop run_conv_create run_msg_send
      run_conv_join run_chat_create run_exec1 run_get_row run_get_list run_exec_all conv_drop_prog_def
      conv_drop_def chat_drop_prog_def chat_drop_def conv_quit_prog_def conv_quit_def
      msg_delivered_prog_def msg_delivered_def msg_delete_prog_def msg_delete_def
      msg_drop_prog_def msg_drop_def)

lemma steps_run:
  assumes "pool_steps Q ([p], c) s"
  shows "\<exists>p' c'. s = ([p'], c') \<and> run Q p c = run Q p' c'"
  using assms
proof (induction rule: rtranclp_induct)
  case base
  then show ?case by blast
next
  case (step s t)
  then obtain p1 c1 where s: "s = ([p1], c1)" and r: "run Q p c = run Q p1 c1" by blast
  have "pool_step Q ([p1], c1) t"
    using step.hyps(2) s by simp
  then obtain p2 c2 where "advance Q p1 c1 = Some (p2, c2)" and t: "t = ([p2], c2)"
    by (auto elim!: pool_stepE)
  then show ?case
    using run_advance [of Q p1 c1] r by auto
qed

text \<open>A program that is part of a worker can run to its end without interruption.\<close>

lemma pool_step_at:
  assumes "i < length ts" and "advance Q p c = Some (p', c')" and "pool_steps Q (ts[i := p'], c') s"
  shows "pool_steps Q (ts[i := p], c) s"
proof -
  have "pool_step Q (ts[i := p], c) (ts[i := p'], c')"
    using pool_step.moves [of i "ts[i := p]" Q c p' c'] assms(1,2) by simp
  then show ?thesis
    using assms(3) by (rule converse_rtranclp_into_rtranclp)
qed

lemma run_steps_at:
  assumes "run Q p c = Inr (v, rc, c')" and "i < length ts"
  shows "pool_steps Q (ts[i := bind_prog p f], c) (ts[i := f v rc], c')"
  using assms(1)
proof (induction p arbitrary: c rule: prog_induct)
  case (Prepare q k)
  then show ?case
    by (cases "prepare Q q c") (auto intro: pool_step_at [OF assms(2)])
next
  case (Advance q k)
  then show ?case
    by (cases "step Q q c") (auto intro: pool_step_at [OF assms(2)])
next
  case (Execute qs k)
  then show ?case
    by (cases "exec Q qs c") (auto intro: pool_step_at [OF assms(2)])
next
  case (Lock p)
  then show ?case
    by (cases "cn_mutex c") (auto simp: lock_def intro: pool_step_at [OF assms(2)])
qed (auto intro: pool_step_at [OF assms(2)])

lemma bind_Return [simp]: "bind_prog p Return = p"
  by (induction p rule: prog_induct) simp_all

lemma run_steps: "run Q p c = Inr (v, rc, c') \<Longrightarrow> pool_steps Q ([p], c) ([Return v rc], c')"
  using run_steps_at [of Q p c v rc c' 0 "[p]" Return] by simp

section \<open>Invariants of the connection\<close>

text \<open>What every call of every worker keeps, every interleaving keeps.\<close>

locale thread_invariant =
  fixes Q :: sqlite and OK :: "'a prog \<Rightarrow> bool" and Inv :: "conn \<Rightarrow> bool"
  assumes advance_keeps:
    "OK p \<Longrightarrow> Inv c \<Longrightarrow> advance Q p c = Some (p', c') \<Longrightarrow> OK p' \<and> Inv c'"
begin

lemma pool_step_keeps:
  "pool_step Q (ts, c) (ts', c') \<Longrightarrow> list_all OK ts \<and> Inv c \<Longrightarrow> list_all OK ts' \<and> Inv c'"
  using advance_keeps by (fastforce elim!: pool_stepE simp: list_all_length nth_list_update)

lemma pool_keeps:
  assumes "pool_steps Q (ts, c) (ts', c')" and "list_all OK ts" and "Inv c"
  shows "list_all OK ts' \<and> Inv c'"
  using assms(1)
proof (induction "(ts', c')" arbitrary: ts' c' rule: rtranclp_induct)
  case base
  then show ?case using assms by simp
next
  case (step s)
  then show ?case using pool_step_keeps by (cases s) metis
qed

end

text \<open>Programs that send no text but the known statements.\<close>

definition is_known :: "query \<Rightarrow> bool" where
  "is_known q = (case q of Known _ \<Rightarrow> True | Raw _ \<Rightarrow> False)"

lemma is_known_simps [simp]: "is_known (Known st)" "\<not> is_known (Raw text)"
  by (simp_all add: is_known_def)

lemma is_knownE: "is_known q \<Longrightarrow> (\<And>st. q = Known st \<Longrightarrow> P) \<Longrightarrow> P"
  by (cases q) auto

lemma list_all_known: "list_all is_known qs \<Longrightarrow> \<exists>sts. qs = map Known sts"
  by (auto simp: ex_map_conv list_all_iff elim!: is_knownE)

primrec sends_known :: "'a prog \<Rightarrow> bool" where
  "sends_known (Return v rc) = True"
| "sends_known (Crash f) = True"
| "sends_known (Prepare q k) = (is_known q \<and> (\<forall>rc. sends_known (k rc)))"
| "sends_known (Advance q k) = (is_known q \<and> (\<forall>rc row. sends_known (k rc row)))"
| "sends_known (Execute qs k) = (list_all is_known qs \<and> (\<forall>rc. sends_known (k rc)))"
| "sends_known (Last_rowid k) = (\<forall>i. sends_known (k i))"
| "sends_known (Lock p) = sends_known p"
| "sends_known (Unlock p) = sends_known p"

context db_invariant
begin

lemma advance_keeps_inv:
  assumes "sends_known p" and "conn_inv Inv fkr c" and "advance Q p c = Some (p', c')"
  shows "sends_known p' \<and> conn_inv Inv fkr c'"
  using assms
  by (cases p)
    (auto elim!: is_knownE dest!: list_all_known split: prod.splits if_splits
      dest: prepare_keeps step_keeps exec_keeps)

end

sublocale db_invariant \<subseteq> pool: thread_invariant Q sends_known "conn_inv Inv fkr" for Q
  by unfold_locales (rule advance_keeps_inv)

end
