(* ===== verification/Mutex.thy ===== *)
theory Mutex
  imports Threads
begin

text \<open>
  What the mutex of \<^verbatim>\<open>server/src/sql.c\<close> gives the pool of theory \<open>Threads\<close>. A discipline is a condition
  on programs that follows who holds the mutex; the locale \<open>mutex_discipline\<close> shows once that a pool of
  disciplined programs has at most one owner and keeps to the discipline, and is interpreted for
  programs that give the mutex back, that insert only under it, and that unlock only what they
  locked. From these: runs end and no pool is stuck, and an insertion gets its own identifier.
\<close>

section \<open>The mutex\<close>

text \<open>
  A discipline says what a program may do while it holds the mutex and while it does not. The
  owner of the mutex is the worker that locked it and did not unlock it since; each worker
  follows the discipline for what it holds, through every interleaving.
\<close>

definition holds_after :: "bool \<Rightarrow> 'a prog \<Rightarrow> bool" where
  "holds_after h p = (case p of Lock _ \<Rightarrow> True | Unlock _ \<Rightarrow> False | _ \<Rightarrow> h)"

definition owner_after :: "nat option \<Rightarrow> nat \<Rightarrow> 'a prog \<Rightarrow> nat option" where
  "owner_after ow i p = (case p of Lock _ \<Rightarrow> Some i | Unlock _ \<Rightarrow> None | _ \<Rightarrow> ow)"

lemma run_stmt_mutex: "run_stmt Q st c = (rc, rows, c') \<Longrightarrow> cn_mutex c' = cn_mutex c"
  by (cases st) (auto simp: run_stmt_def split: if_splits option.splits sum.splits prod.splits)

lemma next_ev_frame:
  "next_ev c = (e, c') \<Longrightarrow> cn_mutex c' = cn_mutex c \<and> cn_last c' = cn_last c"
  by (auto simp: next_ev_def split: list.splits)

lemma give_up_frame [simp]:
  "cn_mutex (give_up e c) = cn_mutex c" "cn_last (give_up e c) = cn_last c"
  by (simp_all add: give_up_def split: option.splits)

lemma step_mutex: "step Q (Known st) c = (rc, rows, c') \<Longrightarrow> cn_mutex c' = cn_mutex c"
  by (auto simp: step_def run_query_def split: prod.splits option.splits
      dest!: next_ev_frame run_stmt_mutex)

lemma prepare_frame:
  "prepare Q q c = (rc, c') \<Longrightarrow> cn_mutex c' = cn_mutex c \<and> cn_last c' = cn_last c"
  by (auto simp: prepare_def split: prod.splits option.splits dest!: next_ev_frame)

lemma exec_mutex:
  "list_all is_known qs \<Longrightarrow> exec Q qs c = (rc, c') \<Longrightarrow> cn_mutex c' = cn_mutex c"
  by (induction qs arbitrary: c)
    (auto elim!: is_knownE split: prod.splits if_splits dest: step_mutex)

lemma advance_mutex:
  assumes "sends_known p" and "advance Q p c = Some (p', c')"
  shows "cn_mutex c' = holds_after (cn_mutex c) p"
  using assms
  by (cases p) (auto simp: holds_after_def unlock_def elim!: is_knownE split: prod.splits if_splits
      dest: prepare_frame step_mutex exec_mutex)

lemma locks_when_free: "advance Q (Lock p) c = Some (p', c') \<Longrightarrow> \<not> cn_mutex c"
  by (simp split: if_splits)

locale mutex_discipline =
  fixes D :: "bool \<Rightarrow> 'a prog \<Rightarrow> bool"
  assumes follows: "D h p \<Longrightarrow> advance Q p c = Some (p', c') \<Longrightarrow> D (holds_after h p) p'"
    and unlocks_own: "D h (Unlock p) \<Longrightarrow> h"
    and known: "D h p \<Longrightarrow> sends_known p"
begin

definition disciplined :: "nat option \<Rightarrow> 'a workers \<Rightarrow> bool" where
  "disciplined ow s \<longleftrightarrow>
     (\<forall>i<length (fst s). D (ow = Some i) (fst s ! i)) \<and> (cn_mutex (snd s) \<longleftrightarrow> ow \<noteq> None)"

lemma disciplinedD:
  assumes "disciplined ow (ts, c)"
  shows "i < length ts \<Longrightarrow> D (ow = Some i) (ts ! i)" and "cn_mutex c \<longleftrightarrow> ow \<noteq> None"
  using assms by (simp_all add: disciplined_def)

lemma owner_other:
  assumes "disciplined ow (ts, c)" and "j < length ts" and "advance Q (ts ! j) c = Some (p, c')"
    and "i \<noteq> j"
  shows "(owner_after ow j (ts ! j) = Some i) = (ow = Some i)"
proof (cases "ts ! j")
  case (Lock p')
  then have "\<not> cn_mutex c"
    using assms(3) locks_when_free by metis
  then show ?thesis
    using Lock disciplinedD [OF assms(1)] assms(4) by (simp add: owner_after_def)
next
  case (Unlock p')
  then have "ow = Some j"
    using disciplinedD(1) [OF assms(1,2)] unlocks_own by metis
  then show ?thesis
    using Unlock assms(4) by (simp add: owner_after_def)
qed (simp_all add: owner_after_def)

lemma disciplined_step:
  assumes "disciplined ow (ts, c)" and "j < length ts" and "advance Q (ts ! j) c = Some (p, c')"
  shows "disciplined (owner_after ow j (ts ! j)) (ts[j := p], c')"
proof -
  have own: "D (ow = Some j) (ts ! j)"
    using disciplinedD(1) [OF assms(1,2)] .
  have "holds_after (ow = Some j) (ts ! j) = (owner_after ow j (ts ! j) = Some j)"
    by (simp add: holds_after_def owner_after_def split: prog.splits)
  then have "D (owner_after ow j (ts ! j) = Some j) p"
    using follows [OF own assms(3)] by simp
  moreover have "D (owner_after ow j (ts ! j) = Some i) (ts ! i)" if "i < length ts" "i \<noteq> j" for i
    using owner_other [OF assms that(2)] disciplinedD(1) [OF assms(1) that(1)] by simp
  moreover have "cn_mutex c' \<longleftrightarrow> owner_after ow j (ts ! j) \<noteq> None"
    using advance_mutex [OF known [OF own] assms(3)] disciplinedD(2) [OF assms(1)]
    by (simp add: holds_after_def owner_after_def split: prog.splits)
  ultimately show ?thesis
    using assms(2) by (simp add: disciplined_def nth_list_update)
qed

lemma disciplined_start:
  "list_all (D False) ts \<Longrightarrow> \<not> cn_mutex c \<Longrightarrow> disciplined None (ts, c)"
  by (simp add: disciplined_def list_all_length)

text \<open>A mutex that nobody in the pool owns stays locked.\<close>

lemma disciplined_abandoned:
  "list_all (D False) ts \<Longrightarrow> cn_mutex c \<Longrightarrow> disciplined (Some (length ts)) (ts, c)"
  by (simp add: disciplined_def list_all_length)

end

subsection \<open>Programs that give the mutex back\<close>

primrec gives_back :: "bool \<Rightarrow> 'a prog \<Rightarrow> bool" where
  "gives_back h (Return v rc) = (\<not> h)"
| "gives_back h (Crash f) = False"
| "gives_back h (Prepare q k) = (is_known q \<and> (\<forall>rc. gives_back h (k rc)))"
| "gives_back h (Advance q k) = (is_known q \<and> (\<forall>rc row. gives_back h (k rc row)))"
| "gives_back h (Execute qs k) = (list_all is_known qs \<and> (\<forall>rc. gives_back h (k rc)))"
| "gives_back h (Last_rowid k) = (\<forall>i. gives_back h (k i))"
| "gives_back h (Lock p) = (\<not> h \<and> gives_back True p)"
| "gives_back h (Unlock p) = (h \<and> gives_back False p)"

lemma gives_back_known: "gives_back h p \<Longrightarrow> sends_known p"
  by (induction p arbitrary: h rule: prog_induct) (simp_all, blast+)

interpretation gb: mutex_discipline gives_back
proof unfold_locales
  fix h p Q c p' c'
  show "gives_back h p \<Longrightarrow> advance Q p c = Some (p', c') \<Longrightarrow> gives_back (holds_after h p) p'"
    by (cases p) (auto simp: holds_after_def split: prod.splits if_splits)
qed (auto intro: gives_back_known)

lemma gives_back_bind:
  "gives_back h p \<Longrightarrow> (\<And>v rc. gives_back False (f v rc)) \<Longrightarrow> gives_back h (bind_prog p f)"
  by (induction p arbitrary: h rule: prog_induct) auto

subsection \<open>Programs that insert under the mutex only\<close>

fun is_insert :: "stmt \<Rightarrow> bool" where
  "is_insert (Ins_user _ _ _ _) = True"
| "is_insert (Ins_conv _ _) = True"
| "is_insert (Ins_member_last _) = True"
| "is_insert (Ins_member _ _) = True"
| "is_insert (Ins_chat _ _) = True"
| "is_insert (Ins_msg _ _ _ _ _ _ _ _) = True"
| "is_insert _ = False"

definition allowed :: "bool \<Rightarrow> query \<Rightarrow> bool" where
  "allowed h q = (case q of Known st \<Rightarrow> is_insert st \<longrightarrow> h | Raw _ \<Rightarrow> False)"

text \<open>A program that unlocks only what it locked, with a rule on what it sends meanwhile.\<close>

primrec owns :: "(bool \<Rightarrow> query \<Rightarrow> bool) \<Rightarrow> bool \<Rightarrow> 'a prog \<Rightarrow> bool" where
  "owns A h (Return v rc) = True"
| "owns A h (Crash f) = True"
| "owns A h (Prepare q k) = (is_known q \<and> (\<forall>rc. owns A h (k rc)))"
| "owns A h (Advance q k) = (A h q \<and> (\<forall>rc row. owns A h (k rc row)))"
| "owns A h (Execute qs k) = (list_all (A h) qs \<and> (\<forall>rc. owns A h (k rc)))"
| "owns A h (Last_rowid k) = (\<forall>i. owns A h (k i))"
| "owns A h (Lock p) = owns A True p"
| "owns A h (Unlock p) = (h \<and> owns A False p)"

abbreviation inserts_locked :: "bool \<Rightarrow> 'a prog \<Rightarrow> bool" where
  "inserts_locked \<equiv> owns allowed"

abbreviation unlocks_own :: "bool \<Rightarrow> 'a prog \<Rightarrow> bool" where
  "unlocks_own \<equiv> owns (\<lambda>_. is_known)"

lemma allowed_known: "allowed h q \<Longrightarrow> is_known q"
  by (cases q) (simp_all add: allowed_def)

lemma owns_known:
  "owns A h p \<Longrightarrow> (\<And>h q. A h q \<Longrightarrow> is_known q) \<Longrightarrow> sends_known p"
  by (induction p arbitrary: h rule: prog_induct) (simp_all add: list_all_iff, blast+)

lemma owns_follows: "owns A h p \<Longrightarrow> advance Q p c = Some (p', c') \<Longrightarrow> owns A (holds_after h p) p'"
  by (cases p) (auto simp: holds_after_def split: prod.splits if_splits)

interpretation ex: mutex_discipline inserts_locked
  by unfold_locales (auto intro: owns_follows owns_known [OF _ allowed_known])

interpretation un: mutex_discipline unlocks_own
  by unfold_locales (auto intro: owns_follows owns_known)

lemma owns_bind:
  "owns A h p \<Longrightarrow> (\<And>h v rc. owns A h (f v rc)) \<Longrightarrow> owns A h (bind_prog p f)"
  by (induction p arbitrary: h rule: prog_induct) auto

subsection \<open>The calls\<close>

text \<open>A call whose strings are there and give the statement that is meant.\<close>

fun call_ok :: "call \<Rightarrow> bool" where
  "call_ok (User_create info) =
     (case (us_uname info, us_password info, us_phone info, us_email info) of
        (Some u, Some p, Some ph, Some e) \<Rightarrow> is_known (snprintf_query QUERY_SMALL (Ins_user u p ph e))
      | _ \<Rightarrow> False)"
| "call_ok (Conv_create a name) =
     (case name of
        Some g \<Rightarrow> is_known (snprintf_query QUERY_SMALL (Ins_conv (unat a) g))
      | None \<Rightarrow> False)"
| "call_ok (Msg_send now msg) =
     (case mg_content msg of
        Some content \<Rightarrow> is_known (snprintf_query QUERY_LARGE
          (Ins_msg (unat (mg_from_uid msg)) (null_if_zero (mg_reply_to msg))
             (unat (mg_content_type msg)) (unat (mg_content_length msg)) content
             (unat now) (null_if_zero (mg_chat_id msg)) (null_if_zero (mg_conv_id msg))))
      | None \<Rightarrow> False)"
| "call_ok (Look_up st) = (is_select st \<and> is_known (snprintf_query QUERY_SMALL st))"
| "call_ok (List_ids st) =
     ((is_select st \<or> st = Empty_stmt) \<and> is_known (snprintf_query QUERY_SMALL st))"
| "call_ok _ = True"

text \<open>\<^verbatim>\<open>conv_create\<close> and \<^verbatim>\<open>msg_send\<close> may return with the mutex; \<^verbatim>\<open>conv_create\<close> inserts without it.\<close>

fun releases_mutex :: "call \<Rightarrow> bool" where
  "releases_mutex (Conv_create _ _) = False"
| "releases_mutex (Msg_send _ _) = False"
| "releases_mutex _ = True"

fun guards_inserts :: "call \<Rightarrow> bool" where
  "guards_inserts (Conv_create _ _) = False"
| "guards_inserts _ = True"

primrec work_all :: "(call \<Rightarrow> bool) \<Rightarrow> work \<Rightarrow> bool" where
  "work_all P Idle = True"
| "work_all P (Calls x k) = (P x \<and> (\<forall>v rc. work_all P (k v rc)))"

lemma is_known_snprintf:
  "is_known (snprintf_query cap st) \<Longrightarrow> snprintf_query cap st = Known st"
  by (simp add: snprintf_query_def split: if_splits)

lemmas prog_defs = sql_insert_prog_def get_row_prog_def get_list_prog_def rollback_prog_def user_create_prog_def
  user_drop_prog_def conv_create_prog_def conv_drop_prog_def conv_join_prog_def exec_rc_prog_def
  conv_quit_prog_def chat_create_prog_def chat_drop_prog_def msg_send_prog_def exec_ok_prog_def
  msg_delivered_prog_def msg_delete_prog_def msg_drop_prog_def replies_def Let_def

lemma sends_known_bind:
  "sends_known p \<Longrightarrow> (\<And>v rc. sends_known (f v rc)) \<Longrightarrow> sends_known (bind_prog p f)"
  by (induction p rule: prog_induct) auto

lemma call_known: "call_ok x \<Longrightarrow> sends_known (call_prog x)"
  by (cases x) (auto simp: prog_defs numeric_queries split: option.splits)

lemma call_gives_back: "call_ok x \<Longrightarrow> releases_mutex x \<Longrightarrow> gives_back False (call_prog x)"
  by (cases x) (auto simp: prog_defs numeric_queries split: option.splits)

lemma select_no_insert: "is_select st \<Longrightarrow> \<not> is_insert st"
  by (cases st) simp_all

lemma call_inserts_locked:
  "call_ok x \<Longrightarrow> guards_inserts x \<Longrightarrow> inserts_locked h (call_prog x)"
  by (cases x; cases h)
    (auto simp: prog_defs numeric_queries allowed_def dest!: is_known_snprintf select_no_insert
      split: option.splits)

lemma call_unlocks_own: "call_ok x \<Longrightarrow> unlocks_own h (call_prog x)"
  by (cases x) (auto simp: prog_defs numeric_queries split: option.splits)

lemma work_unlocks_own: "work_all call_ok w \<Longrightarrow> unlocks_own h (work_prog w)"
  by (induction w arbitrary: h rule: work_induct) (auto intro!: owns_bind call_unlocks_own)

lemma work_known: "work_all call_ok w \<Longrightarrow> sends_known (work_prog w)"
  by (induction w rule: work_induct) (auto intro!: sends_known_bind call_known)

lemma work_gives_back:
  "work_all (\<lambda>x. call_ok x \<and> releases_mutex x) w \<Longrightarrow> gives_back False (work_prog w)"
  by (induction w rule: work_induct) (auto intro!: gives_back_bind call_gives_back)

lemma work_inserts_locked:
  "work_all (\<lambda>x. call_ok x \<and> guards_inserts x) w \<Longrightarrow> inserts_locked h (work_prog w)"
  by (induction w arbitrary: h rule: work_induct) (auto intro!: owns_bind call_inserts_locked)

section \<open>Every run ends\<close>

definition later :: "('a prog \<times> 'a prog) set" where
  "later = {(p', p). \<exists>Q c c'. advance Q p c = Some (p', c')}"

lemma later_simps:
  "(p', Return v rc) \<notin> later" "(p', Crash f) \<notin> later"
  "(p', Prepare q k) \<in> later \<Longrightarrow> \<exists>rc. p' = k rc"
  "(p', Advance q k2) \<in> later \<Longrightarrow> \<exists>rc row. p' = k2 rc row"
  "(p', Execute qs k) \<in> later \<Longrightarrow> \<exists>rc. p' = k rc"
  "(p', Last_rowid k) \<in> later \<Longrightarrow> \<exists>i. p' = k i"
  "(p', Lock p) \<in> later \<Longrightarrow> p' = p" "(p', Unlock p) \<in> later \<Longrightarrow> p' = p"
  by (auto simp: later_def case_prod_unfold split: if_splits)

lemma wf_later: "wf later"
proof -
  have "p \<in> Wellfounded.acc later" for p :: "'a prog"
    by (induction p rule: prog_induct) (rule accI, auto dest!: later_simps(3-8) simp: later_simps(1,2))+
  then show ?thesis by (simp add: acc_wfI)
qed

lemma pool_step_later: "pool_step Q (ts, c) (ts', c') \<Longrightarrow> (ts', ts) \<in> listrel1 later"
proof (erule pool_stepE, clarify)
  fix i p
  assume i: "i < length ts" and a: "advance Q (ts ! i) c = Some (p, c')"
  have "(p, ts ! i) \<in> later"
    using a unfolding later_def by blast
  then show "(ts[i := p], ts) \<in> listrel1 later"
    using i by (auto simp: listrel1_iff_update intro!: exI [of _ "ts ! i"] exI [of _ i])
qed

lemma wf_pool_step: "wf {(s', s). pool_step Q s s'}"
proof (rule wf_subset)
  show "wf (inv_image (listrel1 later) fst)"
    by (intro wf_inv_image) (simp add: wf_listrel1_iff wf_later)
  show "{(s', s). pool_step Q s s'} \<subseteq> inv_image (listrel1 later) fst"
    using pool_step_later by auto
qed

fun returned :: "'a prog \<Rightarrow> bool" where
  "returned (Return v rc) = True"
| "returned _ = False"

lemma blocked: "advance Q p c = None \<Longrightarrow> returned p \<or> (\<exists>f. p = Crash f) \<or> (\<exists>p'. p = Lock p') \<and> cn_mutex c"
  by (cases p) (auto split: prod.splits if_splits)

text \<open>A pool that follows the discipline is not stuck before all of its workers have returned.\<close>

lemma not_stuck:
  assumes "gb.disciplined ow (ts, c)" and "\<And>i. ow = Some i \<Longrightarrow> i < length ts"
    and "\<nexists>s. pool_step Q (ts, c) s"
  shows "list_all returned ts"
proof -
  have none: "advance Q (ts ! i) c = None" if "i < length ts" for i
  proof (cases "advance Q (ts ! i) c")
    case (Some r)
    then show ?thesis
      using assms(3) pool_step.moves [OF that] by (cases r) blast
  qed
  have D: "gives_back (ow = Some i) (ts ! i)" if "i < length ts" for i
    using gb.disciplinedD(1) [OF assms(1) that] .
  have "ow = None"
  proof (cases ow)
    case (Some i)
    then show ?thesis
      using D [of i] blocked [OF none [of i]] assms(2) by (cases "ts ! i") auto
  qed
  then have "\<not> cn_mutex c"
    using gb.disciplinedD(2) [OF assms(1)] by simp
  then have "returned (ts ! i)" if "i < length ts" for i
    using blocked [OF none [OF that]] D [OF that] by auto
  then show ?thesis
    by (simp add: list_all_length)
qed

lemma owner_in_pool:
  assumes "pool_steps Q (ts, c) (ts', c')" and "list_all (gives_back False) ts" and "\<not> cn_mutex c"
  shows "\<exists>ow. gb.disciplined ow (ts', c') \<and> (\<forall>i. ow = Some i \<longrightarrow> i < length ts')"
  using assms(1)
proof (induction "(ts', c')" arbitrary: ts' c' rule: rtranclp_induct)
  case base
  then show ?case using gb.disciplined_start [OF assms(2,3)] by blast
next
  case (step s)
  obtain us d where s: "s = (us, d)" by fastforce
  then obtain ow where ow: "gb.disciplined ow (us, d)" "\<forall>i. ow = Some i \<longrightarrow> i < length us"
    using step.hyps(3) by blast
  obtain i p where i: "i < length us" "advance Q (us ! i) d = Some (p, c')" "ts' = us[i := p]"
    using step.hyps(2) s by (auto elim: pool_stepE)
  have "\<forall>j. owner_after ow i (us ! i) = Some j \<longrightarrow> j < length us"
    using ow(2) i(1) by (auto simp: owner_after_def split: prog.splits)
  then show ?case
    using gb.disciplined_step [OF ow(1) i(1,2)] i(3) by auto
qed

text \<open>A run goes on while any worker can take a step.\<close>

definition is_run :: "sqlite \<Rightarrow> (nat \<Rightarrow> 'a workers) \<Rightarrow> bool" where
  "is_run Q f \<longleftrightarrow>
     (\<forall>n. pool_step Q (f n) (f (Suc n)) \<or> (\<nexists>s. pool_step Q (f n) s) \<and> f (Suc n) = f n)"

lemma run_reaches: "is_run Q f \<Longrightarrow> pool_steps Q (f 0) (f n)"
proof (induction n)
  case (Suc n)
  then show ?case
    unfolding is_run_def by (metis rtranclp.rtrancl_into_rtrancl)
qed simp

lemma run_stops:
  assumes "is_run Q f"
  shows "\<exists>n. \<nexists>s. pool_step Q (f n) s"
proof (rule ccontr)
  assume "\<not> ?thesis"
  then have "\<forall>n. (f (Suc n), f n) \<in> {(s', s). pool_step Q s s'}"
    using assms by (auto simp: is_run_def)
  then show False
    using wf_pool_step [of Q] by (auto simp: wf_iff_no_infinite_down_chain)
qed

lemma run_exists:
  fixes s :: "'a workers"
  shows "\<exists>f. f 0 = s \<and> is_run Q f"
proof -
  have "\<forall>s :: 'a workers. \<exists>t. pool_step Q s t \<or> (\<nexists>u. pool_step Q s u) \<and> t = s"
    by blast
  then obtain g where "\<forall>s :: 'a workers. pool_step Q s (g s) \<or> (\<nexists>u. pool_step Q s u) \<and> g s = s"
    using choice by metis
  then have "is_run Q (\<lambda>n. (g ^^ n) s)"
    by (simp add: is_run_def del: split_paired_All split_paired_Ex)
  then show ?thesis by (intro exI [of _ "\<lambda>n. (g ^^ n) s"]) simp
qed

section \<open>Identifiers\<close>

lemma run_stmt_last:
  "run_stmt Q st c = (rc, rows, c') \<Longrightarrow> \<not> is_insert st \<Longrightarrow> cn_last c' = cn_last c"
  by (cases st) (auto simp: run_stmt_def split: if_splits option.splits sum.splits prod.splits)

lemma step_last:
  "step Q (Known st) c = (rc, rows, c') \<Longrightarrow> \<not> is_insert st \<Longrightarrow> cn_last c' = cn_last c"
  by (auto simp: step_def run_query_def split: prod.splits option.splits
      dest!: next_ev_frame run_stmt_last)

lemma allowedE: "allowed False q \<Longrightarrow> (\<And>st. q = Known st \<Longrightarrow> \<not> is_insert st \<Longrightarrow> P) \<Longrightarrow> P"
  by (cases q) (auto simp: allowed_def)

lemma exec_last:
  "list_all (allowed False) qs \<Longrightarrow> exec Q qs c = (rc, c') \<Longrightarrow> cn_last c' = cn_last c"
  by (induction qs arbitrary: c)
    (auto elim!: allowedE split: prod.splits if_splits dest: step_last)

lemma advance_last:
  assumes "inserts_locked False p" and "advance Q p c = Some (p', c')"
  shows "cn_last c' = cn_last c"
  using assms
  by (cases p) (auto simp: unlock_def elim!: allowedE split: prod.splits if_splits
      dest: prepare_frame step_last exec_last)

text \<open>The successful insertion of a row by a single step of a run, and what the step gave.\<close>

definition inserted :: "sqlite \<Rightarrow> stmt \<Rightarrow> 'a workers \<Rightarrow> 'a workers \<Rightarrow> nat \<Rightarrow> bool" where
  "inserted Q st s s' n \<longleftrightarrow>
     (\<exists>ts1 c1 ts2 c2. pool_steps Q s (ts1, c1) \<and> pool_step Q (ts1, c1) (ts2, c2) \<and>
        pool_steps Q (ts2, c2) s' \<and>
        dml (cn_fk c1) (cn_last c1) st (cn_db c1) = Inr (cn_db c2, n))"

lemma inserted_later: "inserted Q st s s' n \<Longrightarrow> pool_step Q s' s'' \<Longrightarrow> inserted Q st s s'' n"
  unfolding inserted_def by (meson rtranclp.rtrancl_into_rtrancl)

lemma insert_dml: "is_insert st \<Longrightarrow> is_dml st"
  by (cases st) simp_all

lemma inserted_user:
  assumes "inserted Q (Ins_user u p ph e) s s' n"
  shows "\<exists>ts1 c1 ts2 c2. pool_steps Q s (ts1, c1) \<and> pool_step Q (ts1, c1) (ts2, c2) \<and>
    pool_steps Q (ts2, c2) s' \<and> db_users (cn_db c2) = db_users (cn_db c1) @
      [\<lparr>u_id = n, u_uname = u, u_password = p, u_phone = ph, u_email = e\<rparr>]"
proof -
  obtain ts1 c1 ts2 c2 where steps: "pool_steps Q s (ts1, c1)" "pool_step Q (ts1, c1) (ts2, c2)"
      "pool_steps Q (ts2, c2) s'" and ins: "insert_user u p ph e (cn_db c1) = Inr (cn_db c2, n)"
    using assms by (auto simp: inserted_def)
  from ins have "cn_db c2 = (cn_db c1)\<lparr>db_users := db_users (cn_db c1) @
      [\<lparr>u_id = n, u_uname = u, u_password = p, u_phone = ph, u_email = e\<rparr>]\<rparr>"
    by (auto simp: insert_user_def Let_def split: if_splits)
  then show ?thesis using steps by fastforce
qed

lemma step_insert:
  assumes "step Q (Known st) c = (rc, rows, c')" and "is_insert st"
  shows "first_rc rc rows \<noteq> SQLITE_OK"
    and "first_rc rc rows = SQLITE_DONE \<Longrightarrow>
      dml (cn_fk c) (cn_last c) st (cn_db c) = Inr (cn_db c', cn_last c')"
proof -
  have run: "run_stmt Q st c1 = (case dml (cn_fk c1) (cn_last c1) st (cn_db c1) of
       Inl e \<Rightarrow> (e, [], c1)
     | Inr (d, i) \<Rightarrow> (SQLITE_DONE, [], c1\<lparr>cn_db := d, cn_last := i\<rparr>))" for c1
    using run_dml insert_dml assms(2) by blast
  have frame: "next_ev c = (e, c1) \<Longrightarrow> \<exists>es. c1 = c\<lparr>cn_script := es\<rparr>" for e c1
    by (auto simp: next_ev_def split: list.splits intro: exI [of _ "cn_script c"])
  have err: "next_ev c = (Some e, c1) \<Longrightarrow> sql_is_err (ev_rc e)" for e c1
    by (auto simp: next_ev_def split: list.splits if_splits)
  have codes: "rc1 \<noteq> SQLITE_OK \<and> rc1 \<noteq> SQLITE_DONE" if "sql_is_err rc1" for rc1
    using that by (auto simp: sql_is_err_def sql_is_ok_def)
  show "first_rc rc rows \<noteq> SQLITE_OK"
    using assms(1)
    by (auto simp: step_def run_query_def run first_rc_def dest!: err codes dml_error
        split: prod.splits option.splits sum.splits)
  show "dml (cn_fk c) (cn_last c) st (cn_db c) = Inr (cn_db c', cn_last c')"
    if "first_rc rc rows = SQLITE_DONE"
    using assms(1) that frame codes err
    by (auto simp: step_def run_query_def run first_rc_def rc_defs dest!: dml_error
        split: prod.splits option.splits sum.splits if_splits)
qed

text \<open>The stages of a worker that inserts a row, and what is known at each.\<close>

definition row_prog :: "stmt \<Rightarrow> reply prog" where
  "row_prog st = Advance (Known st) (\<lambda>rc _. replies New_id
     (if rc \<noteq> SQLITE_DONE then Unlock (Return 0 rc)
      else Last_rowid (\<lambda>newid. Unlock (Return (of_nat newid) SQLITE_OK))))"

inductive insert_stage :: "(nat \<Rightarrow> bool) \<Rightarrow> stmt \<Rightarrow> bool \<Rightarrow> nat \<Rightarrow> reply prog \<Rightarrow> bool" for R st where
  start: "insert_stage R st own l (replies New_id (sql_insert_prog (Known st)))"
| waits: "insert_stage R st own l (Lock (row_prog st))"
| locked: "insert_stage R st True l (row_prog st)"
| fetches: "R n \<Longrightarrow> insert_stage R st True n
    (Last_rowid (\<lambda>newid. Unlock (Return (New_id (of_nat newid)) SQLITE_OK)))"
| unlocks: "R n \<Longrightarrow> insert_stage R st own l (Unlock (Return (New_id (of_nat n)) SQLITE_OK))"
| finished: "R n \<Longrightarrow> insert_stage R st own l (Return (New_id (of_nat n)) SQLITE_OK)"
| fails: "rc \<noteq> SQLITE_OK \<Longrightarrow> insert_stage R st own l (Unlock (Return (New_id 0) rc))"
| failed: "rc \<noteq> SQLITE_OK \<Longrightarrow> insert_stage R st own l (Return (New_id 0) rc)"

lemma stage_finished:
  assumes "insert_stage R st own l (Return (New_id v) SQLITE_OK)"
  shows "\<exists>n. R n \<and> v = of_nat n"
  using assms by (cases rule: insert_stage.cases) (auto simp: row_prog_def prog_defs)

lemma stage_mono:
  assumes "insert_stage R st own l p" and "\<And>n. R n \<Longrightarrow> R' n" and "own \<Longrightarrow> l' = l"
  shows "insert_stage R' st own l' p"
  using assms by (induction rule: insert_stage.induct) (auto intro: insert_stage.intros)

lemma stage_step:
  assumes "insert_stage R st own (cn_last c) p" and "is_insert st"
    and "advance Q p c = Some (p', c')"
  shows "insert_stage (\<lambda>n. R n \<or> dml (cn_fk c) (cn_last c) st (cn_db c) = Inr (cn_db c', n)) st
    (holds_after own p) (cn_last c') p'"
  using assms(1,3)
proof (cases rule: insert_stage.cases)
  case start
  then show ?thesis
    using assms(3)
    by (auto simp: sql_insert_prog_def replies_def holds_after_def row_prog_def [symmetric, unfolded replies_def]
        split: prod.splits intro: insert_stage.intros)
next
  case locked
  obtain rc rows c1 where st: "step Q (Known st) c = (rc, rows, c1)"
    by (metis prod_cases3)
  then show ?thesis
    using assms(3) locked step_insert [OF st assms(2)]
    by (auto simp: row_prog_def replies_def holds_after_def intro: insert_stage.intros)
qed (auto simp: holds_after_def unlock_def split: if_splits intro: insert_stage.intros)

lemma insert_staged:
  assumes "pool_steps Q (ts, c) s" and "list_all (inserts_locked False) ts" and "\<not> cn_mutex c"
    and "i < length ts" and "ts ! i = replies New_id (sql_insert_prog (Known st))" and "is_insert st"
  shows "\<exists>ow. ex.disciplined ow s \<and> i < length (fst s) \<and>
    insert_stage (inserted Q st (ts, c) s) st (ow = Some i) (cn_last (snd s)) (fst s ! i)"
  using assms(1)
proof (induction rule: rtranclp_induct)
  case base
  then show ?case
    using ex.disciplined_start [OF assms(2,3)] assms(4,5) by (auto intro: insert_stage.start)
next
  case (step s s')
  obtain us d where s: "s = (us, d)" by fastforce
  with step.IH obtain ow where ow: "ex.disciplined ow (us, d)" and i: "i < length us"
    and stage: "insert_stage (inserted Q st (ts, c) s) st (ow = Some i) (cn_last d) (us ! i)"
    by auto
  obtain j p d' where j: "j < length us" "advance Q (us ! j) d = Some (p, d')" "s' = (us[j := p], d')"
    using step.hyps(2) s by (auto elim: pool_stepE)
  let ?ow = "owner_after ow j (us ! j)"
  have "insert_stage (inserted Q st (ts, c) s') st (?ow = Some i) (cn_last d') (us[j := p] ! i)"
  proof (cases "j = i")
    case True
    have "inserted Q st (ts, c) s' n"
      if "inserted Q st (ts, c) s n \<or> dml (cn_fk d) (cn_last d) st (cn_db d) = Inr (cn_db d', n)" for n
      using that step.hyps s j(3) inserted_later [OF _ step.hyps(2)] unfolding inserted_def by blast
    moreover have "holds_after (ow = Some i) (us ! i) = (?ow = Some i)"
      using True by (simp add: holds_after_def owner_after_def split: prog.splits)
    ultimately show ?thesis
      using stage_mono [OF stage_step [OF stage assms(6)]] j True by auto
  next
    case False
    have "cn_last d' = cn_last d" if "ow = Some i"
      using advance_last [OF _ j(2)] ex.disciplinedD(1) [OF ow j(1)] that False by simp
    then show ?thesis
      using stage_mono [OF stage inserted_later [OF _ step.hyps(2)]] False
        ex.owner_other [OF ow j(1,2)] by auto
  qed
  then show ?case
    using ex.disciplined_step [OF ow j(1,2)] i j(3) by auto
qed

end
