(* ===== verification/Races.thy ===== *)
theory Races
  imports Mutex
begin

text \<open>
  The properties of workers that run the functions of \<^verbatim>\<open>server/src/sql.c\<close> side by side: what holds under
  every interleaving of their calls, and two interleavings in which \<^verbatim>\<open>conv_create\<close>, which gives the mutex
  back too early, spoils what another worker has done.
\<close>

section \<open>Properties\<close>

text \<open>
  A worker that is alone does what the function of theory \<open>Sql\<close> says: it can get from a call to
  a result and a state of the connection exactly when the uninterrupted function returns
  that result and that state.
\<close>

lemma lone_worker_refines_call:
  "pool_steps Q ([call_prog x], c) ([Return v rc], c') \<longleftrightarrow> call_alone Q x c = Inr (v, rc, c')"
proof
  assume "pool_steps Q ([call_prog x], c) ([Return v rc], c')"
  from steps_run [OF this] show "call_alone Q x c = Inr (v, rc, c')"
    by (auto simp: run_call)
next
  assume "call_alone Q x c = Inr (v, rc, c')"
  then show "pool_steps Q ([call_prog x], c) ([Return v rc], c')"
    by (intro run_steps) (simp add: run_call)
qed

text \<open>What every statement keeps, every interleaving of known statements keeps.\<close>

lemma pool_keeps_integrity:
  assumes "list_all sends_known ps" and "cn_fk c" and "cn_tx c = None" and "db_keys (cn_db c)" and "db_refs (cn_db c)"
    and "pool_steps Q (ps, c) (ts, c')"
  shows "db_keys (cn_db c') \<and> db_refs (cn_db c')"
proof -
  have "conn_inv db_keys False c" "conn_inv db_refs True c"
    using assms by (simp_all add: conn_inv_def)
  then have "conn_inv db_keys False c'" "conn_inv db_refs True c'"
    using ks.pool.pool_keeps [OF assms(6,1)] rf.pool.pool_keeps [OF assms(6,1)] by blast+
  then show ?thesis
    by (simp add: conn_inv_def)
qed

lemmas snprintf_small = snprintf_query_def QUERY_SMALL_def dec.simps

text \<open>
  C4: When inserts are made under the mutex only, a registration returns the identifier of its
  own row, whatever the other workers do meanwhile: at some step of the run the row of this user,
  with the identifier that is returned, went into the table.
\<close>

theorem registration_returns_own_id:
  assumes "list_all (work_all (\<lambda>x. call_ok x \<and> guards_inserts x)) ws"
    and "is_known (snprintf_query QUERY_SMALL (Ins_user u p ph e))" and "\<not> cn_mutex c"
    and "pool_steps Q
      (call_prog (User_create \<lparr>us_id = 0, us_uname = Some u, us_password = Some p, us_phone = Some ph,
         us_email = Some e\<rparr>) # map work_prog ws, c) (Return (New_id v) SQLITE_OK # ts, c')"
  shows "\<exists>ts1 c1 ts2 c2 n. pool_steps Q
      (call_prog (User_create \<lparr>us_id = 0, us_uname = Some u, us_password = Some p, us_phone = Some ph,
         us_email = Some e\<rparr>) # map work_prog ws, c) (ts1, c1) \<and>
    pool_step Q (ts1, c1) (ts2, c2) \<and>
    pool_steps Q (ts2, c2) (Return (New_id v) SQLITE_OK # ts, c') \<and> v = of_nat n \<and>
    db_users (cn_db c2) = db_users (cn_db c1) @
      [\<lparr>u_id = n, u_uname = u, u_password = p, u_phone = ph, u_email = e\<rparr>]"
proof -
  let ?x = "User_create \<lparr>us_id = 0, us_uname = Some u, us_password = Some p, us_phone = Some ph,
    us_email = Some e\<rparr>"
  let ?ts = "call_prog ?x # map work_prog ws" and ?s = "(Return (New_id v) SQLITE_OK # ts, c')"
  have "inserts_locked False (call_prog ?x)"
    using assms(2) by (intro call_inserts_locked) simp_all
  then have "list_all (inserts_locked False) ?ts"
    using assms(1) by (auto simp: list_all_iff intro: work_inserts_locked)
  moreover have "?ts ! 0 = replies New_id (sql_insert_prog (Known (Ins_user u p ph e)))"
    using is_known_snprintf [OF assms(2)] by (simp add: user_create_prog_def)
  ultimately obtain ow where "insert_stage (inserted Q (Ins_user u p ph e) (?ts, c) ?s)
      (Ins_user u p ph e) ow (cn_last c') (Return (New_id v) SQLITE_OK)"
    using insert_staged [OF assms(4) _ assms(3), where i = 0 and st = "Ins_user u p ph e"] by auto
  then obtain n where "inserted Q (Ins_user u p ph e) (?ts, c) ?s n" "v = of_nat n"
    using stage_finished by blast
  then show ?thesis
    using inserted_user by metis
qed

text \<open>A registration and the opening of a chat side by side.\<close>

abbreviation newcomer :: user_schema where
  "newcomer \<equiv> \<lparr>us_id = 0, us_uname = Some [99], us_password = Some [], us_phone = Some [],
     us_email = Some []\<rparr>"

definition chat_job :: work where
  "chat_job = Calls (Chat_create 1 2) (\<lambda>_ _. Idle)"

lemma chat_job_ok: "work_all (\<lambda>x. call_ok x \<and> guards_inserts x) chat_job"
  by (simp add: chat_job_def)

lemma side_by_side:
  "\<exists>ts c'. schedule example_engine [0, 1, 1, 1, 1, 1, 1, 0, 0, 0, 0]
     ([call_prog (User_create newcomer), work_prog chat_job], start_conn two_users) =
     Some (Return (New_id 3) SQLITE_OK # ts, c')"
  by (simp add: chat_job_def prog_defs snprintf_small sql_simps run_dml start_conn_def quiet_def
      two_users_def empty_db_def insert_user_def insert_chat_def user_exists_def new_id_def unlock_def
      first_rc_def plain_def QUOTE_def run_stmt_def)

theorem registration_returns_own_id_witness:
  "\<exists>ts c' ts2 c2 n. pool_steps example_engine (ts2, c2) (Return (New_id 3) SQLITE_OK # ts, c') \<and>
    3 = (of_nat n :: u32) \<and> last (db_users (cn_db c2)) =
      \<lparr>u_id = n, u_uname = [99], u_password = [], u_phone = [], u_email = []\<rparr>"
proof -
  obtain ts c' where run: "pool_steps example_engine
      (call_prog (User_create newcomer) # map work_prog [chat_job], start_conn two_users)
      (Return (New_id 3) SQLITE_OK # ts, c')"
    using side_by_side schedule_steps by fastforce
  have ws: "list_all (work_all (\<lambda>x. call_ok x \<and> guards_inserts x)) [chat_job]"
    using chat_job_ok by simp
  have "is_known (snprintf_query QUERY_SMALL (Ins_user [99] [] [] []))"
    by (simp add: snprintf_small plain_def QUOTE_def)
  from registration_returns_own_id [OF ws this _ run] show ?thesis
    by (fastforce simp: last_snoc)
qed


text \<open>
  C5: Workers that make only calls that give the mutex back all finish: in every run of the
  pool, for every scheduling, with errors of the engine anywhere, there is a point where every
  worker has returned.
\<close>

theorem workers_finish:
  assumes "list_all (work_all (\<lambda>x. call_ok x \<and> releases_mutex x)) ws" and "\<not> cn_mutex c"
    and "is_run Q f" and "f 0 = (map work_prog ws, c)"
  shows "\<exists>n. list_all returned (fst (f n))"
proof -
  obtain n where stuck: "\<nexists>s. pool_step Q (f n) s"
    using run_stops [OF assms(3)] by blast
  obtain ts c' where fn: "f n = (ts, c')" by fastforce
  have "list_all (gives_back False) (map work_prog ws)"
    using assms(1) by (auto simp: list_all_iff intro: work_gives_back)
  then obtain ow where "gb.disciplined ow (ts, c')" "\<forall>i. ow = Some i \<longrightarrow> i < length ts"
    using owner_in_pool [OF _ _ assms(2)] run_reaches [OF assms(3), of n] assms(4) fn by metis
  then have "list_all returned ts"
    using not_stuck stuck fn by metis
  then show ?thesis
    using fn by (intro exI [of _ n]) simp
qed

theorem workers_finish_witness:
  "\<exists>f n. f 0 = (map work_prog [Calls (User_create newcomer) (\<lambda>_ _. chat_job), chat_job],
      start_conn two_users) \<and> is_run example_engine f \<and> list_all returned (fst (f n))"
proof -
  let ?ws = "[Calls (User_create newcomer) (\<lambda>_ _. chat_job), chat_job]"
  obtain f where f: "f 0 = (map work_prog ?ws, start_conn two_users)" "is_run example_engine f"
    using run_exists by metis
  have "list_all (work_all (\<lambda>x. call_ok x \<and> releases_mutex x)) ?ws"
    by (simp add: chat_job_def snprintf_small plain_def QUOTE_def)
  then obtain n where "list_all returned (fst (f n))"
    using workers_finish [OF _ _ f(2,1)] by auto
  then show ?thesis using f by blast
qed


subsection \<open>Where the mutex does not help\<close>

text \<open>
  The schedule of the race: the first worker stops where \<^verbatim>\<open>conv_create\<close> has given the mutex back,
  the second runs to its end, and the first goes on.
\<close>

definition race :: "nat list" where
  "race = [0, 0, 0, 0, 0, 1, 1, 1, 1, 1, 0, 0]"

lemmas race_simps = race_def prog_defs numeric_queries sql_simps run_stmt_def insert_conv_def
  insert_user_def insert_member_def conv_exists_def unlock_def first_rc_def user_exists_def

text \<open>
  C36: A registration that was acknowledged can be undone by another worker. \<^verbatim>\<open>conv_create\<close> gives the
  mutex back before it makes the founder a member of \<^verbatim>\<open>last_insert_rowid()\<close>; when a user is
  registered in between, the founder is made a member of the conversation with the number of the
  new user. There is none, the insertion fails, and the rollback takes the new user with it, although
  its registration has returned with success: the database is as before.
\<close>

theorem race_undoes_registration:
  assumes "quiet c" and "cn_tx c = None" and "\<not> cn_mutex c" and "user_exists (cn_db c) (unat a)"
    and "snprintf_query QUERY_SMALL (Ins_conv (unat a) g) = Known (Ins_conv (unat a) g)"
    and "snprintf_query QUERY_SMALL (Ins_user u p ph e) = Known (Ins_user u p ph e)"
    and "u \<notin> u_uname ` set (db_users (cn_db c))"
    and "n = new_id (map u_id (db_users (cn_db c)))"
    and "n \<notin> cv_id ` set (db_convs (cn_db c))" and "n \<noteq> new_id (map cv_id (db_convs (cn_db c)))"
  shows "\<exists>c'. pool_steps Q
     ([call_prog (Conv_create a (Some g)), call_prog (User_create \<lparr>us_id = 0, us_uname = Some u,
         us_password = Some p, us_phone = Some ph, us_email = Some e\<rparr>)], c)
     ([Return (New_id 0) SQLITE_CONSTRAINT, Return (New_id (of_nat n)) SQLITE_OK], c') \<and>
     cn_db c' = cn_db c"
proof -
  have "\<exists>c'. schedule Q race
     ([call_prog (Conv_create a (Some g)), call_prog (User_create \<lparr>us_id = 0, us_uname = Some u,
         us_password = Some p, us_phone = Some ph, us_email = Some e\<rparr>)], c) =
     Some ([Return (New_id 0) SQLITE_CONSTRAINT, Return (New_id (of_nat n)) SQLITE_OK], c') \<and>
     cn_db c' = cn_db c"
    using assms by (simp add: race_simps)
  then show ?thesis
    using schedule_steps by blast
qed

theorem race_undoes_registration_witness:
  "\<exists>c'. pool_steps example_engine
     ([call_prog (Conv_create 2 (Some [103])), call_prog (User_create newcomer)], start_conn two_users)
     ([Return (New_id 0) SQLITE_CONSTRAINT, Return (New_id 3) SQLITE_OK], c') \<and>
     cn_db c' = two_users"
  using race_undoes_registration [of "start_conn two_users" 2 "[103]" "[99]" "[]" "[]" "[]" 3 example_engine]
  by (simp add: two_users_def empty_db_def user_exists_def new_id_def snprintf_small plain_def QUOTE_def)


text \<open>
  The same race gives a user a seat in a conversation that is not theirs: when there is a
  conversation with the number of the new user, the founder becomes a member of that one and not of the
  conversation just founded, and both calls report success.
\<close>

theorem race_joins_foreign_conversation:
  assumes "quiet c" and "cn_tx c = None" and "\<not> cn_mutex c" and "user_exists (cn_db c) (unat a)"
    and "snprintf_query QUERY_SMALL (Ins_conv (unat a) g) = Known (Ins_conv (unat a) g)"
    and "snprintf_query QUERY_SMALL (Ins_user u p ph e) = Known (Ins_user u p ph e)"
    and "u \<notin> u_uname ` set (db_users (cn_db c))"
    and "n = new_id (map u_id (db_users (cn_db c)))" and "v = new_id (map cv_id (db_convs (cn_db c)))"
    and "n \<in> cv_id ` set (db_convs (cn_db c))" and "\<not> is_conv_member (cn_db c) n (unat a)"
  shows "\<exists>c' i. pool_steps Q
     ([call_prog (Conv_create a (Some g)), call_prog (User_create \<lparr>us_id = 0, us_uname = Some u,
         us_password = Some p, us_phone = Some ph, us_email = Some e\<rparr>)], c)
     ([Return (New_id (of_nat v)) SQLITE_OK, Return (New_id (of_nat n)) SQLITE_OK], c') \<and>
     n \<noteq> v \<and> db_members (cn_db c') = db_members (cn_db c) @
       [\<lparr>mb_rowid = i, mb_conv = n, mb_user = unat a\<rparr>]"
proof -
  have "\<exists>c' i. schedule Q race
     ([call_prog (Conv_create a (Some g)), call_prog (User_create \<lparr>us_id = 0, us_uname = Some u,
         us_password = Some p, us_phone = Some ph, us_email = Some e\<rparr>)], c) =
     Some ([Return (New_id (of_nat v)) SQLITE_OK, Return (New_id (of_nat n)) SQLITE_OK], c') \<and>
     db_members (cn_db c') = db_members (cn_db c) @
       [\<lparr>mb_rowid = i, mb_conv = n, mb_user = unat a\<rparr>]"
    using assms by (simp add: race_simps is_conv_member_def)
  moreover have "n \<noteq> v"
    using assms(9,10) new_id_fresh_map by metis
  ultimately show ?thesis
    using schedule_steps by blast
qed

definition foreign_db :: db where
  "foreign_db = two_users\<lparr>db_convs := [\<lparr>cv_id = 3, cv_admin = 1, cv_name = []\<rparr>],
     db_members := [\<lparr>mb_rowid = 1, mb_conv = 3, mb_user = 1\<rparr>]\<rparr>"

theorem race_joins_foreign_conversation_witness:
  "\<exists>c' i. pool_steps example_engine
     ([call_prog (Conv_create 2 (Some [103])), call_prog (User_create newcomer)], start_conn foreign_db)
     ([Return (New_id (of_nat 4)) SQLITE_OK, Return (New_id (of_nat 3)) SQLITE_OK], c') \<and>
     3 \<noteq> (4 :: nat) \<and> db_members (cn_db c') = db_members foreign_db @
       [\<lparr>mb_rowid = i, mb_conv = 3, mb_user = unat (2 :: u32)\<rparr>]"
proof -
  have ids: "user_exists foreign_db 2" "new_id (map u_id (db_users foreign_db)) = 3"
    "new_id (map cv_id (db_convs foreign_db)) = 4" "3 \<in> cv_id ` set (db_convs foreign_db)"
    "[99] \<notin> u_uname ` set (db_users foreign_db)" "\<not> is_conv_member foreign_db 3 2"
    by (simp_all add: foreign_db_def two_users_def empty_db_def user_exists_def new_id_def
        is_conv_member_def)
  have texts: "snprintf_query QUERY_SMALL (Ins_conv 2 [103]) = Known (Ins_conv 2 [103])"
    "snprintf_query QUERY_SMALL (Ins_user [99] [] [] []) = Known (Ins_user [99] [] [] [])"
    by (simp_all add: snprintf_small plain_def QUOTE_def)
  show ?thesis
    by (rule race_joins_foreign_conversation [of "start_conn foreign_db", unfolded start_conn_sel])
      (simp_all add: ids texts)
qed

lemma blocked_insert:
  assumes "pool_steps Q (p # us, c) s" and "p = replies New_id (sql_insert_prog (Known st))"
    and "list_all (unlocks_own False) us" and "cn_mutex c"
  shows "\<exists>q ts. fst s = q # ts \<and> un.disciplined (Some (length (fst s))) s \<and>
    (q = p \<or> q = Lock (row_prog st) \<or> (\<exists>rc. rc \<noteq> SQLITE_OK \<and> q = Return (New_id 0) rc))"
  using assms(1)
proof (induction rule: rtranclp_induct)
  case base
  have "list_all (unlocks_own False) (p # us)"
    using assms(2,3) by (simp add: prog_defs)
  then show ?case
    using un.disciplined_abandoned [OF _ assms(4), of "p # us"] by simp
next
  case (step s s')
  obtain q ts d where s: "s = (q # ts, d)" and dis: "un.disciplined (Some (Suc (length ts))) (q # ts, d)"
    and q: "q = p \<or> q = Lock (row_prog st) \<or> (\<exists>rc. rc \<noteq> SQLITE_OK \<and> q = Return (New_id 0) rc)"
    using step.IH by (cases s) auto
  obtain j r d' where j: "j < Suc (length ts)" "advance Q ((q # ts) ! j) d = Some (r, d')"
      "s' = ((q # ts)[j := r], d')"
    using step.hyps(2) s by (auto elim: pool_stepE)
  have "owner_after (Some (Suc (length ts))) j ((q # ts) ! j) = Some (Suc (length ts))"
    using un.owner_other [OF dis _ j(2), of "Suc (length ts)"] j(1) by simp
  then have dis': "un.disciplined (Some (Suc (length ts))) s'"
    using un.disciplined_step [OF dis _ j(2)] j by simp
  have "cn_mutex d"
    using un.disciplinedD(2) [OF dis] by simp
  then have "j = 0 \<Longrightarrow> r = Lock (row_prog st) \<or> (\<exists>rc. rc \<noteq> SQLITE_OK \<and> r = Return (New_id 0) rc)"
    using q j(2) assms(2)
    by (auto simp: sql_insert_prog_def row_prog_def replies_def split: prod.splits if_splits)
  then show ?case
    using dis' j(3) q by (cases j) auto
qed

end
