(* ===== verification/Handler_Work.thy ===== *)
theory Handler_Work
  imports Handler_Keeps Races
begin

text \<open>
  The handlers of \<^verbatim>\<open>server/src/handler.c\<close> as workers run them: for every handler the calls of the data
  access layer it makes, in its order and with its decisions, as a work of theory \<open>Threads\<close>. A handler that is
  not interrupted changes the connection exactly as its work does; side by side, the works interleave
  call by call.
\<close>

section \<open>The calls of the handlers\<close>

fun is_row :: "Threads.reply \<Rightarrow> bool" where
  "is_row (Row (Some _)) = True"
| "is_row _ = False"

fun row_int :: "Threads.reply \<Rightarrow> nat \<Rightarrow> u32" where
  "row_int (Row (Some row)) i = column_int (row ! i)"
| "row_int _ i = 0"

definition last_call :: "call \<Rightarrow> work" where
  "last_call x = Calls x (\<lambda>_ _. Idle)"

text \<open>A lookup that the handler goes on after when it found a row.\<close>

definition if_row :: "stmt \<Rightarrow> work \<Rightarrow> work" where
  "if_row st w = Calls (Look_up st) (\<lambda>r rc. if sql_is_err rc then Idle else if is_row r then w else Idle)"

definition register_work :: "env \<Rightarrow> request_auth \<Rightarrow> work" where
  "register_work E ra =
     (case ra_password ra of
        None \<Rightarrow> Idle
      | Some password \<Rightarrow>
          (case hash_str (e_md5 E) password of
             None \<Rightarrow> Idle
           | Some hashed_password \<Rightarrow>
               last_call (User_create \<lparr>us_id = 0, us_uname = ra_uname ra,
                 us_password = Some hashed_password, us_phone = ra_phone ra, us_email = ra_email ra\<rparr>)))"

definition login_work :: "request_auth \<Rightarrow> work" where
  "login_work ra =
     (case ra_uname ra of None \<Rightarrow> Idle | Some u \<Rightarrow> last_call (Look_up (Sel_user_by_uname u)))"

definition user_work :: "request_header \<Rightarrow> request_user \<Rightarrow> work" where
  "user_work header ru =
     (if rq_action header = 1 then last_call (Look_up (Sel_user_by_id (unat (ru_user_id ru))))
      else if rq_action header = 2 then
        (case ru_uname ru of
           None \<Rightarrow> Idle
         | Some u \<Rightarrow> last_call (List_ids (Search_users u (sint (at_least_0 (rq_limit header)))
             (sint (at_least_0 (rq_offset header))))))
      else Idle)"

definition conv_quit_work :: "u32 \<Rightarrow> u32 \<Rightarrow> u32 \<Rightarrow> work" where
  "conv_quit_work uid cid other =
     if_row (Is_member (unat cid) (unat uid))
       (Calls (Look_up (Is_admin (unat cid) (unat uid))) (\<lambda>r rc.
          if sql_is_err rc then Idle
          else if other \<noteq> uid \<and> \<not> is_row r then Idle
          else if other = uid \<and> is_row r then Idle
          else last_call (Conv_quit uid cid)))"

definition conv_work :: "request_header \<Rightarrow> request_conv \<Rightarrow> work" where
  "conv_work header rconv =
     (let uid = rq_user_id header; cid = rc_conv_id rconv
      in if rq_action header = 0 then last_call (Conv_create uid (rc_gname rconv))
         else if rq_action header = 1 then if_row (Is_admin (unat cid) (unat uid)) (last_call (Conv_drop cid))
         else if rq_action header = 2 then
           if_row (Is_member (unat cid) (unat uid)) (last_call (Conv_join (rc_user_id rconv) cid))
         else if rq_action header = 3 then conv_quit_work uid cid (rc_user_id rconv)
         else if rq_action header = 4 then last_call (Look_up (Sel_conv (unat cid)))
         else if rq_action header = 5 then
           if_row (Is_member (unat cid) (unat uid)) (last_call (List_ids (Sel_members (unat cid))))
         else if rq_action header = 6 then
           last_call (List_ids (Sel_conv_list (unat uid) (sint (at_least_0 (rq_limit header)))
             (sint (at_least_0 (rq_offset header)))))
         else Idle)"

definition chat_work :: "request_header \<Rightarrow> request_chat \<Rightarrow> work" where
  "chat_work header rchat =
     (let uid = rq_user_id header; hid = rh_chat_id rchat
      in if rq_action header = 0 then
           if uid = rh_user_id2 rchat then Idle else last_call (Chat_create uid (rh_user_id2 rchat))
         else if rq_action header = 1 then
           if_row (Is_chat_member (unat hid) (unat uid)) (last_call (Chat_drop hid))
         else if rq_action header = 2 then
           last_call (List_ids (Sel_chat_list (unat uid) (sint (at_least_0 (rq_limit header)))
             (sint (at_least_0 (rq_offset header)))))
         else if rq_action header = 3 then last_call (Look_up (Sel_chat (unat hid)))
         else Idle)"

definition require_member_work :: "u32 \<Rightarrow> u32 \<Rightarrow> u32 \<Rightarrow> work \<Rightarrow> work" where
  "require_member_work uid cid hid w =
     Calls (Look_up (Is_member (unat cid) (unat uid))) (\<lambda>r rc.
       if sql_is_err rc then Idle
       else if is_row r then w
       else if_row (Is_chat_member (unat hid) (unat uid)) w)"

definition with_msg_work :: "u32 \<Rightarrow> u32 \<Rightarrow> work \<Rightarrow> work" where
  "with_msg_work uid mid w =
     Calls (Look_up (Sel_msg (unat mid))) (\<lambda>r rc.
       if sql_is_err rc then Idle
       else if rc = SQLITE_EMPTY then Idle
       else require_member_work uid (row_int r 8) (row_int r 7) w)"

text \<open>
  A file message is stored when the upload came to its end, which the socket and the file system
  decide and not the database.
\<close>

fun upload_done :: "upload_ev list \<Rightarrow> int \<Rightarrow> bool" where
  "upload_done [] fsize = False"
| "upload_done (e # es) fsize =
     (if up_poll e < 0 \<or> \<not> up_pollin e then False
      else if up_poll e = 0 then False
      else
        case up_read e of
          Read_error \<Rightarrow> False
        | Read_would_block \<Rightarrow> True
        | Read_bytes bs \<Rightarrow>
            (let chunk = take BUFSIZ bs; fsize' = fsize - int (length chunk)
             in if chunk = [] \<and> fsize > 0 then False
                else if \<not> up_fs_ok e then False
                else if fsize' \<le> 0 then True
                else if chunk \<noteq> [] then upload_done es fsize'
                else True))"

definition send_file_work :: "env \<Rightarrow> request_header \<Rightarrow> request_msg \<Rightarrow> hstate \<Rightarrow> work" where
  "send_file_work E header rm s =
     (case bindE (deref (rm_msg_content rm)) (\<lambda>name.
             bindE (process_fname (e_md5 E) (e_now E) name (h_buf s)) storage_path) of
        Inl _ \<Rightarrow> Idle
      | Inr path \<Rightarrow>
          if \<not> e_open_ok E \<or> h_files s path \<noteq> None then Idle
          else if upload_done (h_uploads s) (int (unat (rq_content_len header))) \<and> e_fclose_ok E
          then last_call (Msg_send (ucast (e_now E))
                 (new_msg header rm (rq_content_len header) (Some path)))
          else Idle)"

definition msg_send_work :: "env \<Rightarrow> request_header \<Rightarrow> request_msg \<Rightarrow> hstate \<Rightarrow> work" where
  "msg_send_work E header rm s =
     require_member_work (rq_user_id header) (rm_conv_id rm) (rm_chat_id rm)
       (if rq_content_type header = MSG_TEXT then
          last_call (Msg_send (ucast (e_now E))
            (new_msg header rm (rq_content_len header - 12) (rm_msg_content rm)))
        else if rq_content_type header = MSG_FILE then send_file_work E header rm s
        else Idle)"

definition msg_work :: "env \<Rightarrow> request_header \<Rightarrow> request_msg \<Rightarrow> hstate \<Rightarrow> work" where
  "msg_work E header rm s =
     (let uid = rq_user_id header; limit = sint (at_least_0 (rq_limit header));
          offset = sint (at_least_0 (rq_offset header)); cid = rm_conv_id rm; hid = rm_chat_id rm
      in if rq_action header = 0 then
           require_member_work uid cid hid (last_call (List_ids
             (if 0 < hid then Sel_msgs_chat (unat hid) limit offset
              else Sel_msgs_conv (unat cid) limit offset)))
         else if rq_action header = 1 then
           with_msg_work uid (rm_msg_id rm) (last_call (Msg_delivered (rm_msg_id rm)))
         else if rq_action header = 2 then msg_send_work E header rm s
         else if rq_action header = 3 then
           with_msg_work uid (rm_msg_id rm) (last_call (Msg_delete (rm_msg_id rm)))
         else if rq_action header = 4 then last_call (List_ids (Sel_sent (unat uid)))
         else if rq_action header = 5 then
           last_call (List_ids
             (if cid \<noteq> 0 then Sel_del_conv (unat uid) (unat cid)
              else if hid \<noteq> 0 then Sel_del_chat (unat uid) (unat hid)
              else Empty_stmt))
         else if rq_action header = 6 then with_msg_work uid (rm_msg_id rm) Idle
         else Idle)"

definition body_work :: "env \<Rightarrow> request_header \<Rightarrow> request_body \<Rightarrow> hstate \<Rightarrow> work" where
  "body_work E header body s =
     (case body of
        R_auth ra \<Rightarrow>
          if rq_action header = 0 then register_work E ra
          else if rq_action header = 1 then login_work ra
          else Idle
      | R_user ru \<Rightarrow> user_work header ru
      | R_conv rconv \<Rightarrow> conv_work header rconv
      | R_chat rchat \<Rightarrow> chat_work header rchat
      | R_msg rm \<Rightarrow> msg_work E header rm s)"

definition request_work :: "env \<Rightarrow> request option \<Rightarrow> hstate \<Rightarrow> work" where
  "request_work E req s =
     (case req of
        None \<Rightarrow> Idle
      | Some r \<Rightarrow>
          let header = rq_header r
          in if rq_group header = 0 then body_work E header (rq_body r) s
             else if verify_token (e_decrypt E) (e_now E) (e_addr E) (rq_user_id header)
                       (rq_token header) \<le> 0
             then Idle
             else body_work E header (rq_body r) s)"

section \<open>An uninterrupted handler does its work\<close>

definition runs :: "sqlite \<Rightarrow> work \<Rightarrow> conn \<Rightarrow> conn \<Rightarrow> bool" where
  "runs Q w c c' \<longleftrightarrow> (\<exists>v rc. run Q (work_prog w) c = Inr (v, rc, c'))"

lemma runs_Idle [simp]: "runs Q Idle c c' \<longleftrightarrow> c' = c"
  by (auto simp: runs_def)

lemma runs_Calls: "runs Q (Calls x k) c c' \<longleftrightarrow>
    (\<exists>v rc c1. call_alone Q x c = Inr (v, rc, c1) \<and> runs Q (k v rc) c1 c')"
  by (auto simp: runs_def run_bind run_call bindE_eq_Inr_iff)

lemma runs_look:
  "call_alone Q (Look_up st) c = Inr (v, rc, c1) \<Longrightarrow>
     runs Q (Calls (Look_up st) k) c c' = runs Q (k v rc) c1 c'"
  by (simp add: runs_Calls del: call_alone.simps)

lemma runs_last [simp]: "runs Q (last_call x) c c' \<longleftrightarrow> (\<exists>v rc. call_alone Q x c = Inr (v, rc, c'))"
  by (simp add: last_call_def runs_Calls)

lemma as_reply_Inr: "as_reply f r = Inr (v, rc, c) \<longleftrightarrow> (\<exists>x. r = Inr (x, rc, c) \<and> v = f x)"
  by (auto simp: as_reply_def bindE_eq_Inr_iff)

lemma get_row_Some: "get_row Q q c = (Some row, rc, c') \<Longrightarrow> rc = SQLITE_OK"
  by (auto simp: get_row_def split: prod.splits if_splits list.splits)

lemma look_up_row_exists:
  assumes "row_exists Q (snprintf_query QUERY_SMALL st) c = Inr (b, rc, c')"
  shows "\<exists>r. call_alone Q (Look_up st) c = Inr (r, rc, c') \<and> is_row r = b"
  using assms get_row_Some
  by (fastforce simp: row_exists_def as_reply_def split: prod.splits option.splits)

lemma look_up_tests:
  "conv_is_member Q a u c = Inr (b, rc, c') \<Longrightarrow>
     \<exists>r. call_alone Q (Look_up (Is_member (unat a) (unat u))) c = Inr (r, rc, c') \<and> is_row r = b"
  "conv_is_admin Q a u c = Inr (b, rc, c') \<Longrightarrow>
     \<exists>r. call_alone Q (Look_up (Is_admin (unat a) (unat u))) c = Inr (r, rc, c') \<and> is_row r = b"
  "chat_is_member Q a u c = Inr (b, rc, c') \<Longrightarrow>
     \<exists>r. call_alone Q (Look_up (Is_chat_member (unat a) (unat u))) c = Inr (r, rc, c') \<and> is_row r = b"
  unfolding conv_is_member_def conv_is_admin_def chat_is_member_def by (erule look_up_row_exists)+

lemma look_up_info:
  "user_get_by_id Q i c = Inr (v1, rc, c') \<Longrightarrow> \<exists>r. call_alone Q (Look_up (Sel_user_by_id (unat i))) c = Inr (r, rc, c')"
  "user_get_by_uname Q (Some u) c = Inr (v1, rc, c') \<Longrightarrow> \<exists>r. call_alone Q (Look_up (Sel_user_by_uname u)) c = Inr (r, rc, c')"
  "conv_get_info Q i c = Inr (v2, rc, c') \<Longrightarrow> \<exists>r. call_alone Q (Look_up (Sel_conv (unat i))) c = Inr (r, rc, c')"
  "chat_get_info Q i c = Inr (v3, rc, c') \<Longrightarrow> \<exists>r. call_alone Q (Look_up (Sel_chat (unat i))) c = Inr (r, rc, c')"
  using get_row_Some
  by (fastforce simp: user_get_by_id_def user_get_by_uname_def conv_get_info_def chat_get_info_def
      cstring_arg_def as_reply_def bindE_eq_Inr_iff split: prod.splits option.splits)+

lemma look_up_msg:
  assumes "msg_get_detail Q i c = Inr (v, rc, c')"
  shows "\<exists>r. call_alone Q (Look_up (Sel_msg (unat i))) c = Inr (r, rc, c') \<and>
    (\<forall>m. v = Some m \<longrightarrow> mg_id m = i \<and> row_int r 8 = mg_conv_id m \<and> row_int r 7 = mg_chat_id m)"
  using assms get_row_Some
  by (fastforce simp: msg_get_detail_def as_reply_def bindE_eq_Inr_iff split: prod.splits option.splits)

abbreviation does :: "env \<Rightarrow> work \<Rightarrow> hstate \<Rightarrow> hstate res \<Rightarrow> bool" where
  "does E w s m \<equiv> post (\<lambda>s'. runs (e_sql E) w (h_conn s) (h_conn s')) m"

lemma register_does: "does E (register_work E ra) s (handle_auth_register E ra s)"
  unfolding handle_auth_register_def
  by (intro post_rules) (auto simp: register_work_def as_reply_Inr)

lemma login_does: "does E (login_work ra) s (handle_auth_login E ra s)"
proof (cases "ra_uname ra")
  case None
  then show ?thesis
    by (simp add: handle_auth_login_def user_get_by_uname_def cstring_arg_def sql_def post_def)
next
  case (Some u)
  then show ?thesis
    unfolding handle_auth_login_def
    by (intro post_rules) (auto simp del: call_alone.simps simp: login_work_def dest: look_up_info(2))
qed

lemma user_does: "does E (user_work header ru) s (dispatch_user E header ru s)"
proof -
  have search: "\<exists>u v. ru_uname ru = Some u \<and>
      call_alone Q (List_ids (Search_users u (sint l) (sint f))) c = Inr (v, rc, c')"
    if "user_search_by_uname Q (ru_uname ru) l f c = Inr (x, rc, c')" for Q l f c x rc c'
    using that by (auto simp: user_search_by_uname_def cstring_arg_def as_reply_Inr split: option.splits)
  show ?thesis
    unfolding dispatch_user_def handle_user_get_info_def handle_user_search_def handle_logout_def
    by (intro post_rules) (auto simp del: call_alone.simps simp: user_work_def dest!: look_up_info(1) search write_client_frame(1))
qed

declare call_alone.simps(13) [simp del]

lemma conv_does: "does E (conv_work header rconv) s (dispatch_conv E header rconv s)"
  unfolding dispatch_conv_def handle_conv_create_def handle_conv_drop_def handle_conv_join_def
    handle_conv_quit_def handle_conv_get_info_def handle_conv_get_members_def handle_conv_get_list_def
  by (intro post_rules)
    (auto simp: conv_work_def conv_quit_work_def Let_def if_row_def runs_look as_reply_Inr
      conv_get_members_def user_get_conv_list_def dest!: look_up_tests look_up_info(3))

lemma chat_does: "does E (chat_work header rchat) s (dispatch_chat E header rchat s)"
  unfolding dispatch_chat_def handle_chat_create_def handle_chat_drop_def
    handle_chat_get_list_def handle_chat_get_info_def
  by (intro post_rules)
    (auto simp: chat_work_def Let_def if_row_def runs_look as_reply_Inr user_get_chat_list_def
      dest!: look_up_tests look_up_info(4))

lemma require_member_does:
  assumes "\<And>c. does E w (s\<lparr>h_conn := c\<rparr>) (k (s\<lparr>h_conn := c\<rparr>))"
  shows "does E (require_member_work (rq_user_id header) cid hid w) s (require_member E header cid hid action k s)"
  unfolding require_member_def
  by (intro post_rules)
    (use assms in \<open>auto simp: require_member_work_def if_row_def runs_look post_def dest!: look_up_tests\<close>)

lemma with_msg_does:
  assumes "\<And>m c. mg_id m = mid \<Longrightarrow> does E w (s\<lparr>h_conn := c\<rparr>) (k m (s\<lparr>h_conn := c\<rparr>))"
  shows "does E (with_msg_work (rq_user_id header) mid w) s (with_msg E header mid action k s)"
proof -
  have "does E (require_member_work (rq_user_id header) (mg_conv_id m) (mg_chat_id m) w) (s\<lparr>h_conn := c\<rparr>)
     (require_member E header (mg_conv_id m) (mg_chat_id m) action (k m) (s\<lparr>h_conn := c\<rparr>))"
    if "mg_id m = mid" for m c
    using assms [OF that] by (intro require_member_does) simp
  then show ?thesis
    unfolding with_msg_def
    by (intro post_rules) (auto simp: with_msg_work_def runs_look post_def dest!: look_up_msg)
qed

lemma upload_finished: "upload_loop p es n s = Inr (fin, s') \<Longrightarrow> fin = upload_done es n"
proof (induction p es n s rule: upload_loop.induct)
  case (1 path fsize s)
  then show ?case by (auto simp: bindE_eq_Inr_iff)
next
  case (2 path e es fsize s)
  then show ?case
    by (auto simp: bindE_eq_Inr_iff Let_def split: if_splits read_result.splits)
qed

lemma send_text_does:
  "does E (last_call (Msg_send (ucast (e_now E))
     (new_msg header rm (rq_content_len header - 12) (rm_msg_content rm)))) s (send_text E header rm s)"
  unfolding send_text_def by (intro post_rules) (auto simp: as_reply_Inr)

lemma save_file_does:
  "does E (if e_fclose_ok E then last_call (Msg_send (ucast (e_now E))
     (new_msg header rm (rq_content_len header) (Some path))) else Idle) s (save_file E header rm path s)"
  unfolding save_file_def Let_def by (intro post_rules) (auto simp: as_reply_Inr)

lemma send_file_does: "does E (send_file_work E header rm s) s (send_file E header rm s)"
  unfolding send_file_def
proof (intro post_deref post_into_buf post_bind [where m = "storage_path x" for x] post_if
    post_response_err post_bind_pair post_Inr)
  fix name b path fin s2
  assume name: "rm_msg_content rm = Some name"
    and b: "process_fname (e_md5 E) (e_now E) name (h_buf s) = Inr b"
    and path: "storage_path (h_buf (s\<lparr>h_buf := b\<rparr>)) = Inr path"
    and op: "\<not> (\<not> e_open_ok E \<or> h_files (s\<lparr>h_buf := b\<rparr>) path \<noteq> None)"
    and up: "upload_loop path (h_uploads (s\<lparr>h_buf := b\<rparr>)) (int (unat (rq_content_len header)))
      ((s\<lparr>h_buf := b\<rparr>)\<lparr>h_files := (h_files (s\<lparr>h_buf := b\<rparr>))(path \<mapsto> [])\<rparr>) = Inr (fin, s2)"
  have conn: "h_conn s2 = h_conn s"
    using upload_loop_conn [OF up] by simp
  have w: "send_file_work E header rm s = (if fin \<and> e_fclose_ok E
      then last_call (Msg_send (ucast (e_now E)) (new_msg header rm (rq_content_len header) (Some path)))
      else Idle)"
    using name b path op upload_finished [OF up] by (simp add: send_file_work_def deref_def)
  show "runs (e_sql E) (send_file_work E header rm s) (h_conn s) (h_conn s2)" if "\<not> fin"
    using that w conn by simp
  show "does E (send_file_work E header rm s) s (save_file E header rm path s2)" if "\<not> \<not> fin"
    using save_file_does [of E header rm path s2] that by (auto simp: w conn split: if_splits)
qed (auto simp: send_file_work_def deref_def)

lemma send_stored_file_does: "does E Idle s (send_stored_file E m s)"
  unfolding send_stored_file_def
  by (intro post_deref post_into_buf post_bind [where m = "cstr x y" for x y] post_write post_if
      post_option post_Inr)
    (auto simp: post_def dest!: write_client_frame(1) download_loop_conn)

lemma send_file_work_conn [simp]: "send_file_work E header rm (s\<lparr>h_conn := c\<rparr>) = send_file_work E header rm s"
  by (simp add: send_file_work_def split: sum.split)

lemma msg_send_does: "does E (msg_send_work E header rm s) s (handle_msg_send E header rm s)"
  unfolding handle_msg_send_def msg_send_work_def
  by (rule require_member_does, intro post_rules)
    (use send_text_does [of E header rm "s\<lparr>h_conn := c\<rparr>" for c]
      send_file_does [of E header rm "s\<lparr>h_conn := c\<rparr>" for c] in \<open>auto simp del: runs_last\<close>)

lemma msg_does: "does E (msg_work E header rm s) s (dispatch_msg E header rm s)"
proof -
  have all: "does E (msg_work E header rm s) s (handle_msg_get_all E header rm s)" if "rq_action header = 0"
    unfolding handle_msg_get_all_def msg_work_def Let_def if_P [OF that]
    by (rule require_member_does, intro post_rules)
      (auto simp: as_reply_Inr msg_chat_get_all_def msg_conv_get_all_def split: if_splits)
  have detail: "does E (msg_work E header rm s) s (handle_msg_get_detail E header rm s)" if "rq_action header = 1"
    unfolding handle_msg_get_detail_def msg_work_def Let_def using that
    by simp (rule with_msg_does, intro post_rules, auto simp: as_reply_Inr)
  have delete: "does E (msg_work E header rm s) s (handle_msg_delete E header rm s)" if "rq_action header = 3"
    unfolding handle_msg_delete_def msg_work_def Let_def using that
    by simp (rule with_msg_does, intro post_rules, auto simp: as_reply_Inr)
  have download: "does E (msg_work E header rm s) s (handle_msg_download_file E header rm s)" if "rq_action header = 6"
    unfolding handle_msg_download_file_def msg_work_def Let_def using that
    by simp (rule with_msg_does, intro post_rules send_stored_file_does, auto)
  show ?thesis
    unfolding dispatch_msg_def handle_notify_new_msg_def handle_notify_del_msg_def
    by (intro post_rules all detail delete download)
      (auto simp: msg_work_def Let_def as_reply_Inr msg_get_msg_sent_def msg_get_msg_del_def msg_send_does split: if_splits)
qed

lemma request_does: "does E (request_work E req s) s (handle_request E req s)"
proof (cases req)
  case None
  then show ?thesis
    by (auto simp: handle_request_def request_work_def reply_plain_def intro!: post_rules dest: write_client_frame(1))
next
  case (Some r)
  have plain: "does E Idle s (reply_plain f s)" for f
    unfolding reply_plain_def by (intro post_rules) (auto dest: write_client_frame(1))
  have "does E (body_work E (rq_header r) (rq_body r) s) s (dispatch_body E (rq_header r) (rq_body r) s)"
    using register_does login_does user_does conv_does chat_does msg_does
    by (cases "rq_body r") (auto simp: body_work_def dispatch_body_def post_Inr)
  then show ?thesis
    using plain by (simp add: Some handle_request_def request_work_def Let_def)
qed

end
