(* ===== verification/Handler_Races.thy ===== *)
theory Handler_Races
  imports Handler_Work Sessions
begin

text \<open>
  The handlers of \<^verbatim>\<open>server/src/handler.c\<close> side by side: the texts they send to SQLite and their use of the
  mutex, what holds under every interleaving of their calls, and the race of a sender with the user
  who drops the conversation.
\<close>

section \<open>The texts the handlers send\<close>

text \<open>A call that sends no text but the known statements and unlocks the mutex only when it has locked it.\<close>

definition sound_call :: "call \<Rightarrow> bool" where
  "sound_call x \<longleftrightarrow> (\<forall>h. unlocks_own h (call_prog x))"

lemma sound_call_ok: "call_ok x \<Longrightarrow> sound_call x"
  by (simp add: sound_call_def call_unlocks_own del: call_prog.simps)

lemma work_sound: "work_all sound_call w \<Longrightarrow> unlocks_own h (work_prog w)"
  by (induction w arbitrary: h rule: work_induct) (auto simp: sound_call_def simp del: call_prog.simps intro!: owns_bind)

lemma look_up_sound: "is_known (snprintf_query QUERY_SMALL st) \<Longrightarrow> sound_call (Look_up st)"
  "is_known (snprintf_query QUERY_SMALL st) \<Longrightarrow> sound_call (List_ids st)"
  by (auto simp: sound_call_def prog_defs split: option.splits)

lemma writes_sound:
  "sound_call (Conv_drop v)" "sound_call (Conv_join u v)" "sound_call (Conv_quit u v)"
  "sound_call (Chat_create a b)" "sound_call (Chat_drop h)" "sound_call (Msg_delivered i)"
  "sound_call (Msg_delete i)"
  by (rule sound_call_ok, simp)+

lemma user_create_sound:
  assumes "\<And>u p ph e. us_uname info = Some u \<Longrightarrow> us_password info = Some p \<Longrightarrow> us_phone info = Some ph \<Longrightarrow>
    us_email info = Some e \<Longrightarrow> is_known (snprintf_query QUERY_SMALL (Ins_user u p ph e))"
  shows "sound_call (User_create info)"
  using assms by (auto simp: sound_call_def prog_defs split: option.splits)

lemma conv_create_sound:
  assumes "\<And>g. name = Some g \<Longrightarrow> is_known (snprintf_query QUERY_SMALL (Ins_conv (unat a) g))"
  shows "sound_call (Conv_create a name)"
  using assms by (cases name) (auto simp: sound_call_def prog_defs numeric_queries)

lemma msg_send_sound:
  assumes "\<And>t. mg_content msg = Some t \<Longrightarrow> plain t \<and> length t \<le> 7900"
  shows "sound_call (Msg_send now msg)"
proof (cases "mg_content msg")
  case None
  then show ?thesis by (simp add: sound_call_def prog_defs numeric_queries)
next
  case (Some t)
  then have "call_ok (Msg_send now msg)"
    using assms known_ins_msg [OF _ _ null_if_zero_bound null_if_zero_bound null_if_zero_bound
        unat_u32_bound unat_u32_bound unat_u32_bound unat_u32_bound, of t]
    by simp
  then show ?thesis by (rule sound_call_ok)
qed

lemmas sound_calls = look_up_sound writes_sound user_create_sound conv_create_sound msg_send_sound

lemma work_all_last [simp]: "work_all P (last_call x) = P x"
  by (simp add: last_call_def)

lemma work_all_if [simp]: "work_all P (if b then w else w') = (if b then work_all P w else work_all P w')"
  by simp

lemma if_row_sound: "is_known (snprintf_query QUERY_SMALL st) \<Longrightarrow> work_all sound_call w \<Longrightarrow>
    work_all sound_call (if_row st w)"
  by (simp add: if_row_def look_up_sound)

lemma require_member_sound:
  "work_all sound_call w \<Longrightarrow> work_all sound_call (require_member_work uid cid hid w)"
  by (simp add: require_member_work_def look_up_sound if_row_sound numeric_queries)

lemma with_msg_sound:
  "work_all sound_call w \<Longrightarrow> work_all sound_call (with_msg_work uid mid w)"
  by (simp add: with_msg_work_def look_up_sound require_member_sound numeric_queries)

lemma auth_sound:
  assumes "tame_body (R_auth ra)" and "md5_ok (e_md5 E)"
  shows "work_all sound_call (register_work E ra)" "work_all sound_call (login_work ra)"
proof -
  have "is_known (snprintf_query QUERY_SMALL (Ins_user u h ph e))"
    if "hash_str (e_md5 E) p = Some h" "ra_uname ra = Some u" "ra_phone ra = Some ph" "ra_email ra = Some e"
    for p h u ph e
  proof -
    have "plain u" "plain ph" "plain e" "length u + length h + length ph + length e \<le> 430"
      using assms(1) that length_hash_str [OF assms(2) that(1)] by (auto simp: tame_body_def)
    then show ?thesis
      using known_ins_user plain_hash [OF that(1)] by simp
  qed
  then show "work_all sound_call (register_work E ra)"
    by (auto simp: register_work_def intro!: user_create_sound split: option.split)
  have "is_known (snprintf_query QUERY_SMALL (Sel_user_by_uname u))" if "ra_uname ra = Some u" for u
    using assms(1) that known_sel_uname by (auto simp: tame_body_def)
  then show "work_all sound_call (login_work ra)"
    by (auto simp: login_work_def intro!: look_up_sound split: option.split)
qed

lemma user_sound: "tame_body (R_user ru) \<Longrightarrow> work_all sound_call (user_work header ru)"
  using known_search
  by (auto simp: user_work_def tame_body_def numeric_queries
      intro!: look_up_sound split: option.split)

lemma conv_sound: "tame_body (R_conv rconv) \<Longrightarrow> work_all sound_call (conv_work header rconv)"
  using known_ins_conv
  by (auto simp: conv_work_def Let_def conv_quit_work_def tame_body_def numeric_queries
      intro!: sound_calls if_row_sound split: option.split)

lemma chat_sound: "work_all sound_call (chat_work header rchat)"
  by (auto simp: chat_work_def Let_def numeric_queries
      intro!: sound_calls if_row_sound)

lemma send_file_sound:
  assumes "tame_body (R_msg rm)" and "md5_ok (e_md5 E)"
  shows "work_all sound_call (send_file_work E header rm s)"
proof -
  have "plain path \<and> length path \<le> 7900"
    if "bindE (deref (rm_msg_content rm)) (\<lambda>name.
             bindE (process_fname (e_md5 E) (e_now E) name (h_buf s)) storage_path) = Inr path" for path
    using that assms(1) stored_path_plain [OF assms(2)]
    by (fastforce simp: bindE_eq_Inr_iff deref_def tame_body_def split: option.splits)
  then show ?thesis
    by (auto simp: send_file_work_def new_msg_def intro!: msg_send_sound split: sum.split)
qed

lemma msg_lists_sound:
  "sound_call (List_ids (if 0 < hid then Sel_msgs_chat (unat (hid :: u32)) (sint (l :: i32)) (sint (f :: i32))
     else Sel_msgs_conv (unat (cid :: u32)) (sint l) (sint f)))"
  "sound_call (List_ids (if cid \<noteq> 0 then Sel_del_conv (unat (uid :: u32)) (unat cid)
     else if hid \<noteq> 0 then Sel_del_chat (unat uid) (unat hid) else Empty_stmt))"
  by (rule look_up_sound, simp add: numeric_queries)+

lemma msg_sound:
  assumes "tame_body (R_msg rm)" and "md5_ok (e_md5 E)"
  shows "work_all sound_call (msg_work E header rm s)"
proof -
  have "sound_call (Msg_send now (new_msg header rm n (rm_msg_content rm)))" for now n
    using assms(1) by (intro msg_send_sound) (simp add: new_msg_def tame_body_def)
  then have "work_all sound_call (msg_send_work E header rm s)"
    using assms unfolding msg_send_work_def
    by (intro require_member_sound) (simp add: send_file_sound)
  then show ?thesis
    by (simp add: msg_work_def Let_def numeric_queries msg_lists_sound require_member_sound with_msg_sound
        sound_calls cong: if_cong)
qed

lemma request_sound:
  assumes "tame req" and "md5_ok (e_md5 E)"
  shows "work_all sound_call (request_work E req s)"
proof (cases req)
  case (Some r)
  have "work_all sound_call (body_work E (rq_header r) (rq_body r) s)"
    using assms Some
    by (cases "rq_body r")
      (auto simp: body_work_def tame_def auth_sound user_sound conv_sound chat_sound msg_sound)
  then show ?thesis
    by (simp add: Some request_work_def Let_def)
qed (simp add: request_work_def)

text \<open>The work of a handler on a request whose strings the statements can carry.\<close>

definition handler_work :: "work \<Rightarrow> bool" where
  "handler_work w \<longleftrightarrow> (\<exists>E req s. tame req \<and> md5_ok (e_md5 E) \<and> w = request_work E req s)"

lemma handler_work_request: "tame req \<Longrightarrow> md5_ok (e_md5 E) \<Longrightarrow> handler_work (request_work E req s)"
  by (auto simp: handler_work_def)

lemma handler_unlocks_own: "handler_work w \<Longrightarrow> unlocks_own h (work_prog w)"
  by (auto simp: handler_work_def intro: work_sound request_sound)

lemma handler_sends_known: "handler_work w \<Longrightarrow> sends_known (work_prog w)"
  using handler_unlocks_own un.known by blast

section \<open>A conversation that is dropped under a sender\<close>

definition granted :: "env \<Rightarrow> request_header \<Rightarrow> bool" where
  "granted E header \<longleftrightarrow>
     0 < verify_token (e_decrypt E) (e_now E) (e_addr E) (rq_user_id header) (rq_token header)"

lemma granted_work:
  "granted E (rq_header r) \<Longrightarrow> request_work E (Some r) s = body_work E (rq_header r) (rq_body r) s"
  by (simp add: granted_def request_work_def Let_def)

lemma locked_blocks_registrations:
  assumes "cn_mutex c" and "list_all handler_work ws"
    and "is_known (snprintf_query QUERY_SMALL (Ins_user u p ph e))"
    and "pool_steps Q (call_prog (User_create \<lparr>us_id = 0, us_uname = Some u, us_password = Some p,
      us_phone = Some ph, us_email = Some e\<rparr>) # map work_prog ws, c) (ts, c')"
  shows "ts ! 0 \<noteq> Return v SQLITE_OK"
proof -
  have "list_all (unlocks_own False) (map work_prog ws)"
    using assms(2) by (auto simp: list_all_iff intro: handler_unlocks_own)
  then show ?thesis
    using blocked_insert [OF assms(4)] is_known_snprintf [OF assms(3)] assms(1)
    by (fastforce simp: user_create_prog_def prog_defs)
qed

lemma conv_drop_frame:
  "quiet c \<Longrightarrow> cn_tx c = None \<Longrightarrow> conv_drop Q cid c = Inr (v, rc, c') \<Longrightarrow> c' = c\<lparr>cn_db := cn_db c'\<rparr>"
  by (simp add: conv_drop_def sql_simps run_dml run_stmt_def del: exec.simps) auto

text \<open>A message to a conversation that is gone is not stored, and the mutex stays locked.\<close>

lemma late_message:
  assumes "quiet c" and "\<not> cn_mutex c" and "cn_tx c = None" and "mg_conv_id msg \<noteq> 0"
    and "\<not> conv_exists (cn_db c) (unat (mg_conv_id msg))"
    and "mg_content msg = Some t" and "plain t" and "length t \<le> 7900"
  shows "\<exists>i. msg_send Q now msg c = Inr (i, SQLITE_CONSTRAINT, c\<lparr>cn_fk := True, cn_mutex := True\<rparr>)"
proof -
  let ?st = "Ins_msg (unat (mg_from_uid msg)) (null_if_zero (mg_reply_to msg))
    (unat (mg_content_type msg)) (unat (mg_content_length msg)) t (unat now)
    (null_if_zero (mg_chat_id msg)) (null_if_zero (mg_conv_id msg))"
  have "snprintf_query QUERY_LARGE ?st = Known ?st"
    by (intro known_ins_msg assms null_if_zero_bound unat_u32_bound)
  moreover have "null_if_zero (mg_conv_id msg) = Some (unat (mg_conv_id msg))"
    using assms(4) by (simp add: null_if_zero_def)
  ultimately show ?thesis
    using assms by (simp add: msg_send_def sql_simps cstring_arg_def lock_def run_dml
        insert_msg_def Let_def opt_ref_def del: exec.simps)
qed

lemma is_row_iff: "is_row r \<longleftrightarrow> (\<exists>row. r = Row (Some row))"
  by (cases r rule: is_row.cases) auto

lemma passed_tests:
  "quiet c \<Longrightarrow> is_conv_member (cn_db c) (unat (v :: u32)) (unat (u :: u32)) \<Longrightarrow>
     \<exists>row. call_alone Q (Look_up (Is_member (unat v) (unat u))) c = Inr (Row (Some row), SQLITE_OK, c)"
  "quiet c \<Longrightarrow> is_conv_admin (cn_db c) (unat (v :: u32)) (unat (u :: u32)) \<Longrightarrow>
     \<exists>row. call_alone Q (Look_up (Is_admin (unat v) (unat u))) c = Inr (Row (Some row), SQLITE_OK, c)"
  using look_up_tests(1) [of Q v u c True SQLITE_OK c] look_up_tests(2) [of Q v u c True SQLITE_OK c]
  by (auto simp: is_row_iff sql_simps)

lemma drop_request_runs:
  assumes "quiet c" and "cn_tx c = None" and "granted E (rq_header r)"
    and "rq_body r = R_conv rconv" and "rq_action (rq_header r) = 1"
    and "is_conv_admin (cn_db c) (unat (rc_conv_id rconv)) (unat (rq_user_id (rq_header r)))"
  shows "\<exists>d. runs Q (request_work E (Some r) s) c (c\<lparr>cn_db := d\<rparr>) \<and> db_users d = db_users (cn_db c) \<and>
    db_convs d = filter (\<lambda>v. cv_id v \<noteq> unat (rc_conv_id rconv)) (db_convs (cn_db c))"
proof -
  obtain c' where c': "conv_drop Q (rc_conv_id rconv) c = Inr ((), SQLITE_OK, c')"
      "db_users (cn_db c') = db_users (cn_db c)"
      "db_convs (cn_db c') = filter (\<lambda>v. cv_id v \<noteq> unat (rc_conv_id rconv)) (db_convs (cn_db c))"
    using conv_drop_effect [OF assms(1,2)] by blast
  obtain row where "call_alone Q (Look_up (Is_admin (unat (rc_conv_id rconv)) (unat (rq_user_id (rq_header r))))) c =
      Inr (Row (Some row), SQLITE_OK, c)"
    using passed_tests(2) [OF assms(1,6)] by blast
  then have "runs Q (request_work E (Some r) s) c c'"
    using c'(1) by (simp add: granted_work [OF assms(3)] assms(4,5) body_work_def conv_work_def Let_def if_row_def
        runs_look handler_simps as_reply_Inr)
  then show ?thesis
    using c' conv_drop_frame [OF assms(1,2) c'(1)] by metis
qed

text \<open>The sender has passed the check on the membership when the conversation is dropped.\<close>

lemma drop_races_send:
  assumes "quiet c" and "\<not> cn_mutex c" and "cn_tx c = None" 
    and "granted E (rq_header r)" and "rq_body r = R_msg rm" and "rq_action (rq_header r) = 2"
    and "rq_content_type (rq_header r) = MSG_TEXT"
    and "rm_msg_content rm = Some t" "plain t" "length t \<le> 7900"
    and "rm_conv_id rm \<noteq> 0"
    and "is_conv_member (cn_db c) (unat (rm_conv_id rm)) (unat (rq_user_id (rq_header r)))"
    and "granted E' (rq_header r')" and "rq_body r' = R_conv rconv" and "rq_action (rq_header r') = 1"
    and "rc_conv_id rconv = rm_conv_id rm"
    and "is_conv_admin (cn_db c) (unat (rm_conv_id rm)) (unat (rq_user_id (rq_header r')))"
  shows "\<exists>ts c1. pool_steps Q
      ([work_prog (request_work E (Some r) s), work_prog (request_work E' (Some r') s')], c) (ts, c1) \<and>
    list_all returned ts \<and> cn_mutex c1 \<and> db_users (cn_db c1) = db_users (cn_db c) \<and>
    \<not> conv_exists (cn_db c1) (unat (rm_conv_id rm))"
proof -
  let ?u = "rq_user_id (rq_header r)" and ?v = "rm_conv_id rm"
  let ?msg = "new_msg (rq_header r) rm (rq_content_len (rq_header r) - 12) (rm_msg_content rm)"
  let ?send = "last_call (Msg_send (ucast (e_now E)) ?msg)"
  let ?drop = "work_prog (request_work E' (Some r') s')"
  obtain f where send: "work_prog (request_work E (Some r) s) =
      bind_prog (call_prog (Look_up (Is_member (unat ?v) (unat ?u)))) f"
    and f: "\<And>row. f (Row (Some row)) SQLITE_OK = work_prog ?send"
    using assms(4-7) by (simp add: granted_work body_work_def msg_work_def msg_send_work_def Let_def
        require_member_work_def handler_simps del: call_prog.simps)
  obtain row where "run Q (call_prog (Look_up (Is_member (unat ?v) (unat ?u)))) c = Inr (Row (Some row), SQLITE_OK, c)"
    using passed_tests(1) [OF assms(1,12)] by (auto simp: run_call simp del: call_prog.simps)
  from run_steps_at [OF this, of 0 "[x, ?drop]" f for x]
  have check: "pool_steps Q ([work_prog (request_work E (Some r) s), ?drop], c) ([work_prog ?send, ?drop], c)"
    by (simp add: send f)
  obtain d v rc where d: "run Q ?drop c = Inr (v, rc, c\<lparr>cn_db := d\<rparr>)"
      "db_users d = db_users (cn_db c)" "db_convs d = filter (\<lambda>v. cv_id v \<noteq> unat ?v) (db_convs (cn_db c))"
    using drop_request_runs [OF assms(1,3,13-15)] assms(16,17) unfolding runs_def by metis
  have drops: "pool_steps Q ([work_prog ?send, ?drop], c) ([work_prog ?send, Return v rc], c\<lparr>cn_db := d\<rparr>)"
    using run_steps_at [OF d(1), of 1 "[work_prog ?send, ?drop]" Return] by simp
  have gone: "\<not> conv_exists d (unat ?v)"
    using d(3) by (auto simp: conv_exists_def)
  have "\<exists>i. msg_send Q (ucast (e_now E)) ?msg (c\<lparr>cn_db := d\<rparr>) =
      Inr (i, SQLITE_CONSTRAINT, c\<lparr>cn_db := d, cn_fk := True, cn_mutex := True\<rparr>)"
    using late_message [of "c\<lparr>cn_db := d\<rparr>" ?msg t Q] assms gone by (simp add: new_msg_def quiet_def)
  then obtain v1 rc1 where "run Q (work_prog ?send) (c\<lparr>cn_db := d\<rparr>) =
      Inr (v1, rc1, c\<lparr>cn_db := d, cn_fk := True, cn_mutex := True\<rparr>)"
    by (auto simp: last_call_def run_bind run_call as_reply_def simp del: call_prog.simps)
  from run_steps_at [OF this, of 0 "[x, Return v rc]" Return for x]
  have "pool_steps Q ([work_prog ?send, Return v rc], c\<lparr>cn_db := d\<rparr>)
      ([Return v1 rc1, Return v rc], c\<lparr>cn_db := d, cn_fk := True, cn_mutex := True\<rparr>)"
    by simp
  with check drops have "pool_steps Q ([work_prog (request_work E (Some r) s), ?drop], c)
      ([Return v1 rc1, Return v rc], c\<lparr>cn_db := d, cn_fk := True, cn_mutex := True\<rparr>)"
    by (meson rtranclp_trans)
  then show ?thesis
    using gone d(2) by (intro exI conjI) (assumption | simp)+
qed

subsection \<open>An example\<close>

text \<open>In a conversation of two, the second user sends a text while the first drops it.\<close>

definition pair_db :: db where
  "pair_db = two_users\<lparr>db_convs := [\<lparr>cv_id = 1, cv_admin = 1, cv_name = []\<rparr>],
     db_members := [\<lparr>mb_rowid = 1, mb_conv = 1, mb_user = 1\<rparr>, \<lparr>mb_rowid = 2, mb_conv = 1, mb_user = 2\<rparr>]\<rparr>"

definition signed_header :: "byte \<Rightarrow> byte \<Rightarrow> u32 \<Rightarrow> request_header" where
  "signed_header g a uid = mk_header g a 0 14 0
     (make_token (e_encrypt example_env) (e_now example_env) (e_addr example_env) uid) uid 10 0"

definition text_request :: request where
  "text_request = \<lparr>rq_header = signed_header 4 2 2, rq_body = R_msg \<lparr>rm_conv_id = 1, rm_chat_id = 0, rm_msg_id = 0,
     rm_reply_id = 0, rm_msg_content = Some [104, 105]\<rparr>\<rparr>"

definition drop_request :: request where
  "drop_request = \<lparr>rq_header = signed_header 2 1 1, rq_body = R_conv \<lparr>rc_conv_id = 1, rc_user_id = 0,
     rc_gname = None\<rparr>\<rparr>"

lemma race_requests [simp]:
  "rq_action (rq_header text_request) = 2" "rq_content_type (rq_header text_request) = MSG_TEXT"
  "rq_user_id (rq_header text_request) = 2" "rq_action (rq_header drop_request) = 1"
  "rq_user_id (rq_header drop_request) = 1"
  "rq_body text_request = R_msg \<lparr>rm_conv_id = 1, rm_chat_id = 0, rm_msg_id = 0, rm_reply_id = 0,
     rm_msg_content = Some [104, 105]\<rparr>"
  "rq_body drop_request = R_conv \<lparr>rc_conv_id = 1, rc_user_id = 0, rc_gname = None\<rparr>"
  by (simp_all add: text_request_def drop_request_def signed_header_def mk_header_def MSG_TEXT_def)

lemma race_granted: "granted example_env (rq_header text_request)" "granted example_env (rq_header drop_request)"
  using fresh_token [OF example_cipher_ok]
  by (simp_all add: granted_def text_request_def drop_request_def signed_header_def mk_header_def)

lemma race_rights: "is_conv_member pair_db 1 2" "is_conv_admin pair_db 1 1"
  by (simp_all add: pair_db_def is_conv_member_def is_conv_admin_def)

lemma race_tame: "tame (Some text_request)" "tame (Some drop_request)"
  by (simp_all add: tame_def tame_body_def plain_def QUOTE_def)

abbreviation race_workers :: "work list" where
  "race_workers \<equiv> [request_work example_env (Some text_request) (example_state pair_db),
     request_work example_env (Some drop_request) (example_state pair_db)]"

lemma race_handlers: "list_all handler_work race_workers"
  by (simp add: handler_work_request race_tame example_md5_ok)

lemma race_runs:
  "\<exists>ts c1. pool_steps example_engine (map work_prog race_workers, (start_conn pair_db)\<lparr>cn_fk := True\<rparr>) (ts, c1) \<and>
    list_all returned ts \<and> \<not> conv_exists (cn_db c1) 1"
  using drop_races_send [of "(start_conn pair_db)\<lparr>cn_fk := True\<rparr>" example_env text_request _ "[104, 105]" example_env
      drop_request _ example_engine, OF _ _ _ race_granted(1) race_requests(6) _ _ _ _ _ _ _ race_granted(2) race_requests(7)]
    race_rights by (fastforce simp: plain_def QUOTE_def quiet_def start_conn_def)

section \<open>Properties\<close>

text \<open>
  C26: What a handler does to the database when nobody interrupts it is its work: a worker that is alone
  with the calls of the handled request gets to the end of them, and leaves the connection as the handler
  does.
\<close>

theorem handler_refines_work:
  assumes "handle_request E req s = Inr s'"
  shows "\<exists>v rc. pool_steps (e_sql E) ([work_prog (request_work E req s)], h_conn s) ([Return v rc], h_conn s')"
  using postD [OF request_does assms] unfolding runs_def by (blast intro: run_steps)

theorem handler_refines_work_witness:
  "\<exists>v rc c'. pool_steps example_engine
     ([work_prog (request_work example_env (Some drop_request) (example_state pair_db))], start_conn pair_db)
     ([Return v rc], c') \<and> db_convs (cn_db c') = []"
proof -
  obtain c' where c': "conv_drop (e_sql example_env) 1 (start_conn pair_db) = Inr ((), SQLITE_OK, c')"
      "db_convs (cn_db c') = []"
    using conv_drop_effect [of "start_conn pair_db" "e_sql example_env" 1] by (auto simp: pair_db_def)
  have "\<exists>s'. handle_conv_drop example_env (rq_header drop_request) \<lparr>rc_conv_id = 1, rc_user_id = 0, rc_gname = None\<rparr>
      (example_state pair_db) = Inr s' \<and> h_conn s' = c'"
    using conv_drop_ready [of "example_state pair_db" "\<lparr>rc_conv_id = 1, rc_user_id = 0, rc_gname = None\<rparr>"
        "rq_header drop_request" example_env c'] c'(1) race_rights by auto
  then obtain s' where "handle_request example_env (Some drop_request) (example_state pair_db) = Inr s'" "h_conn s' = c'"
    using race_granted by (auto simp: handle_request_def granted_def dispatch_body_def dispatch_conv_def Let_def)
  then show ?thesis
    using handler_refines_work [of example_env "Some drop_request" "example_state pair_db"] c'(2)
    by (auto simp: example_env_def)
qed




text \<open>
  C37: A member who sends a text while the administrator drops the conversation can stop all registrations for
  good. When the conversation is dropped between the check on the membership and the insertion, the insertion fails, and
  \<^verbatim>\<open>msg_send\<close> returns with the mutex locked; both requests are answered, and from then on, whatever requests are
  handled, no registration ever returns with success.
\<close>

theorem drop_under_sender_blocks_registrations:
  assumes "quiet c" and "\<not> cn_mutex c" and "cn_tx c = None"
    and "granted E (rq_header r)" and "rq_body r = R_msg rm" and "rq_action (rq_header r) = 2"
    and "rq_content_type (rq_header r) = MSG_TEXT"
    and "rm_msg_content rm = Some t" "plain t" "length t \<le> 7900"
    and "rm_conv_id rm \<noteq> 0"
    and "is_conv_member (cn_db c) (unat (rm_conv_id rm)) (unat (rq_user_id (rq_header r)))"
    and "granted E' (rq_header r')" and "rq_body r' = R_conv rconv" and "rq_action (rq_header r') = 1"
    and "rc_conv_id rconv = rm_conv_id rm"
    and "is_conv_admin (cn_db c) (unat (rm_conv_id rm)) (unat (rq_user_id (rq_header r')))"
  shows "\<exists>ts c1. pool_steps Q
      ([work_prog (request_work E (Some r) s), work_prog (request_work E' (Some r') s')], c) (ts, c1) \<and>
    list_all returned ts \<and> db_users (cn_db c1) = db_users (cn_db c) \<and>
    (\<forall>ws u p ph e us c2 v. list_all handler_work ws \<longrightarrow>
       is_known (snprintf_query QUERY_SMALL (Ins_user u p ph e)) \<longrightarrow>
       pool_steps Q (call_prog (User_create \<lparr>us_id = 0, us_uname = Some u, us_password = Some p,
         us_phone = Some ph, us_email = Some e\<rparr>) # map work_prog ws, c1) (us, c2) \<longrightarrow>
       us ! 0 \<noteq> Return v SQLITE_OK)"
  using drop_races_send [OF assms] locked_blocks_registrations by metis

theorem drop_under_sender_blocks_registrations_witness:
  "\<exists>ts c1. pool_steps example_engine (map work_prog race_workers, start_conn pair_db) (ts, c1) \<and>
    list_all returned ts \<and>
    (\<forall>us c2 v. pool_steps example_engine (call_prog (User_create newcomer) # map work_prog race_workers, c1) (us, c2) \<longrightarrow>
       us ! 0 \<noteq> Return v SQLITE_OK)"
proof -
  have "is_known (snprintf_query QUERY_SMALL (Ins_user [99] [] [] []))"
    by (simp add: snprintf_small plain_def QUOTE_def)
  then show ?thesis
    using drop_under_sender_blocks_registrations [of "start_conn pair_db" example_env text_request _ "[104, 105]"
        example_env drop_request _ example_engine, OF _ _ _ race_granted(1) race_requests(6) _ _ _ _ _ _ _
        race_granted(2) race_requests(7)] race_rights race_handlers
    by (fastforce simp: plain_def QUOTE_def)
qed

end
