(* ===== verification/Seed.thy ===== *)
theory Seed
  imports Sql_Props Token
begin

text \<open>
  \<^verbatim>\<open>server/src/seed.c\<close>, the tool that fills a database with test data, and \<^verbatim>\<open>server/src/utils/random.c\<close>,
  the random strings of the tests. The arrays of the tool have their declared sizes, so that what
  it writes and reads outside them shows. A failed \<^verbatim>\<open>assert\<close> ends the process; it is \<open>None\<close>.
\<close>

section \<open>The generator of test data\<close>

text \<open>\<^verbatim>\<open>hash_str\<close>: two digits and a zero for every byte of the digest, then a zero behind them.\<close>

definition hash_writes :: "bytes \<Rightarrow> (nat \<times> bytes) list" where
  "hash_writes hashed =
     map (\<lambda>i. (2 * i, hex_byte (hashed ! i) @ [0])) [0..<HASHED_LEN] @ [(2 * HASHED_LEN, [0])]"

definition seed_hash_str :: "(bytes \<Rightarrow> bytes option) \<Rightarrow> bytes \<Rightarrow> bytes \<Rightarrow> bytes option res" where
  "seed_hash_str md5 str res =
     (case md5 str of
        None \<Rightarrow> Inr None
      | Some hashed \<Rightarrow> bindE (writes (hash_writes hashed) res) (\<lambda>res'. Inr (Some res')))"

text \<open>\<^verbatim>\<open>snprintf\<close> into an array of eight characters.\<close>

definition name8 :: "string \<Rightarrow> nat \<Rightarrow> bytes" where
  "name8 prefix i = take 7 (lit prefix @ dec i)"

fun users_loop :: "sqlite \<Rightarrow> bytes \<Rightarrow> nat \<Rightarrow> nat \<Rightarrow> conn \<Rightarrow> conn option res" where
  "users_loop Q password i 0 c = Inr (Some c)"
| "users_loop Q password i (Suc k) c =
     bindE (user_create Q \<lparr>us_id = 0, us_uname = Some (name8 ''user'' i), us_password = Some password,
              us_phone = Some (lit ''123456789''), us_email = Some (lit ''abc@mail.com'')\<rparr> c)
       (\<lambda>(_, rc, c'). if sql_is_ok rc then users_loop Q password (Suc i) k c' else Inr None)"

text \<open>\<open>stack\<close> is what the array \<^verbatim>\<open>hashed_password\<close> holds at first; the result of \<^verbatim>\<open>hash_str\<close> is not checked.\<close>

definition gen_users :: "sqlite \<Rightarrow> (bytes \<Rightarrow> bytes option) \<Rightarrow> bytes \<Rightarrow> nat \<Rightarrow> conn \<Rightarrow> conn option res" where
  "gen_users Q md5 stack n_users c =
     bindE (seed_hash_str md5 (lit ''password'') stack) (\<lambda>r.
       case r of
         None \<Rightarrow> Inl Uninitialised
       | Some hashed_password \<Rightarrow>
           bindE (cstr hashed_password 0) (\<lambda>password. users_loop Q password 0 n_users c))"

text \<open>A user who is selected already is passed over without going on to the next.\<close>

fun join_loop :: "sqlite \<Rightarrow> nat \<Rightarrow> u32 \<Rightarrow> nat \<Rightarrow> bool list \<Rightarrow> nat \<Rightarrow> conn \<Rightarrow> conn res" where
  "join_loop Q n_users conv_id 0 selected user c = Inr c"
| "join_loop Q n_users conv_id (Suc k) selected user c =
     (if length selected \<le> user then Inl Out_Of_Bounds
      else if selected ! user then join_loop Q n_users conv_id k selected user c
      else bindE (conv_join Q (of_nat user) conv_id c) (\<lambda>(_, _, c').
        join_loop Q n_users conv_id k (selected[user := True])
          (if Suc user > n_users then 1 else Suc user) c'))"

definition only_selected :: "nat \<Rightarrow> nat \<Rightarrow> bool list" where
  "only_selected n_users i = (replicate (n_users + 1) False)[i := True]"

fun convs_loop :: "sqlite \<Rightarrow> nat \<Rightarrow> nat \<Rightarrow> nat \<Rightarrow> nat \<Rightarrow> nat \<Rightarrow> conn \<Rightarrow> (nat \<times> conn) res" where
  "convs_loop Q n_users_per_conv n_users i 0 k c = Inr (k, c)"
| "convs_loop Q n_users_per_conv n_users i (Suc j) k c =
     bindE (conv_create Q (of_nat i) (Some (name8 ''conv'' k)) c) (\<lambda>(conv_id, _, c').
     bindE (join_loop Q n_users conv_id n_users_per_conv (only_selected n_users i) (i + 1) c') (\<lambda>c''.
       convs_loop Q n_users_per_conv n_users i j (k + 1) c''))"

fun founders_loop :: "sqlite \<Rightarrow> nat \<Rightarrow> nat \<Rightarrow> nat \<Rightarrow> nat list \<Rightarrow> nat \<Rightarrow> conn \<Rightarrow> conn res" where
  "founders_loop Q n_convs_per_user n_users_per_conv n_users [] k c = Inr c"
| "founders_loop Q n_convs_per_user n_users_per_conv n_users (i # is) k c =
     bindE (convs_loop Q n_users_per_conv n_users i n_convs_per_user k c) (\<lambda>(k', c').
       founders_loop Q n_convs_per_user n_users_per_conv n_users is k' c')"

definition gen_conv :: "sqlite \<Rightarrow> nat \<Rightarrow> nat \<Rightarrow> nat \<Rightarrow> conn \<Rightarrow> conn res" where
  "gen_conv Q n_convs_per_user n_users_per_conv n_users c =
     founders_loop Q n_convs_per_user n_users_per_conv n_users [1..<n_users + 1] 0 c"

function chats_from :: "sqlite \<Rightarrow> nat \<Rightarrow> nat \<Rightarrow> nat \<Rightarrow> conn \<Rightarrow> conn res" where
  "chats_from Q n_users i j c =
     (if j \<le> n_users
      then bindE (chat_create Q (of_nat i) (of_nat j) c) (\<lambda>(_, _, c').
        chats_from Q n_users i (j + 2) c')
      else Inr c)"
  by auto
termination
  by (relation "measure (\<lambda>(Q, n, i, j, c). n + 1 - j)") auto

declare chats_from.simps [simp del]

fun gen_chat_rows :: "sqlite \<Rightarrow> nat \<Rightarrow> nat list \<Rightarrow> conn \<Rightarrow> conn res" where
  "gen_chat_rows Q n_users [] c = Inr c"
| "gen_chat_rows Q n_users (i # is) c =
     bindE (chats_from Q n_users i (i + 1) c) (gen_chat_rows Q n_users is)"

definition gen_chat :: "sqlite \<Rightarrow> nat \<Rightarrow> conn \<Rightarrow> conn res" where
  "gen_chat Q n_users c = gen_chat_rows Q n_users [1..<n_users + 1] c"

definition seed_main :: "sqlite \<Rightarrow> (bytes \<Rightarrow> bytes option) \<Rightarrow> bytes \<Rightarrow> nat \<Rightarrow> db \<Rightarrow> conn option res" where
  "seed_main Q md5 stack open_rc d =
     (if open_rc \<noteq> SQLITE_OK then Inr None
      else bindE (gen_users Q md5 stack 20 (start_conn d)) (\<lambda>r.
        case r of
          None \<Rightarrow> Inr None
        | Some c \<Rightarrow>
            bindE (gen_conv Q 10 10 20 c) (\<lambda>c'.
            bindE (gen_chat Q 20 c') (\<lambda>c''. Inr (Some c'')))))"

section \<open>Random strings\<close>

definition ALPHABET_LEN :: nat where
  "ALPHABET_LEN = 62"

definition alphabet :: bytes where
  "alphabet = lit ''ABCDEFGHIJKLMNOPQRSTUVWXYZabcdefghijklmnopqrstuvwxyz0123456789'' @ [0]"

text \<open>
  The generator is seeded with the clock at every call, so what \<^verbatim>\<open>rand\<close> returns is a function of
  the time: \<open>rand t\<close> is the first number after \<^verbatim>\<open>srand(t)\<close>, not negative.
\<close>

definition fits_int :: "int \<Rightarrow> bool" where
  "fits_int z \<longleftrightarrow> - 2147483648 \<le> z \<and> z \<le> 2147483647"

definition rand_int :: "(nat \<Rightarrow> nat) \<Rightarrow> nat \<Rightarrow> int \<Rightarrow> int \<Rightarrow> int res" where
  "rand_int rand now mn mx =
     (let interval = mx - mn
      in if \<not> fits_int interval then Inl Int_Overflow
         else if interval = 0 then Inl Div_By_Zero
         else let r = int (rand now) mod \<bar>interval\<bar> + mn
              in if fits_int r then Inr r else Inl Int_Overflow)"

fun rand_chars :: "(nat \<Rightarrow> nat) \<Rightarrow> (nat \<Rightarrow> nat) \<Rightarrow> nat \<Rightarrow> nat \<Rightarrow> bytes \<Rightarrow> bytes res" where
  "rand_chars rand clock i 0 res = Inr res"
| "rand_chars rand clock i (Suc k) res =
     bindE (rand_int rand (clock i) 0 (int ALPHABET_LEN)) (\<lambda>r.
     bindE (mem_write res i [alphabet ! nat r]) (rand_chars rand clock (Suc i) k))"

definition rand_str :: "(nat \<Rightarrow> nat) \<Rightarrow> (nat \<Rightarrow> nat) \<Rightarrow> bytes \<Rightarrow> nat \<Rightarrow> bytes res" where
  "rand_str rand clock res n =
     bindE (rand_chars rand clock 0 n res) (\<lambda>res'. mem_write res' n [0])"

definition rand_email :: "(nat \<Rightarrow> nat) \<Rightarrow> (nat \<Rightarrow> nat) \<Rightarrow> bytes \<Rightarrow> nat \<Rightarrow> bytes res" where
  "rand_email rand clock res n =
     bindE (rand_str rand clock res n) (\<lambda>res'. mem_write res' n (lit ''@mail.com'' @ [0]))"

section \<open>Properties of the random strings\<close>

lemma rand_int_alphabet: "rand_int rand t 0 (int ALPHABET_LEN) = Inr (int (rand t mod ALPHABET_LEN))"
proof -
  have "int (rand t) mod 62 = int (rand t mod 62)" "rand t mod 62 < 62"
    by (simp_all add: zmod_int)
  then have "fits_int (int (rand t) mod 62)"
    by (simp add: fits_int_def)
  then show ?thesis
    by (simp add: rand_int_def ALPHABET_LEN_def fits_int_def Let_def zmod_int)
qed

definition pick :: "(nat \<Rightarrow> nat) \<Rightarrow> nat \<Rightarrow> byte" where
  "pick rand t = alphabet ! (rand t mod ALPHABET_LEN)"

lemma rand_chars_eq:
  "i + k \<le> length res \<Longrightarrow> rand_chars rand clock i k res =
     Inr (take i res @ map (\<lambda>j. pick rand (clock j)) [i..<i + k] @ drop (i + k) res)"
proof (induction k arbitrary: i res)
  case (Suc k)
  then have "mem_write res i [pick rand (clock i)] = Inr (take i res @ pick rand (clock i) # drop (Suc i) res)"
    by (simp add: mem_write_def)
  moreover have "[i..<i + Suc k] = i # [Suc i..<Suc i + k]"
    by (simp add: upt_conv_Cons)
  ultimately show ?case
    using Suc by (simp add: rand_int_alphabet pick_def [symmetric] ac_simps del: upt_Suc)
qed simp

lemma rand_str_eq:
  "n < length res \<Longrightarrow> rand_str rand clock res n =
     Inr (map (\<lambda>j. pick rand (clock j)) [0..<n] @ 0 # drop (Suc n) res)"
  by (simp add: rand_str_def rand_chars_eq mem_write_def)

lemma pick_in_alphabet: "pick rand t \<in> set (take ALPHABET_LEN alphabet)"
proof -
  have "ALPHABET_LEN < length alphabet" "rand t mod ALPHABET_LEN < ALPHABET_LEN"
    by (simp_all add: alphabet_def ALPHABET_LEN_def)
  then have "pick rand t = take ALPHABET_LEN alphabet ! (rand t mod ALPHABET_LEN)"
    and "rand t mod ALPHABET_LEN < length (take ALPHABET_LEN alphabet)"
    by (simp_all add: pick_def)
  then show ?thesis by (metis nth_mem)
qed

text \<open>
  A random string has as many characters as it should, all of the alphabet, and a zero behind them,
  in any array that is longer; but the generator is seeded with the clock for every character,
  so the characters made within one second are all the same.
\<close>

theorem rand_str_repeats:
  assumes "n < length res"
  shows "\<exists>s. rand_str rand clock res n = Inr (s @ 0 # drop (Suc n) res) \<and> length s = n \<and>
    set s \<subseteq> set (take ALPHABET_LEN alphabet) \<and>
    (\<forall>i j. i < n \<longrightarrow> j < n \<longrightarrow> clock i = clock j \<longrightarrow> s ! i = s ! j)"
proof (intro exI conjI)
  show "rand_str rand clock res n =
      Inr (map (\<lambda>j. pick rand (clock j)) [0..<n] @ 0 # drop (Suc n) res)"
    using assms by (rule rand_str_eq)
qed (auto intro: pick_in_alphabet)

theorem rand_str_repeats_witness:
  "\<exists>s. rand_str (\<lambda>t. 7 * t) (\<lambda>i. 1000) (zeros 10) 9 = Inr (s @ [0]) \<and> length s = 9 \<and> s ! 0 = s ! 8"
  using rand_str_repeats [of 9 "zeros 10" "\<lambda>t. 7 * t" "\<lambda>i. 1000"] by auto

section \<open>Properties of the test data\<close>

lemma writes_outside:
  "(off, xs) \<in> set ws \<Longrightarrow> length a < off + length xs \<Longrightarrow> writes ws a = Inl Out_Of_Bounds"
proof (induction ws arbitrary: a)
  case (Cons w ws)
  obtain o' ys where w: "w = (o', ys)" by fastforce
  show ?case
  proof (cases "mem_write a o' ys")
    case (Inl f)
    then show ?thesis by (simp add: w mem_write_def split: if_splits)
  next
    case (Inr b)
    then have "length b = length a"
      by (auto simp: mem_write_def split: if_splits)
    then show ?thesis
      using Cons Inr w by (auto simp: mem_write_def split: if_splits)
  qed
qed simp

text \<open>
  The tool never fills a database: the hash of the password takes 33 bytes and the array has 32, so
  the first of the generators writes behind its array, whatever the digest is and whatever the
  database holds.
\<close>

theorem seed_overflows:
  assumes "md5 (lit ''password'') = Some h" and "length stack = HASHED_LEN * 2"
  shows "gen_users Q md5 stack n c = Inl Out_Of_Bounds \<and>
    seed_main Q md5 stack SQLITE_OK d = Inl Out_Of_Bounds"
proof -
  have "(2 * HASHED_LEN, [0]) \<in> set (hash_writes h)"
    by (simp add: hash_writes_def)
  moreover have "length stack < 2 * HASHED_LEN + length [0 :: byte]"
    using assms(2) by simp
  ultimately have "writes (hash_writes h) stack = Inl Out_Of_Bounds"
    by (rule writes_outside)
  then have "gen_users Q md5 stack m c' = Inl Out_Of_Bounds" for m c'
    by (simp add: gen_users_def seed_hash_str_def assms(1))
  then show ?thesis by (simp add: seed_main_def)
qed

theorem seed_overflows_witness:
  "seed_main example_engine (\<lambda>_. Some (zeros 16)) (zeros 32) SQLITE_OK empty_db = Inl Out_Of_Bounds"
  using seed_overflows [of "\<lambda>_. Some (zeros 16)" "zeros 16" "zeros 32" example_engine 0 "start_conn empty_db" empty_db]
  by (simp add: HASHED_LEN_def)

lemma founder_last:
  assumes "0 < m" and "0 < k"
  shows "\<nexists>r. convs_loop Q k n n m x c = Inr r"
proof
  assume "\<exists>r. convs_loop Q k n n m x c = Inr r"
  then obtain r where r: "convs_loop Q k n n m x c = Inr r" by blast
  obtain m' k' where "m = Suc m'" "k = Suc k'"
    using assms by (metis Suc_pred)
  moreover have "length (only_selected n n) = n + 1"
    unfolding only_selected_def length_list_update length_replicate ..
  ultimately show False
    using r by (auto simp: bindE_eq_Inr_iff)
qed

lemma founders_last:
  assumes "0 < m" and "0 < k" and "n \<in> set is"
  shows "\<nexists>r. founders_loop Q m k n is x c = Inr r"
  using assms(3)
proof (induction "is" arbitrary: x c)
  case (Cons i "is")
  show ?case
  proof (cases "i = n")
    case True
    then show ?thesis
      using founder_last [OF assms(1,2)] by (auto simp: bindE_eq_Inr_iff)
  next
    case False
    then show ?thesis
      using Cons by (auto simp: bindE_eq_Inr_iff)
  qed
qed simp

text \<open>
  The generator of conversations never returns either: the first guest of a conversation of the
  last user is the user after the last, and the array of selected users is read behind its end.
\<close>

theorem gen_conv_never_returns:
  assumes "0 < n_convs_per_user" and "0 < n_users_per_conv" and "0 < n_users"
  shows "\<exists>f. gen_conv Q n_convs_per_user n_users_per_conv n_users c = Inl f"
proof (cases "gen_conv Q n_convs_per_user n_users_per_conv n_users c")
  case (Inr r)
  moreover have "n_users \<in> set [1..<n_users + 1]"
    using assms(3) by auto
  ultimately show ?thesis
    using founders_last [OF assms(1,2)] unfolding gen_conv_def by blast
qed blast

theorem gen_conv_never_returns_witness: "\<exists>f. gen_conv example_engine 10 10 20 (start_conn two_users) = Inl f"
  using gen_conv_never_returns [of 10 10 20 example_engine "start_conn two_users"] by simp

text \<open>The pairs the last generator opens a chat for, in its order.\<close>

definition chat_row_ids :: "nat \<Rightarrow> nat \<Rightarrow> nat list" where
  "chat_row_ids n j = filter (\<lambda>x. even (x - j)) [j..<n + 1]"

definition chat_pairs :: "nat \<Rightarrow> (nat \<times> nat) list" where
  "chat_pairs n = concat (map (\<lambda>i. map (Pair i) (chat_row_ids n (i + 1))) [1..<n + 1])"

lemma set_chat_row: "set (chat_row_ids n j) = {x. j \<le> x \<and> x \<le> n \<and> even (x - j)}"
  by (auto simp: chat_row_ids_def)

lemma chat_row_step: "j \<le> n \<Longrightarrow> chat_row_ids n j = j # chat_row_ids n (j + 2)"
proof -
  assume j: "j \<le> n"
  have "filter (\<lambda>x. even (x - j)) [j + 1..<n + 1] = filter (\<lambda>x. even (x - (j + 2))) [j + 2..<n + 1]"
  proof (cases "j + 1 \<le> n")
    case True
    then have "[j + 1..<n + 1] = (j + 1) # [j + 2..<n + 1]"
      by (simp add: upt_conv_Cons del: upt_Suc)
    moreover have "even (x - j) = even (x - (j + 2))" if "x \<in> set [j + 2..<n + 1]" for x
      using that by (auto simp del: upt_Suc)
    ultimately show ?thesis
      by (auto intro!: filter_cong simp del: upt_Suc)
  qed simp
  then show ?thesis
    using j by (simp add: chat_row_ids_def upt_conv_Cons del: upt_Suc)
qed

lemma chat_row_end: "n < j \<Longrightarrow> chat_row_ids n j = []"
  by (simp add: chat_row_ids_def)

definition ready :: "nat \<Rightarrow> conn \<Rightarrow> bool" where
  "ready n c \<longleftrightarrow> quiet c \<and> \<not> cn_mutex c \<and> cn_tx c = None \<and> (\<forall>i. 1 \<le> i \<and> i \<le> n \<longrightarrow> user_exists (cn_db c) i)"

definition parties :: "conn \<Rightarrow> (nat \<times> nat) list" where
  "parties c = map (\<lambda>h. (ch_member1 h, ch_member2 h)) (db_chats (cn_db c))"

lemma chat_create_ready:
  assumes "ready n c" and "1 \<le> i" "i \<le> n" "1 \<le> j" "j \<le> n" and "n < 4294967296"
    and "(i, j) \<notin> set (parties c)"
  shows "\<exists>v c'. chat_create Q (of_nat i) (of_nat j) c = Inr (v, SQLITE_OK, c') \<and> ready n c' \<and>
    parties c' = parties c @ [(i, j)]"
proof -
  have ids: "unat (of_nat i :: u32) = i" "unat (of_nat j :: u32) = j"
    using assms(3,5,6) by (simp_all add: unat_of_nat_u32)
  have "snprintf_query QUERY_SMALL (Ins_chat i j) = Known (Ins_chat i j)"
    using numeric_queries(12) [of "of_nat i" "of_nat j"] ids by simp
  then show ?thesis
    using assms(1-5,7) ids
    by (auto simp: chat_create_def numeric_queries sql_simps ready_def insert_chat_def parties_def
        Let_def image_iff user_exists_def quiet_def)
qed

lemma chats_from_ready:
  assumes "ready n c" and "1 \<le> i" "i < j" and "n < 4294967296"
    and "\<And>x. x \<in> set (chat_row_ids n j) \<Longrightarrow> (i, x) \<notin> set (parties c)"
  shows "\<exists>c'. chats_from Q n i j c = Inr c' \<and> ready n c' \<and>
    parties c' = parties c @ map (Pair i) (chat_row_ids n j)"
  using assms
proof (induction "n + 1 - j" arbitrary: j c rule: less_induct)
  case less
  show ?case
  proof (cases "j \<le> n")
    case True
    obtain v c1 where c1: "chat_create Q (of_nat i) (of_nat j) c = Inr (v, SQLITE_OK, c1)" "ready n c1"
      "parties c1 = parties c @ [(i, j)]"
      using chat_create_ready [of n c i j Q] less.prems True chat_row_step [OF True] by auto
    have "\<exists>c'. chats_from Q n i (j + 2) c1 = Inr c' \<and> ready n c' \<and>
        parties c' = parties c1 @ map (Pair i) (chat_row_ids n (j + 2))"
      using True less.prems c1(2,3) chat_row_step [OF True]
      by (intro less.hyps) (auto simp: set_chat_row)
    then show ?thesis
      using c1 True chat_row_step [OF True] by (subst chats_from.simps) auto
  next
    case False
    then show ?thesis
      using less.prems by (subst chats_from.simps) (simp add: chat_row_end)
  qed
qed

lemma gen_chat_rows_ready:
  assumes "ready n c" and "n < 4294967296" and "distinct is" and "\<And>i. i \<in> set is \<Longrightarrow> 1 \<le> i"
    and "\<And>i x. i \<in> set is \<Longrightarrow> (i, x) \<notin> set (parties c)"
  shows "\<exists>c'. gen_chat_rows Q n is c = Inr c' \<and> ready n c' \<and>
    parties c' = parties c @ concat (map (\<lambda>i. map (Pair i) (chat_row_ids n (i + 1))) is)"
  using assms(1,3-5)
proof (induction "is" arbitrary: c)
  case (Cons i "is")
  then obtain c1 where c1: "chats_from Q n i (i + 1) c = Inr c1" "ready n c1"
    "parties c1 = parties c @ map (Pair i) (chat_row_ids n (i + 1))"
    using chats_from_ready [of n c i "i + 1" Q] assms(2) by auto
  have "\<exists>c'. gen_chat_rows Q n is c1 = Inr c' \<and> ready n c' \<and>
      parties c' = parties c1 @ concat (map (\<lambda>i. map (Pair i) (chat_row_ids n (i + 1))) is)"
    using Cons.prems c1 by (intro Cons.IH) auto
  then show ?case using c1 by auto
qed simp



end
