(* ===== verification/Type_Mapping.thy ===== *)
theory Type_Mapping
  imports Handler Codec
begin

unbundle bit_operations_syntax

text \<open>
  The library of \<^verbatim>\<open>type-mapping\<close>, with which the Java client tries out the mapping of C types: powers of two at every
  width of \<^verbatim>\<open>int.c\<close>, the record \<^verbatim>\<open>common_t\<close> of \<^verbatim>\<open>struct.c\<close> with its encoder and decoder, the union of \<^verbatim>\<open>union.c\<close>, the
  strings of \<^verbatim>\<open>arr.c\<close>, and the socket of \<^verbatim>\<open>client.c\<close> and \<^verbatim>\<open>tcp-glob.c\<close>. A \<^verbatim>\<open>float\<close> or \<^verbatim>\<open>double\<close> is its bit pattern, since it is only
  copied. A pointer to characters is the array it points to, or \<open>None\<close> for \<^verbatim>\<open>NULL\<close>. Strings are shorter than
  an \<^verbatim>\<open>int\<close> can cnt. Output to the terminal is left out, and so are the functions that print
  their argument and return it.
\<close>

section \<open>int.c\<close>

text \<open>The loop doubles a \<^verbatim>\<open>long long\<close>; a result that does not fit is undefined.\<close>

definition fits64 :: "int \<Rightarrow> int res" where
  "fits64 s = (if - (2 ^ 63) \<le> s \<and> s < 2 ^ 63 then Inr s else Inl Int_Overflow)"

fun calc_loop :: "nat \<Rightarrow> int \<Rightarrow> int res" where
  "calc_loop 0 s = Inr s"
| "calc_loop (Suc n) s = bindE (fits64 (s * 2)) (calc_loop n)"

definition calc :: "i32 \<Rightarrow> i32 \<Rightarrow> int res" where
  "calc e r = bindE (calc_loop (nat (sint e)) 1) (\<lambda>s. fits64 (s + sint r))"

definition calc_int8_t :: "i32 \<Rightarrow> i32 \<Rightarrow> 8 word res" where
  "calc_int8_t e r = bindE (calc e r) (\<lambda>s. Inr (of_int s))"

definition calc_int16_t :: "i32 \<Rightarrow> i32 \<Rightarrow> 16 word res" where
  "calc_int16_t e r = bindE (calc e r) (\<lambda>s. Inr (of_int s))"

definition calc_int32_t :: "i32 \<Rightarrow> i32 \<Rightarrow> 32 word res" where
  "calc_int32_t e r = bindE (calc e r) (\<lambda>s. Inr (of_int s))"

definition calc_int64_t :: "i32 \<Rightarrow> i32 \<Rightarrow> 64 word res" where
  "calc_int64_t e r = bindE (calc e r) (\<lambda>s. Inr (of_int s))"

definition calc_u_int8_t :: "i32 \<Rightarrow> i32 \<Rightarrow> 8 word res" where
  "calc_u_int8_t e r = bindE (calc e r) (\<lambda>s. Inr (of_int s))"

definition calc_u_int16_t :: "i32 \<Rightarrow> i32 \<Rightarrow> 16 word res" where
  "calc_u_int16_t e r = bindE (calc e r) (\<lambda>s. Inr (of_int s))"

definition calc_u_int32_t :: "i32 \<Rightarrow> i32 \<Rightarrow> 32 word res" where
  "calc_u_int32_t e r = bindE (calc e r) (\<lambda>s. Inr (of_int s))"

definition calc_u_int64_t :: "i32 \<Rightarrow> i32 \<Rightarrow> 64 word res" where
  "calc_u_int64_t e r = bindE (calc e r) (\<lambda>s. Inr (of_int s))"

section \<open>struct.c\<close>

record common_t =
  cm_c :: byte
  cm_f :: "32 word"
  cm_d :: "64 word"
  cm_int8 :: "8 word"
  cm_int16 :: "16 word"
  cm_int32 :: "32 word"
  cm_int64 :: "64 word"
  cm_u_int8 :: "8 word"
  cm_u_int16 :: "16 word"
  cm_u_int32 :: "32 word"
  cm_u_int64 :: "64 word"
  cm_str1 :: bytes
  cm_str2 :: bytes
  cm_str3 :: "bytes option"
  cm_str4 :: "bytes option"

definition STR_SIZE :: nat where "STR_SIZE = 8192"

text \<open>The size of the struct with its padding: two pointers and the two arrays behind 48 bytes.\<close>

definition SIZEOF_COMMON_T :: nat where "SIZEOF_COMMON_T = 48 + 2 * STR_SIZE + 2 * 8"

definition SEPARATOR :: byte where "SEPARATOR = 58"

fun find_c :: "bytes \<Rightarrow> byte \<Rightarrow> nat res" where
  "find_c [] c = Inl Out_Of_Bounds"
| "find_c (x # s) c = (if x = c then Inr 0 else bindE (find_c s c) (\<lambda>i. Inr (Suc i)))"

text \<open>The bytes of an integer in memory, least significant first.\<close>

definition word_bytes :: "'a :: len word \<Rightarrow> bytes" where
  "word_bytes w = map (\<lambda>i. ucast (drop_bit (8 * i) w)) [0..<LENGTH('a) div 8]"

definition bytes_word :: "bytes \<Rightarrow> 'a :: len word" where
  "bytes_word bs = foldr (\<lambda>b w. ucast b OR push_bit 8 w) bs 0"

text \<open>The macros that copy; the state is the buffer and the number of bytes used.\<close>

fun cpy_attrs :: "bytes list \<Rightarrow> bytes \<times> nat \<Rightarrow> (bytes \<times> nat) res" where
  "cpy_attrs [] x = Inr x"
| "cpy_attrs (a # as) (buff, cnt) =
     bindE (mem_write buff cnt a) (\<lambda>b. cpy_attrs as (b, cnt + length a))"

definition cpy_arr :: "bytes \<Rightarrow> bytes \<times> nat \<Rightarrow> (bytes \<times> nat) res" where
  "cpy_arr a x =
     bindE (cstr a 0) (\<lambda>s.
     bindE (mem_write (fst x) (snd x) s) (\<lambda>b.
     bindE (mem_write b (snd x + length s) [SEPARATOR]) (\<lambda>b'. Inr (b', snd x + length s + 1))))"

definition restore_attr :: "bytes \<Rightarrow> nat \<Rightarrow> ('a :: len word \<times> nat) res" where
  "restore_attr buff cnt =
     bindE (mem_read buff cnt (LENGTH('a) div 8)) (\<lambda>bs. Inr (bytes_word bs, cnt + LENGTH('a) div 8))"

definition restore_arr :: "bytes \<Rightarrow> bytes \<Rightarrow> nat \<Rightarrow> (bytes \<times> nat) res" where
  "restore_arr buff attr cnt =
     bindE (find_c (drop cnt buff) SEPARATOR) (\<lambda>i.
     bindE (mem_read buff cnt i) (\<lambda>bs.
     bindE (mem_write attr 0 bs) (\<lambda>attr'. Inr (attr', cnt + i + 1))))"

definition allocate_and_restore_arr :: "bytes \<Rightarrow> nat \<Rightarrow> (bytes \<times> nat) res" where
  "allocate_and_restore_arr buff cnt =
     bindE (find_c (drop cnt buff) SEPARATOR) (\<lambda>i.
     bindE (mem_read buff cnt i) (\<lambda>bs.
     bindE (mem_write (zeros i) 0 bs) (\<lambda>attr. Inr (attr, cnt + i + 1))))"

text \<open>\<^verbatim>\<open>strcpy\<close> into an array, with the terminator, and into one of \<^verbatim>\<open>strlen\<close> bytes.\<close>

definition strcpy_into :: "bytes \<Rightarrow> bytes \<Rightarrow> bytes res" where
  "strcpy_into dst src = bindE (cstr src 0) (\<lambda>s. mem_write dst 0 (s @ [0]))"

definition strcpy_new :: "bytes option \<Rightarrow> bytes res" where
  "strcpy_new src =
     bindE (deref src) (\<lambda>a. bindE (cstr a 0) (\<lambda>s. strcpy_into (zeros (length s)) a))"

definition zero_common_t :: common_t where
  "zero_common_t = \<lparr>cm_c = 0, cm_f = 0, cm_d = 0, cm_int8 = 0, cm_int16 = 0, cm_int32 = 0, cm_int64 = 0,
     cm_u_int8 = 0, cm_u_int16 = 0, cm_u_int32 = 0, cm_u_int64 = 0, cm_str1 = zeros STR_SIZE, cm_str2 = zeros STR_SIZE,
     cm_str3 = None, cm_str4 = None\<rparr>"

definition copy_common_t :: "common_t \<Rightarrow> common_t res" where
  "copy_common_t i =
     bindE (strcpy_into (zeros STR_SIZE) (cm_str1 i)) (\<lambda>str1.
     bindE (strcpy_into (zeros STR_SIZE) (cm_str2 i)) (\<lambda>str2.
     bindE (strcpy_new (cm_str3 i)) (\<lambda>str3.
     bindE (strcpy_new (cm_str4 i)) (\<lambda>str4.
       Inr (i\<lparr>cm_str1 := str1, cm_str2 := str2, cm_str3 := Some str3, cm_str4 := Some str4\<rparr>)))))"

definition create_common_t ::
    "byte \<Rightarrow> 32 word \<Rightarrow> 64 word \<Rightarrow> 8 word \<Rightarrow> 16 word \<Rightarrow> 32 word \<Rightarrow> 64 word \<Rightarrow> 8 word \<Rightarrow> 16 word \<Rightarrow> 32 word \<Rightarrow> 64 word \<Rightarrow>
     bytes option \<Rightarrow> bytes option \<Rightarrow> bytes option \<Rightarrow> bytes option \<Rightarrow> common_t res" where
  "create_common_t c f d int8 int16 int32 int64 u_int8 u_int16 u_int32 u_int64 str1 str2 str3 str4 =
     bindE (bindE (deref str1) (strcpy_into (zeros STR_SIZE))) (\<lambda>s1.
     bindE (bindE (deref str2) (strcpy_into (zeros STR_SIZE))) (\<lambda>s2.
     bindE (strcpy_new str3) (\<lambda>s3.
     bindE (strcpy_new str4) (\<lambda>s4.
       Inr \<lparr>cm_c = c, cm_f = f, cm_d = d, cm_int8 = int8, cm_int16 = int16, cm_int32 = int32, cm_int64 = int64,
            cm_u_int8 = u_int8, cm_u_int16 = u_int16, cm_u_int32 = u_int32, cm_u_int64 = u_int64,
            cm_str1 = s1, cm_str2 = s2, cm_str3 = Some s3, cm_str4 = Some s4\<rparr>))))"

definition calc_enc_buffer_len_common_t :: "common_t \<Rightarrow> i32 res" where
  "calc_enc_buffer_len_common_t i =
     bindE (bindE (deref (cm_str3 i)) (\<lambda>a. cstr a 0)) (\<lambda>s3.
     bindE (bindE (deref (cm_str4 i)) (\<lambda>a. cstr a 0)) (\<lambda>s4.
       Inr (of_nat SIZEOF_COMMON_T + (of_nat (length s3) + 1) + (of_nat (length s4) + 1) - 2 * 8)))"

text \<open>
  The result is the value of the function, the buffer, and what is stored at \<^verbatim>\<open>len_out\<close>. \<^verbatim>\<open>buff_len\<close> is what the caller says of
  the buffer.
\<close>

definition common_t_to_buffer_sized ::
    "common_t \<Rightarrow> bytes \<Rightarrow> i32 \<Rightarrow> i32 \<Rightarrow> (int \<times> bytes \<times> nat option) res" where
  "common_t_to_buffer_sized i buff buff_len calc_sz =
     (if sint buff_len < sint calc_sz then Inr (0, buff, None)
      else
        bindE (cpy_attrs [word_bytes (cm_c i), word_bytes (cm_f i), word_bytes (cm_d i),
            word_bytes (cm_int8 i), word_bytes (cm_int16 i), word_bytes (cm_int32 i), word_bytes (cm_int64 i),
            word_bytes (cm_u_int8 i), word_bytes (cm_u_int16 i), word_bytes (cm_u_int32 i), word_bytes (cm_u_int64 i)]
          (buff, 0)) (\<lambda>x0.
        bindE (cpy_arr (cm_str1 i) x0) (\<lambda>x1.
        bindE (cpy_arr (cm_str2 i) x1) (\<lambda>x2.
        bindE (bindE (deref (cm_str3 i)) (\<lambda>a. cpy_arr a x2)) (\<lambda>x3.
        bindE (bindE (deref (cm_str4 i)) (\<lambda>a. cpy_arr a x3)) (\<lambda>x4.
          Inr (1, fst x4, Some (snd x4))))))))"

definition common_t_to_buffer :: "common_t \<Rightarrow> bytes \<Rightarrow> i32 \<Rightarrow> (int \<times> bytes \<times> nat option) res" where
  "common_t_to_buffer i buff buff_len =
     bindE (calc_enc_buffer_len_common_t i) (common_t_to_buffer_sized i buff buff_len)"

text \<open>The variant that allocates the buffer returns it without filling it.\<close>

definition c_common_t_to_buffer :: "common_t \<Rightarrow> bytes res" where
  "c_common_t_to_buffer i = bindE (calc_enc_buffer_len_common_t i) (\<lambda>sz. Inr (zeros (nat (sint sz))))"

definition decode_common_t :: "bytes \<Rightarrow> common_t \<Rightarrow> common_t res" where
  "decode_common_t buff out =
     bindE (restore_attr buff 0) (\<lambda>(c, n).
     bindE (restore_attr buff n) (\<lambda>(f, n).
     bindE (restore_attr buff n) (\<lambda>(d, n).
     bindE (restore_attr buff n) (\<lambda>(int8, n).
     bindE (restore_attr buff n) (\<lambda>(int16, n).
     bindE (restore_attr buff n) (\<lambda>(int32, n).
     bindE (restore_attr buff n) (\<lambda>(int64, n).
     bindE (restore_attr buff n) (\<lambda>(u_int8, n).
     bindE (restore_attr buff n) (\<lambda>(u_int16, n).
     bindE (restore_attr buff n) (\<lambda>(u_int32, n).
     bindE (restore_attr buff n) (\<lambda>(u_int64, n).
     bindE (restore_arr buff (cm_str1 out) n) (\<lambda>(str1, n).
     bindE (restore_arr buff (cm_str2 out) n) (\<lambda>(str2, n).
     bindE (allocate_and_restore_arr buff n) (\<lambda>(str3, n).
     bindE (allocate_and_restore_arr buff n) (\<lambda>(str4, n).
       Inr \<lparr>cm_c = c, cm_f = f, cm_d = d, cm_int8 = int8, cm_int16 = int16, cm_int32 = int32, cm_int64 = int64,
            cm_u_int8 = u_int8, cm_u_int16 = u_int16, cm_u_int32 = u_int32, cm_u_int64 = u_int64,
            cm_str1 = str1, cm_str2 = str2, cm_str3 = Some str3, cm_str4 = Some str4\<rparr>)))))))))))))))"

definition c_decode_common_t :: "bytes \<Rightarrow> common_t res" where
  "c_decode_common_t buff = decode_common_t buff zero_common_t"

section \<open>union.c\<close>

text \<open>The union as the eight bytes it occupies; a pointer is an address.\<close>

type_synonym com_union_t = bytes

definition set_com_union_t_common_t :: "com_union_t \<Rightarrow> 64 word \<Rightarrow> com_union_t res" where
  "set_com_union_t_common_t u s = mem_write u 0 (word_bytes s)"

definition com_union_t_get_common_t :: "com_union_t \<Rightarrow> 64 word res" where
  "com_union_t_get_common_t u = bindE (mem_read u 0 8) (\<lambda>bs. Inr (bytes_word bs))"

definition create_com_union_t_int :: "com_union_t res" where
  "create_com_union_t_int = mem_write (zeros 8) 0 [1]"

definition create_com_union_t_str :: "64 word \<Rightarrow> com_union_t res" where
  "create_com_union_t_str hello = mem_write (zeros 8) 0 (word_bytes hello)"

text \<open>The example record is made first; \<open>p\<close> is its address.\<close>

definition create_com_union_t_common_t :: "64 word \<Rightarrow> com_union_t res" where
  "create_com_union_t_common_t p =
     bindE (create_common_t 50 0x3F99999A 0x400B333333333333 3 6 7 8 9 10 11 12 (Some [97, 98, 99, 0])
       (Some ([100, 101] @ replicate 57 102 @ [0])) (Some [103, 104, 105, 0]) (Some [107, 108, 109, 0]))
       (\<lambda>_. set_com_union_t_common_t (zeros 8) p)"

section \<open>arr.c\<close>

text \<open>A format in which only \<^verbatim>\<open>%%\<close> is converted needs no argument; another conversion reads one that is not there.\<close>

fun printf_format :: "bytes \<Rightarrow> unit res" where
  "printf_format [] = Inr ()"
| "printf_format (x # xs) =
     (if x \<noteq> 37 then printf_format xs
      else case xs of y # ys \<Rightarrow> if y = 37 then printf_format ys else Inl Uninitialised | [] \<Rightarrow> Inl Uninitialised)"

definition in_char :: "bytes \<Rightarrow> unit res" where
  "in_char str = printf_format str"

definition io_char :: "bytes \<Rightarrow> bytes res" where
  "io_char str =
     bindE (mem_write (zeros 100) 0 [65, 58, 0]) (\<lambda>b.
     bindE (cstr b 0) (\<lambda>s.
     bindE (mem_write b (length s) (str @ [0])) (\<lambda>buff.
     bindE (cstr buff 0) (\<lambda>format.
     bindE (printf_format format) (\<lambda>_. Inr buff)))))"

section \<open>client.c and tcp-glob.c\<close>

text \<open>The static descriptor and the descriptors that were closed. The results of the system calls are inputs.\<close>

record tm_client =
  tm_sockfd :: int
  tm_closed :: "int list"

definition tm_close_conn :: "tm_client \<Rightarrow> tm_client" where
  "tm_close_conn s = s\<lparr>tm_sockfd := -1, tm_closed := tm_sockfd s # tm_closed s\<rparr>"

definition tm_connect_server :: "int \<Rightarrow> bool \<Rightarrow> tm_client \<Rightarrow> int \<times> tm_client" where
  "tm_connect_server sock connect_ok s =
     (let s1 = s\<lparr>tm_sockfd := sock\<rparr>
      in if sock < 0 then (-1, s1)
         else if \<not> connect_ok then (-1, s1\<lparr>tm_closed := sock # tm_closed s1\<rparr>)
         else (sock, s1))"

definition simple_send :: "int \<Rightarrow> tm_client \<Rightarrow> tm_client" where
  "simple_send sent s = (if sent \<le> 0 then tm_close_conn s else s)"

text \<open>
  What \<^verbatim>\<open>simple_recv\<close> ends with: \<^verbatim>\<open>NULL\<close>, a string, a write into the freed buffer, a write behind it, or the end of the
  process. \<open>Inl False\<close> is the end of the connection, \<open>Inl True\<close> an error, \<open>Inr\<close> the bytes that arrived.
\<close>

datatype recv_end = R_null | R_str bytes | R_freed | R_behind | R_exit

definition simple_recv :: "bool + bytes \<Rightarrow> tm_client \<Rightarrow> recv_end \<times> tm_client" where
  "simple_recv ev s =
     (if tm_sockfd s = -1 then (R_null, s)
      else case ev of
        Inl False \<Rightarrow> (R_freed, tm_close_conn s)
      | Inl True \<Rightarrow> (R_exit, tm_close_conn s)
      | Inr bs \<Rightarrow>
          let got = take 1024 bs
          in (case mem_write (got @ zeros (1024 - length got)) (length got) [0] of
                Inl _ \<Rightarrow> (R_behind, s)
              | Inr buff \<Rightarrow> (R_str buff, s)))"

definition send_and_recv :: "int \<Rightarrow> bool + bytes \<Rightarrow> tm_client \<Rightarrow> recv_end \<times> tm_client" where
  "send_and_recv sent ev s = simple_recv ev (simple_send sent s)"

text \<open>The socket stays open when the connection fails.\<close>

definition run_echo_tcp_client :: "int \<Rightarrow> bool \<Rightarrow> int" where
  "run_echo_tcp_client client_sock connect_ok =
     (if client_sock \<le> 0 then client_sock else if \<not> connect_ok then 0 else client_sock)"

section \<open>Words as bytes\<close>

lemma length_word_bytes [simp]: "length (word_bytes (w :: 'a :: len word)) = LENGTH('a) div 8"
  by (simp add: word_bytes_def)

lemma bit_bytes_word:
  "bit (bytes_word bs :: 'a :: len word) n \<longleftrightarrow> n < LENGTH('a) \<and> n div 8 < length bs \<and> bit (bs ! (n div 8)) (n mod 8)"
proof (induction bs arbitrary: n)
  case Nil
  then show ?case by (simp add: bytes_word_def)
next
  case (Cons b bs)
  have step: "bytes_word (b # bs) = ucast b OR push_bit 8 (bytes_word bs :: 'a word)"
    by (simp add: bytes_word_def)
  show ?case
  proof (cases "n < 8")
    case True
    then show ?thesis by (auto simp: step bit_simps)
  next
    case False
    then have n: "n div 8 = Suc ((n - 8) div 8)" "n mod 8 = (n - 8) mod 8"
      by (simp_all add: div_if mod_if [of n])
    have "\<not> bit b n"
      using False by (auto dest: bit_imp_le_length)
    then show ?thesis
      using False Cons.IH [of "n - 8"] by (auto simp: step bit_simps n)
  qed
qed

lemma word_bytes_inverse:
  assumes "8 dvd LENGTH('a :: len)"
  shows "bytes_word (word_bytes (w :: 'a word)) = w"
proof (rule bit_word_eqI)
  fix n
  assume n: "n < LENGTH('a)"
  then have "n div 8 < LENGTH('a) div 8"
    using assms by (auto elim!: dvdE)
  then show "bit (bytes_word (word_bytes w) :: 'a word) n = bit w n"
    using n by (auto simp: bit_bytes_word word_bytes_def bit_simps)
qed

section \<open>Powers of two\<close>

lemma fits64_ok: "0 < s \<Longrightarrow> s < 2 ^ 63 \<Longrightarrow> fits64 s = Inr s"
  by (simp add: fits64_def)

lemma calc_loop_value:
  "0 < s \<Longrightarrow> s * 2 ^ n < 2 ^ 63 \<Longrightarrow> calc_loop n s = Inr (s * 2 ^ n)"
proof (induction n arbitrary: s)
  case (Suc n)
  have "s * 2 \<le> s * 2 ^ Suc n"
    using Suc.prems(1) mult_left_mono [of 2 "2 ^ Suc n" s] by simp
  then have "fits64 (s * 2) = Inr (s * 2)"
    using Suc.prems by (intro fits64_ok) linarith+
  then show ?case
    using Suc.IH [of "s * 2"] Suc.prems by (simp add: mult.assoc)
qed simp

lemma calc_loop_overflow:
  "0 < s \<Longrightarrow> s < 2 ^ 63 \<Longrightarrow> 2 ^ 63 \<le> s * 2 ^ n \<Longrightarrow> calc_loop n s = Inl Int_Overflow"
proof (induction n arbitrary: s)
  case (Suc n)
  show ?case
  proof (cases "s * 2 < 2 ^ 63")
    case True
    then have "fits64 (s * 2) = Inr (s * 2)"
      using Suc.prems(1) by (intro fits64_ok) simp_all
    then show ?thesis
      using Suc.IH [of "s * 2"] True Suc.prems by (simp add: mult.assoc)
  next
    case False
    then show ?thesis by (simp add: fits64_def)
  qed
qed simp

lemma calc_value: "calc e r = (if sint e \<le> 62 then Inr (2 ^ nat (sint e) + sint r) else Inl Int_Overflow)"
proof (cases "sint e \<le> 62")
  case True
  have r: "- (2 ^ 31) \<le> sint r" "sint r < 2 ^ 31"
    using sint_ge [of r] sint_lt [of r] by simp_all
  have pow: "(2 :: int) ^ nat (sint e) \<le> 2 ^ 62"
    using True by (intro power_increasing) auto
  moreover have "0 < (2 :: int) ^ nat (sint e)" by simp
  ultimately have "fits64 (2 ^ nat (sint e) + sint r) = Inr (2 ^ nat (sint e) + sint r)"
    using r unfolding fits64_def by (simp del: zero_less_power)
  moreover have "calc_loop (nat (sint e)) 1 = Inr (1 * 2 ^ nat (sint e))"
    using pow by (intro calc_loop_value) simp_all
  ultimately show ?thesis
    using True by (simp add: calc_def)
next
  case False
  then have "(2 :: int) ^ 63 \<le> 1 * 2 ^ nat (sint e)"
    by (subst mult_1, intro power_increasing) auto
  then show ?thesis
    using False calc_loop_overflow [of 1 "nat (sint e)"] by (simp add: calc_def)
qed

text \<open>Every width gets the power of two and the rest modulo its range; from 63 on the power does not fit.\<close>

theorem calc_results:
  "calc_int8_t e r = (if sint e \<le> 62 then Inr (2 ^ nat (sint e) + scast r) else Inl Int_Overflow)"
  "calc_int16_t e r = (if sint e \<le> 62 then Inr (2 ^ nat (sint e) + scast r) else Inl Int_Overflow)"
  "calc_int32_t e r = (if sint e \<le> 62 then Inr (2 ^ nat (sint e) + r) else Inl Int_Overflow)"
  "calc_int64_t e r = (if sint e \<le> 62 then Inr (2 ^ nat (sint e) + scast r) else Inl Int_Overflow)"
  "calc_u_int8_t e r = calc_int8_t e r" "calc_u_int16_t e r = calc_int16_t e r"
  "calc_u_int32_t e r = calc_int32_t e r" "calc_u_int64_t e r = calc_int64_t e r"
  by (simp_all add: calc_value calc_int8_t_def calc_int16_t_def calc_int32_t_def calc_int64_t_def calc_u_int8_t_def
      calc_u_int16_t_def calc_u_int32_t_def calc_u_int64_t_def)

section \<open>Encoding and decoding\<close>

lemma cpy_attrs_at:
  "length (concat as) \<le> length q \<Longrightarrow>
   cpy_attrs as (p @ q, length p) = Inr (p @ concat as @ drop (length (concat as)) q, length p + length (concat as))"
proof (induction as arbitrary: p q)
  case (Cons a as)
  have "mem_write (p @ q) (length p) a = Inr ((p @ a) @ drop (length a) q)"
    using Cons.prems by (simp add: mem_write_def)
  then show ?case
    using Cons.IH [of "drop (length a) q" "p @ a"] Cons.prems by (simp add: add.assoc add.commute)
qed simp

lemma cpy_arr_at:
  assumes "cstr a 0 = Inr s" and "length s < length q"
  shows "cpy_arr a (p @ q, length p) = Inr ((p @ s @ [SEPARATOR]) @ drop (length s + 1) q, length (p @ s @ [SEPARATOR]))"
proof -
  have "mem_write (p @ q) (length p) s = Inr ((p @ s) @ drop (length s) q)"
    using assms(2) by (simp add: mem_write_def)
  moreover have "mem_write ((p @ s) @ drop (length s) q) (length p + length s) [SEPARATOR] =
      Inr ((p @ s) @ [SEPARATOR] @ drop (length s + 1) q)"
    using assms(2) by (simp add: mem_write_def)
  ultimately show ?thesis
    using assms(1) by (simp add: cpy_arr_def)
qed

lemma find_c_at: "SEPARATOR \<notin> set s \<Longrightarrow> find_c (s @ SEPARATOR # rest) SEPARATOR = Inr (length s)"
  by (induction s) auto

lemma restore_attr_at:
  assumes "take (LENGTH('a) div 8) (drop n b) = word_bytes (w :: 'a :: len word)" and "8 dvd LENGTH('a)"
  shows "restore_attr b n = Inr (w, n + LENGTH('a) div 8)"
proof -
  have "0 < LENGTH('a) div 8"
    using assms(2) len_gt_0 [where 'a = 'a] by (auto elim!: dvdE simp del: len_gt_0)
  then have "n + LENGTH('a) div 8 \<le> length b"
    using arg_cong [OF assms(1), of length] by (simp add: min_def split: if_splits)
  then show ?thesis
    using assms(1) word_bytes_inverse [OF assms(2), of w] by (simp add: restore_attr_def mem_read_def)
qed

lemma restore_arr_at:
  assumes "SEPARATOR \<notin> set s" and "length s \<le> length a"
  shows "restore_arr (p @ s @ SEPARATOR # q) a (length p) = Inr (s @ drop (length s) a, length (p @ s @ [SEPARATOR]))"
  using assms find_c_at [OF assms(1), of q] by (simp add: restore_arr_def mem_read_def mem_write_def)

lemma allocate_and_restore_at:
  assumes "SEPARATOR \<notin> set s"
  shows "allocate_and_restore_arr (p @ s @ SEPARATOR # q) (length p) = Inr (s, length (p @ s @ [SEPARATOR]))"
  using find_c_at [OF assms, of q] by (simp add: allocate_and_restore_arr_def mem_read_def mem_write_def)

text \<open>The record in a buffer.\<close>

definition attrs :: "common_t \<Rightarrow> bytes list" where
  "attrs i = [word_bytes (cm_c i), word_bytes (cm_f i), word_bytes (cm_d i),
     word_bytes (cm_int8 i), word_bytes (cm_int16 i), word_bytes (cm_int32 i), word_bytes (cm_int64 i),
     word_bytes (cm_u_int8 i), word_bytes (cm_u_int16 i), word_bytes (cm_u_int32 i), word_bytes (cm_u_int64 i)]"

lemma length_attrs [simp]: "length (concat (attrs i)) = 43"
  by (simp add: attrs_def)

definition encoded :: "common_t \<Rightarrow> bytes \<Rightarrow> bytes \<Rightarrow> bytes \<Rightarrow> bytes \<Rightarrow> bytes" where
  "encoded i s1 s2 s3 s4 =
     concat (attrs i) @ s1 @ SEPARATOR # s2 @ SEPARATOR # s3 @ SEPARATOR # s4 @ [SEPARATOR]"

lemma encode_at:
  assumes "cstr (cm_str1 i) 0 = Inr s1" "cstr (cm_str2 i) 0 = Inr s2"
    and "cm_str3 i = Some a3" "cstr a3 0 = Inr s3" "cm_str4 i = Some a4" "cstr a4 0 = Inr s4"
    and "length (encoded i s1 s2 s3 s4) \<le> length buff" and "sint calc_sz \<le> sint buff_len"
  shows "common_t_to_buffer_sized i buff buff_len calc_sz =
    Inr (1, encoded i s1 s2 s3 s4 @ drop (length (encoded i s1 s2 s3 s4)) buff, Some (length (encoded i s1 s2 s3 s4)))"
proof -
  let ?p0 = "concat (attrs i)" and ?q0 = "drop 43 buff"
  let ?p1 = "?p0 @ s1 @ [SEPARATOR]" and ?q1 = "drop (length s1 + 1) ?q0"
  let ?p2 = "?p1 @ s2 @ [SEPARATOR]" and ?q2 = "drop (length s2 + 1) ?q1"
  let ?p3 = "?p2 @ s3 @ [SEPARATOR]" and ?q3 = "drop (length s3 + 1) ?q2"
  let ?p4 = "?p3 @ s4 @ [SEPARATOR]" and ?q4 = "drop (length s4 + 1) ?q3"
  define x where "x = (\<lambda>p q :: bytes. (p @ q, length p))"
  have len: "43 + length s1 + length s2 + length s3 + length s4 + 4 \<le> length buff"
    using assms(7) by (simp add: encoded_def)
  have "cpy_attrs (attrs i) (buff, 0) = Inr (x ?p0 ?q0)"
    using cpy_attrs_at [of "attrs i" buff "[]"] len by (simp add: x_def)
  moreover have "cpy_arr (cm_str1 i) (x ?p0 ?q0) = Inr (x ?p1 ?q1)" "cpy_arr (cm_str2 i) (x ?p1 ?q1) = Inr (x ?p2 ?q2)"
      "cpy_arr a3 (x ?p2 ?q2) = Inr (x ?p3 ?q3)" "cpy_arr a4 (x ?p3 ?q3) = Inr (x ?p4 ?q4)"
    unfolding x_def by (rule cpy_arr_at; use len assms in simp)+
  ultimately have "common_t_to_buffer_sized i buff buff_len calc_sz = Inr (1, fst (x ?p4 ?q4), Some (snd (x ?p4 ?q4)))"
    using assms(3,5,8) unfolding common_t_to_buffer_sized_def attrs_def [symmetric] by (simp add: deref_def)
  then show ?thesis
    by (simp add: x_def encoded_def ac_simps)
qed

lemma decode_attrs:
  assumes "b = concat (attrs i) @ rest"
  shows "restore_attr b 0 = Inr (cm_c i, 1)" "restore_attr b 1 = Inr (cm_f i, 5)" "restore_attr b 5 = Inr (cm_d i, 13)"
    "restore_attr b 13 = Inr (cm_int8 i, 14)" "restore_attr b 14 = Inr (cm_int16 i, 16)"
    "restore_attr b 16 = Inr (cm_int32 i, 20)" "restore_attr b 20 = Inr (cm_int64 i, 28)"
    "restore_attr b 28 = Inr (cm_u_int8 i, 29)" "restore_attr b 29 = Inr (cm_u_int16 i, 31)"
    "restore_attr b 31 = Inr (cm_u_int32 i, 35)" "restore_attr b 35 = Inr (cm_u_int64 i, 43)"
  by (subst restore_attr_at; simp add: assms attrs_def)+

lemma decode_at:
  assumes "SEPARATOR \<notin> set s1" "SEPARATOR \<notin> set s2" "SEPARATOR \<notin> set s3" "SEPARATOR \<notin> set s4"
    and "length s1 \<le> length (cm_str1 out)" "length s2 \<le> length (cm_str2 out)"
  shows "decode_common_t (encoded i s1 s2 s3 s4 @ rest) out =
    Inr (i\<lparr>cm_str1 := s1 @ drop (length s1) (cm_str1 out), cm_str2 := s2 @ drop (length s2) (cm_str2 out),
      cm_str3 := Some s3, cm_str4 := Some s4\<rparr>)"
proof -
  let ?b = "encoded i s1 s2 s3 s4 @ rest" and ?p0 = "concat (attrs i)"
  let ?p1 = "?p0 @ s1 @ [SEPARATOR]"
  let ?p2 = "?p1 @ s2 @ [SEPARATOR]"
  let ?p3 = "?p2 @ s3 @ [SEPARATOR]"
  have b: "?b = ?p0 @ s1 @ SEPARATOR # s2 @ SEPARATOR # s3 @ SEPARATOR # s4 @ SEPARATOR # rest"
    "?b = ?p1 @ s2 @ SEPARATOR # s3 @ SEPARATOR # s4 @ SEPARATOR # rest"
    "?b = ?p2 @ s3 @ SEPARATOR # s4 @ SEPARATOR # rest" "?b = ?p3 @ s4 @ SEPARATOR # rest"
    by (simp_all add: encoded_def)
  have "restore_arr ?b (cm_str1 out) 43 = Inr (s1 @ drop (length s1) (cm_str1 out), length ?p1)"
    using restore_arr_at [OF assms(1,5), of ?p0] unfolding b(1) by simp
  moreover have "restore_arr ?b (cm_str2 out) (length ?p1) = Inr (s2 @ drop (length s2) (cm_str2 out), length ?p2)"
    unfolding b(2) by (rule restore_arr_at [OF assms(2,6)])
  moreover have "allocate_and_restore_arr ?b (length ?p2) = Inr (s3, length ?p3)"
    unfolding b(3) by (rule allocate_and_restore_at [OF assms(3)])
  moreover have "\<exists>n. allocate_and_restore_arr ?b (length ?p3) = Inr (s4, n)"
    unfolding b(4) using allocate_and_restore_at [OF assms(4)] by blast
  ultimately show ?thesis
    unfolding decode_common_t_def using decode_attrs [OF b(1)] by (auto simp del: length_append)
qed

lemma length_before_stop: "\<exists>x\<in>set a. \<not> P x \<Longrightarrow> length (takeWhile P a) < length a"
  by (induction a) auto

lemma cstr_short: "cstr a 0 = Inr s \<Longrightarrow> length s < length a"
  by (auto simp: cstr_def intro: length_before_stop split: if_splits)

lemma sint_of_nat_31: "n < 2 ^ 31 \<Longrightarrow> sint (of_nat n :: i32) = int n"
  by (simp add: signed_of_nat signed_take_bit_int_eq_self)

text \<open>Records that a buffer of \<open>n\<close> bytes takes, and what comes back of one.\<close>

definition c_string :: "bytes \<Rightarrow> bytes" where
  "c_string a = takeWhile (\<lambda>b. b \<noteq> 0) a"

definition common_wf :: "nat \<Rightarrow> common_t \<Rightarrow> bool" where
  "common_wf n i \<longleftrightarrow> length (cm_str1 i) = STR_SIZE \<and> length (cm_str2 i) = STR_SIZE \<and>
     list_all (\<lambda>a. 0 \<in> set a \<and> SEPARATOR \<notin> set (c_string a))
       [cm_str1 i, cm_str2 i, the (cm_str3 i), the (cm_str4 i)] \<and>
     cm_str3 i \<noteq> None \<and> cm_str4 i \<noteq> None \<and> n < 2 ^ 31 \<and>
     SIZEOF_COMMON_T + (length (c_string (the (cm_str3 i))) + 1) + (length (c_string (the (cm_str4 i))) + 1) \<le> n + 2 * 8"

definition common_view :: "common_t \<Rightarrow> common_t" where
  "common_view i =
     (let field = (\<lambda>a. c_string a @ zeros (STR_SIZE - length (c_string a)))
      in i\<lparr>cm_str1 := field (cm_str1 i), cm_str2 := field (cm_str2 i),
           cm_str3 := map_option c_string (cm_str3 i), cm_str4 := map_option c_string (cm_str4 i)\<rparr>)"

lemma common_encodes:
  assumes "common_wf (length buff) i"
  shows "\<exists>b n. common_t_to_buffer i buff (of_nat (length buff)) = Inr (1, b, Some n) \<and> length b = length buff \<and>
    c_decode_common_t (b @ tail) = Inr (common_view i)"
proof -
  obtain a3 a4 where a: "cm_str3 i = Some a3" "cm_str4 i = Some a4"
    using assms by (auto simp: common_wf_def)
  let ?s1 = "c_string (cm_str1 i)" and ?s2 = "c_string (cm_str2 i)" and ?s3 = "c_string a3" and ?s4 = "c_string a4"
  have wf: "length (cm_str1 i) = STR_SIZE" "length (cm_str2 i) = STR_SIZE" "length buff < 2 ^ 31"
      "SIZEOF_COMMON_T + length ?s3 + length ?s4 \<le> length buff + 14"
    and sep: "SEPARATOR \<notin> set ?s1" "SEPARATOR \<notin> set ?s2" "SEPARATOR \<notin> set ?s3" "SEPARATOR \<notin> set ?s4"
    and str: "cstr (cm_str1 i) 0 = Inr ?s1" "cstr (cm_str2 i) 0 = Inr ?s2" "cstr a3 0 = Inr ?s3" "cstr a4 0 = Inr ?s4"
    using assms by (simp_all add: common_wf_def a cstr_def c_string_def)
  have len: "length ?s1 < STR_SIZE" "length ?s2 < STR_SIZE"
    using cstr_short [OF str(1)] cstr_short [OF str(2)] wf(1,2) by simp_all
  let ?sz = "of_nat (SIZEOF_COMMON_T + length ?s3 + length ?s4 - 14) :: i32"
  have sz: "calc_enc_buffer_len_common_t i = Inr ?sz"
    using a str(3,4) by (simp add: calc_enc_buffer_len_common_t_def deref_def SIZEOF_COMMON_T_def STR_SIZE_def)
  have "sint ?sz \<le> sint (of_nat (length buff) :: i32)"
    using wf(3,4) sint_of_nat_31 [of "SIZEOF_COMMON_T + length ?s3 + length ?s4 - 14"] sint_of_nat_31 [of "length buff"]
    by linarith
  moreover have "length (encoded i ?s1 ?s2 ?s3 ?s4) \<le> length buff"
    using len wf(4) by (simp add: encoded_def SIZEOF_COMMON_T_def)
  ultimately show ?thesis
    using encode_at [OF str(1,2) a(1) str(3) a(2) str(4), of buff ?sz "of_nat (length buff)"] sz len
      decode_at [OF sep, of zero_common_t i] a
    by (simp add: common_t_to_buffer_def c_decode_common_t_def zero_common_t_def common_view_def Let_def)
qed

text \<open>The buffers of the examples have 100000 bytes.\<close>

definition RECORD_LEN :: nat where "RECORD_LEN = 100000"

definition encode_record :: "common_t \<Rightarrow> bytes \<Rightarrow> bytes res" where
  "encode_record i buff = bindE (common_t_to_buffer i buff (of_nat (length buff))) (\<lambda>(ok, b, n). Inr b)"

interpretation tc: codec encode_record c_decode_common_t "common_wf RECORD_LEN" common_view RECORD_LEN
proof unfold_locales
  fix m and buf b tail :: bytes
  assume m: "common_wf RECORD_LEN m" "length buf = RECORD_LEN"
  then show "\<exists>b. encode_record m buf = Inr b \<and> length b = RECORD_LEN"
    using common_encodes [of buf m "[]"] by (auto simp: encode_record_def)
  assume "encode_record m buf = Inr b"
  then show "c_decode_common_t (b @ tail) = Inr (common_view m)"
    using common_encodes [of buf m tail] m by (auto simp: encode_record_def)
qed

text \<open>
  C20: A record that fits is encoded inside the buffer, whatever the buffer held, and decoding the buffer gives back
  every number and every string, when no string has the separator: the two strings in the record with
  their terminator, the two allocated ones exactly to their last character, without a terminator. Two
  records that are encoded by the same bytes are therefore the same.
\<close>

theorem common_t_roundtrip:
  assumes "common_wf RECORD_LEN i" and "length buff = RECORD_LEN"
  shows "\<exists>b n. common_t_to_buffer i buff (of_nat RECORD_LEN) = Inr (1, b, Some n) \<and> length b = RECORD_LEN \<and>
    c_decode_common_t b = Inr (common_view i) \<and>
    (\<forall>j. common_wf RECORD_LEN j \<longrightarrow> encode_record j buff = Inr b \<longrightarrow> common_view j = common_view i)"
proof -
  obtain b n where b: "common_t_to_buffer i buff (of_nat RECORD_LEN) = Inr (1, b, Some n)" "length b = RECORD_LEN"
    and "c_decode_common_t (b @ []) = Inr (common_view i)"
    using common_encodes [of buff i "[]"] assms by auto
  moreover have "encode_record i buff = Inr b"
    using b(1) assms(2) by (simp add: encode_record_def)
  ultimately show ?thesis
    using tc.unambiguous [OF _ assms(1,2,2), of _ b b "[]" "[]"] by fastforce
qed

text \<open>A record whose strings are set, for examples.\<close>

definition example_common_t :: common_t where
  "example_common_t = zero_common_t\<lparr>cm_c := 50, cm_f := 0x3F99999A, cm_int16 := -6, cm_u_int64 := 12,
     cm_str1 := [97, 98] @ zeros (STR_SIZE - 2), cm_str3 := Some [103, 104, 0], cm_str4 := Some [0]\<rparr>"

theorem common_t_roundtrip_witness:
  "\<exists>b n. common_t_to_buffer example_common_t (zeros RECORD_LEN) (of_nat RECORD_LEN) = Inr (1, b, Some n) \<and>
    c_decode_common_t b = Inr (example_common_t\<lparr>cm_str3 := Some [103, 104], cm_str4 := Some []\<rparr>)"
proof -
  have "common_wf RECORD_LEN example_common_t"
    by (simp add: common_wf_def example_common_t_def zero_common_t_def c_string_def RECORD_LEN_def SIZEOF_COMMON_T_def
        STR_SIZE_def SEPARATOR_def)
  moreover have "common_view example_common_t = example_common_t\<lparr>cm_str3 := Some [103, 104], cm_str4 := Some []\<rparr>"
    by (simp add: common_view_def example_common_t_def zero_common_t_def c_string_def STR_SIZE_def)
  ultimately show ?thesis
    using common_t_roundtrip [of example_common_t "zeros RECORD_LEN"] by auto
qed

section \<open>Where the copies go wrong\<close>

text \<open>The array for a copy has no room for the terminator, so nothing is ever copied or created.\<close>

lemma strcpy_new_overflows: "\<exists>f. strcpy_new src = Inl f"
  by (auto simp: strcpy_new_def strcpy_into_def deref_def mem_write_def bindE_def split: option.splits sum.splits)

theorem records_never_copied:
  "\<exists>f. copy_common_t i = Inl f"
  "\<exists>f. create_common_t c g d int8 int16 int32 int64 u_int8 u_int16 u_int32 u_int64 str1 str2 str3 str4 = Inl f"
  using strcpy_new_overflows [of "cm_str3 i"] strcpy_new_overflows [of str3]
  by (auto simp: copy_common_t_def create_common_t_def bindE_def split: sum.splits)

text \<open>A record that was decoded cannot be encoded again: its third string has no end.\<close>

theorem decoded_cannot_be_encoded:
  assumes "decode_common_t b out = Inr i" and "is_cstr (the (cm_str3 i))"
  shows "common_t_to_buffer i buff buff_len = Inl Out_Of_Bounds"
proof -
  obtain s3 where "cm_str3 i = Some s3"
    using assms(1) by (auto simp: decode_common_t_def bindE_eq_Inr_iff)
  then show ?thesis
    using assms(2) by (simp add: common_t_to_buffer_def calc_enc_buffer_len_common_t_def deref_def cstr_def is_cstr_def)
qed

section \<open>The union, the strings and the socket\<close>

lemma union_set_get:
  "length u = 8 \<Longrightarrow> bindE (set_com_union_t_common_t u p) com_union_t_get_common_t = Inr p"
  using word_bytes_inverse [of p] by (simp add: set_com_union_t_common_t_def com_union_t_get_common_t_def mem_write_def mem_read_def)

text \<open>A union that was made as a number has the pointer 1, and the example record is never made.\<close>

lemma union_examples:
  "bindE create_com_union_t_int com_union_t_get_common_t = Inr 1" "\<exists>f. create_com_union_t_common_t p = Inl f"
proof -
  show "bindE create_com_union_t_int com_union_t_get_common_t = Inr 1"
    by (simp add: create_com_union_t_int_def com_union_t_get_common_t_def mem_write_def mem_read_def bytes_word_def
        numeral_eq_Suc)
  show "\<exists>f. create_com_union_t_common_t p = Inl f"
    using records_never_copied(2) unfolding create_com_union_t_common_t_def by (metis bindE_Inl)
qed

lemma printf_format_plain: "37 \<notin> set xs \<Longrightarrow> printf_format xs = Inr ()"
  by (induction xs) auto

lemma io_char_value:
  assumes "is_cstr str" and "37 \<notin> set str"
  shows "io_char str = (if length str \<le> 97 then Inr ([65, 58] @ str @ zeros (98 - length str)) else Inl Out_Of_Bounds)"
proof -
  let ?b = "[65, 58] @ zeros 98 :: bytes"
  have z: "zeros 98 = 0 # zeros 97"
    by (simp flip: replicate_Suc)
  have b: "mem_write (zeros 100) 0 [65, 58, 0] = Inr ?b" "cstr ?b 0 = Inr [65, 58]"
    by (simp_all add: z mem_write_def cstr_def)
  show ?thesis
  proof (cases "length str \<le> 97")
    case True
    have "cstr ([65, 58] @ str @ zeros (98 - length str)) 0 = Inr ([65, 58] @ str)"
      using assms(1) True by (auto simp: cstr_def is_cstr_def takeWhile_append)
    moreover have "mem_write ?b (length [65 :: byte, 58]) (str @ [0]) = Inr ([65, 58] @ str @ zeros (98 - length str))"
      using True by (simp add: mem_write_def Suc_diff_le flip: replicate_Suc)
    ultimately show ?thesis
      using True assms(2) b printf_format_plain [of "[65, 58] @ str"] unfolding io_char_def by simp
  next
    case False
    then have "mem_write ?b (length [65 :: byte, 58]) (str @ [0]) = Inl Out_Of_Bounds"
      by (simp add: mem_write_def)
    then show ?thesis
      using False b unfolding io_char_def by simp
  qed
qed

text \<open>
  The client follows a freed buffer exactly when the server has closed the connection, and writes behind the
  buffer exactly when 1024 bytes or more have arrived.
\<close>

lemma simple_recv_faults:
  assumes "tm_sockfd s \<noteq> -1"
  shows "fst (simple_recv ev s) = R_freed \<longleftrightarrow> ev = Inl False"
    and "fst (simple_recv ev s) = R_behind \<longleftrightarrow> (\<exists>bs. ev = Inr bs \<and> 1024 \<le> length bs)"
  using assms by (auto simp: simple_recv_def Let_def mem_write_def split: sum.splits bool.splits if_splits)

end
