(* ===== verification/Spec2Isabelle.thy ===== *)
theory Spec2Isabelle
  imports Request_Safety Strings Sessions Access Streams Startup Exchange Lifetime Memory_Requests Handler_Races Seed Type_Mapping
begin

text \<open>
  \<^bold>\<open>Meshchat\<close>

  Meshchat is a chat server and its client library, written in C. A client opens a socket and
  sends requests of one block of \<^verbatim>\<open>BUFSIZ\<close> bytes; the server answers each with one block. Users
  register and log in, and get a token that every other request carries; they found
  conversations of many members and chats of two, and exchange texts and files in them.

  \<^bold>\<open>The parts of the program and the theories that model them\<close>

  \<^item> Integers and strings on the wire, and arrays whose bounds are checked: \<open>Bytes\<close>. The locale of a
    message format with an encoder and a parser is \<open>Codec\<close>.
  \<^item> \<^verbatim>\<open>server/src/utils/sll.c\<close>, the linked list: \<open>Sll\<close>, on an explicit heap.
  \<^item> \<^verbatim>\<open>server/src/utils/string.c\<close>, the registry of allocated strings: \<open>Strings\<close>.
  \<^item> \<^verbatim>\<open>server/src/request.c\<close>: \<open>Request\<close> has the parser and the makers of all requests, and that they
    are inverse to each other; \<open>Request_Safety\<close> has when the parser stays inside its buffer.
  \<^item> \<^verbatim>\<open>server/src/response.c\<close>: \<open>Response\<close>, in the same way.
  \<^item> \<^verbatim>\<open>server/db/schema.up.sql\<close> and the statements that \<^verbatim>\<open>server/src/sql.c\<close> sends: \<open>Database\<close> has the tables,
    the text of every statement, its effect, and the connection with its transaction. \<open>Integrity\<close> has
    the two invariants of the tables and the locale \<open>db_invariant\<close> of invariants that every
    statement keeps.
  \<^item> \<^verbatim>\<open>server/src/sql.c\<close>: \<open>Sql\<close> has its functions, \<open>Sql_Facts\<close> how they evaluate and that they keep every
    invariant, \<open>Sql_Props\<close> their contracts.
  \<^item> \<^verbatim>\<open>server/src/sql.c\<close> again, as the workers run it side by side: \<open>Threads\<close> has its functions as programs,
    trees of calls of SQLite and of the mutex, the pool of workers on the shared connection as a step
    relation, and that a worker alone does what \<open>Sql\<close> says. \<open>Mutex\<close> has the locale of disciplines for
    the mutex with its three instances, and that runs end. \<open>Races\<close> has what holds under every interleaving and
    what goes wrong under some.
  \<^item> \<^verbatim>\<open>server/src/handler.c\<close>: \<open>Token\<close> has the session token, the hash and the name of a stored file;
    \<open>Handler\<close> has all handlers, the loops that move bytes and the dispatch. \<open>Handler_Facts\<close> is a
    calculus of postconditions for them, \<open>Handler_Keeps\<close> shows that every handler keeps every invariant
    of the database, \<open>Handler_Props\<close> and \<open>Access\<close> show who may do what and what then happens,
    \<open>Sessions\<close> registration and login, \<open>Streams\<close> the loops. \<open>Handler_Work\<close> has every handler as the tree of the
    functions of \<^verbatim>\<open>sql.c\<close> it calls, and that an uninterrupted handler does to the database what its tree
    does; \<open>Handler_Races\<close> has the handlers side by side.
  \<^item> \<^verbatim>\<open>server/src/main.c\<close>: \<open>Fdset\<close> has the set of open sockets, \<open>Server\<close> accepting, the loop of a worker,
    and the histories of the server as a step relation. \<open>Startup\<close> has \<^verbatim>\<open>main\<close> from the options to the workers,
    with every call that can fail, and the shutdown.
  \<^item> \<^verbatim>\<open>server/src/seed.c\<close> and \<^verbatim>\<open>server/src/utils/random.c\<close>: \<open>Seed\<close>, the tool that fills a database and the random
    strings of the tests.
  \<^item> \<^verbatim>\<open>type-mapping\<close>, the library with which the Java client tries out the mapping of C types: \<open>Type_Mapping\<close>, with the
    encoder and the decoder of its record and its socket.
  \<^item> \<^verbatim>\<open>client-lib/src/auth.c\<close>, \<^verbatim>\<open>connection.c\<close> and \<^verbatim>\<open>service.c\<close>: \<open>Client\<close> has the session, the exchange of
    one block for another, and one function per request. \<open>Exchange\<close> puts a client and the handler of
    the server together: what the function of the client returns when the server has handled the
    bytes it made.
  \<^item> The lifetime of requests, replies and rows: \<open>Lifetime\<close> has what the parsers and the queries allocate,
    the destructors \<^verbatim>\<open>request_destroy\<close>, \<^verbatim>\<open>response_destroy\<close> and those of \<^verbatim>\<open>sql.c\<close>, and what is left after them.
  \<^item> The memory of the handlers: \<open>Handler_Memory\<close> has the handlers of \<^verbatim>\<open>handler.c\<close> that allocate, on the state of
    \<open>Handler\<close> and the store of \<open>Lifetime\<close>, and a whole request from its parsing to its destruction.
    \<open>Memory_Safety\<close> has what it means that a store has grown and that a handler with memory follows the one
    without, \<open>Memory_Handlers\<close> that every handler does, and \<open>Memory_Requests\<close> what a request leaves behind.

  \<^bold>\<open>How state and effects are represented\<close>

  A function of the program returns \<^verbatim>\<open>Inl\<close> a fault where the C program has no defined behaviour
  or never returns: a null pointer, an access outside an array, an uninitialised value, a
  mutex locked twice, a division by zero. Buffers are lists of bytes with their full length, so that an access
  outside them is such a fault. Integers keep their width. What the world does is an input:
  scripts of results for the system calls of a handler, a script of errors for the engine,
  records of functions for the cipher, the digest and the engine's choices, the clock and the
  peer's address. No loop needs fuel: the loops end by their own measure or with their script,
  and an exhausted script has a meaning of its own (a timeout, an error of the socket), so no
  result is lost.

  \<^bold>\<open>What is shown\<close>

  Every request and every reply is read back as it was written, whatever the buffer held
  before. Through every history of the server, with errors anywhere, the keys of the database
  stay unique, with foreign keys on its references stay intact, and the sockets stay
  consistent; the first two hold under every interleaving of the single statements of the handlers
  too. A worker gets the
  identifier of its own row, and workers that give the mutex back finish in every run. The process
  starts with consistent sockets or leaves none open, and releases all of them at its end. Requests
  without a valid token, and those of users without the right, are refused and change nothing. Files arrive and leave byte for byte. Through the client library and the
  server together, a login leaves an accepted token in the session, and a text that is sent is the
  text that is read. No handler uses or frees memory that it has freed before or that was never
  allocated, and what each request leaves behind is counted exactly. Beside these, the properties say where the code does not do what it means to
  do: tokens that never expire, memory that is not released, mutexes that stay locked, rights that
  are checked on one thing and used on another, accesses outside a buffer, two races of the
  creation of a conversation with a registration, and one of a sender with the user who drops the
  conversation.

  \<^bold>\<open>Assumptions\<close>

  Text of a client goes into statements as it is. The effect of a statement is known when the
  strings in it have no quote and it fits its buffer; another text is an argument for the
  engine, of which nothing is known. The theorems on histories are about requests whose
  strings are of the first kind. In these histories workers interleave by whole events. The theories
  \<open>Threads\<close> to \<open>Handler_Races\<close> interleave the calls of SQLite and of the mutex that the functions of \<^verbatim>\<open>sql.c\<close>
  make; a worker there makes any calls of such functions, each chosen from the results before, or is
  the handler of a request. One call of SQLite is a step, since SQLite serializes the calls on a
  connection; the rows of a list are read by one step.

  \<^bold>\<open>Not modelled\<close>

  Log output, and the delivery of signals (the shutdown is
  modelled as a function of the state it finds). Of \<^verbatim>\<open>type-mapping\<close> the functions that only print
  are left out, and its memory never runs out. The Java client is in another language; SQLite and libfdr are third-party code,
  and of libfdr only the union of values is used, never its trees or lists.
\<close>

end
